theory Spec2Isabelle
  imports Complex_Main
begin

section \<open>Unrestricted Hartree-Fock with DIIS: the notebook as HOL functions\<close>

text \<open>
  The development follows \<^verbatim>\<open>Tutorials/03_Hartree-Fock/3c_unrestricted-hartree-fock.ipynb\<close>.

  Conventions of the embedding.
  \<^item> A NumPy array of rank 2 is a list of rows, of rank 4 a list nested four deep. The
    array operations below are the index formulas of the NumPy calls; they agree with NumPy
    on operands of the shapes the call expects (NumPy raises on any other operands), and
    the theorems below that depend on shapes state them.
  \<^item> A float64 is a \<^typ>\<open>real\<close>; there is no infinity and no NaN. The operations round
    where a property below depends on the rounding: in the projected size of the tensor,
    which the memory check compares with the budget, and in the float64 version of
    \<^verbatim>\<open>diis_xtrap\<close>. The rounding is \<open>fl64\<close>: to the nearest number with a significand of 53
    bits, ties to the even significand, the exponent not bounded. Everywhere else the
    arithmetic is exact.
  \<^item> A Python \<^verbatim>\<open>int\<close> is an \<^typ>\<open>int\<close>.
  \<^item> An exception is a value of \<open>error\<close>; a function that can raise returns \<open>error + 'a\<close>.
  \<^item> \<^verbatim>\<open>np.linalg.solve\<close> is Gaussian elimination with partial pivoting. In exact
    arithmetic (\<open>linalg_solve\<close>) the section on the linear solve below shows that it returns
    the unique solution and raises exactly for a singular matrix; \<open>linalg_solve_fl\<close> is the
    elimination with every operation rounded, in the order of LAPACK's \<^verbatim>\<open>dgesv\<close>.
  \<^item> \<^verbatim>\<open>np.linalg.eigh\<close> is not part of the notebook and has no exact executable
    counterpart; every function that calls it takes it as the parameter \<open>eigh\<close>.
  \<^item> The calls of Psi4 that produce data or release it are recorded in the order in which
    the notebook makes them, from the cell of the static quantities on; of the output, the
    lines of the passes are recorded.
\<close>

type_synonym mat = "real list list"
type_synonym tensor4 = "real list list list list"

datatype error = LinAlgError | IndexError | MemoryLimitExceeded | MaxIterExceeded

subsection \<open>Array operations\<close>

definition ncols :: "'a list list \<Rightarrow> nat" where
  "ncols X = (case X of [] \<Rightarrow> 0 | r # _ \<Rightarrow> length r)"

definition is_mat :: "nat \<Rightarrow> nat \<Rightarrow> mat \<Rightarrow> bool" where
  \<comment> \<open>an array of shape (m, n)\<close>
  "is_mat m n X \<longleftrightarrow> length X = m \<and> list_all (\<lambda>r. length r = n) X"

definition is_tensor4 :: "nat \<Rightarrow> tensor4 \<Rightarrow> bool" where
  \<comment> \<open>an array of shape (m, m, m, m)\<close>
  "is_tensor4 m T \<longleftrightarrow> length T = m \<and> list_all (\<lambda>P. length P = m \<and> list_all (is_mat m m) P) T"

definition dot :: "mat \<Rightarrow> mat \<Rightarrow> mat" where
  \<comment> \<open>\<^verbatim>\<open>X.dot(Y)\<close>\<close>
  "dot X Y =
     map (\<lambda>i. map (\<lambda>j. \<Sum>k\<leftarrow>[0..<length Y]. X ! i ! k * Y ! k ! j) [0..<ncols Y])
       [0..<length X]"

definition mat_add :: "mat \<Rightarrow> mat \<Rightarrow> mat" where
  \<comment> \<open>\<^verbatim>\<open>X + Y\<close>\<close>
  "mat_add X Y = map2 (map2 (+)) X Y"

definition mat_sub :: "mat \<Rightarrow> mat \<Rightarrow> mat" where
  \<comment> \<open>\<^verbatim>\<open>X - Y\<close>\<close>
  "mat_sub X Y = map2 (map2 (-)) X Y"

definition scal :: "real \<Rightarrow> mat \<Rightarrow> mat" where
  \<comment> \<open>\<^verbatim>\<open>c * X\<close>\<close>
  "scal c X = map (map ((*) c)) X"

definition zeros_like :: "mat \<Rightarrow> mat" where
  \<comment> \<open>\<^verbatim>\<open>np.zeros_like(X)\<close>\<close>
  "zeros_like X = map (map (\<lambda>_. 0)) X"

definition einsum_ij_ij :: "mat \<Rightarrow> mat \<Rightarrow> real" where
  \<comment> \<open>\<^verbatim>\<open>np.einsum('ij,ij->', X, Y)\<close>, also written \<^verbatim>\<open>'pq,pq->'\<close>\<close>
  "einsum_ij_ij X Y = (\<Sum>i\<leftarrow>[0..<length X]. \<Sum>j\<leftarrow>[0..<ncols X]. X ! i ! j * Y ! i ! j)"

definition einsum_pi_qi :: "mat \<Rightarrow> mat \<Rightarrow> mat" where
  \<comment> \<open>\<^verbatim>\<open>np.einsum('pi,qi->pq', X, Y)\<close>\<close>
  "einsum_pi_qi X Y =
     map (\<lambda>p. map (\<lambda>q. \<Sum>i\<leftarrow>[0..<ncols X]. X ! p ! i * Y ! q ! i) [0..<length Y])
       [0..<length X]"

definition einsum_pqrs_rs :: "tensor4 \<Rightarrow> mat \<Rightarrow> mat" where
  \<comment> \<open>\<^verbatim>\<open>np.einsum('pqrs,rs->pq', T, D)\<close>\<close>
  "einsum_pqrs_rs T D =
     map (\<lambda>p. map (\<lambda>q. \<Sum>r\<leftarrow>[0..<length D]. \<Sum>s\<leftarrow>[0..<ncols D]. T ! p ! q ! r ! s * D ! r ! s)
                [0..<ncols T])
       [0..<length T]"

definition einsum_prqs_rs :: "tensor4 \<Rightarrow> mat \<Rightarrow> mat" where
  \<comment> \<open>\<^verbatim>\<open>np.einsum('prqs,rs->pq', T, D)\<close>: the second axis of \<open>T\<close> is \<open>r\<close>, the third is \<open>q\<close>\<close>
  "einsum_prqs_rs T D =
     map (\<lambda>p. map (\<lambda>q. \<Sum>r\<leftarrow>[0..<length D]. \<Sum>s\<leftarrow>[0..<ncols D]. T ! p ! r ! q ! s * D ! r ! s)
                [0..<ncols (concat T)])
       [0..<length T]"

definition np_mean :: "mat \<Rightarrow> real" where
  \<comment> \<open>\<^verbatim>\<open>np.mean(X)\<close>: the mean over all entries\<close>
  "np_mean X = sum_list (concat X) / real (length (concat X))"

definition squares :: "mat \<Rightarrow> mat" where
  \<comment> \<open>\<^verbatim>\<open>X**2\<close>\<close>
  "squares X = map (map (\<lambda>x. x\<^sup>2)) X"

definition slice_to :: "int \<Rightarrow> 'a list \<Rightarrow> 'a list" where
  \<comment> \<open>Python's \<^verbatim>\<open>xs[:n]\<close>: a negative \<open>n\<close> counts from the end, an \<open>n\<close> past the end is clamped\<close>
  "slice_to n xs = (if 0 \<le> n then take (nat n) xs else take (length xs - nat (- n)) xs)"

subsection \<open>Rounding to float64\<close>

text \<open>
  An arithmetic operation of float64 returns the exact result rounded to the nearest number
  \<open>k\<cdot>2\<^sup>j\<close> with \<open>|k| \<le> 2\<^sup>5\<^sup>3\<close>, a tie going to the even \<open>k\<close>. The exponent \<open>j\<close> is not bounded here:
  a result beyond \<open>2\<^sup>1\<^sup>0\<^sup>2\<^sup>4\<close> (infinity in float64) or below \<open>2\<^sup>-\<^sup>1\<^sup>0\<^sup>2\<^sup>2\<close> (rounded more
  coarsely in float64) is outside the model.
\<close>

definition round_even :: "real \<Rightarrow> int" where
  \<comment> \<open>the nearest integer, a tie going to the even one\<close>
  "round_even y =
     (let f = \<lfloor>y\<rfloor>; d = y - of_int f
      in if d < 1 / 2 then f else if 1 / 2 < d then f + 1 else if even f then f else f + 1)"

definition fl64 :: "real \<Rightarrow> real" where
  \<comment> \<open>for \<open>2\<^sup>e \<le> |x| < 2\<^sup>e\<^sup>+\<^sup>1\<close> the nearest multiple of \<open>2\<^sup>e\<^sup>-\<^sup>5\<^sup>2\<close>\<close>
  "fl64 x =
     (if x = 0 then 0
      else (let e = \<lfloor>log 2 \<bar>x\<bar>\<rfloor>; u = 2 powi (e - 52) in of_int (round_even (x / u)) * u))"

definition in_range :: "real \<Rightarrow> bool" where
  \<comment> \<open>zero, or of a magnitude far from the ends of the range of float64\<close>
  "in_range x \<longleftrightarrow> x = 0 \<or> (1 / 2 ^ 1000 \<le> \<bar>x\<bar> \<and> \<bar>x\<bar> \<le> 2 ^ 1000)"

definition einsum_ij_ij_fl :: "mat \<Rightarrow> mat \<Rightarrow> real" where
  \<comment> \<open>\<^verbatim>\<open>np.einsum('ij,ij->', X, Y)\<close> in float64, the rounded products added one by one in
      the order of the rows\<close>
  "einsum_ij_ij_fl X Y =
     foldl (\<lambda>acc x. fl64 (acc + x)) 0
       (concat (map (\<lambda>i. map (\<lambda>j. fl64 (X ! i ! j * Y ! i ! j)) [0..<ncols X]) [0..<length X]))"

subsection \<open>\<^verbatim>\<open>np.linalg.solve\<close>\<close>

text \<open>
  \<^verbatim>\<open>np.linalg.solve(B, rhs)\<close> factors \<open>B\<close> by Gaussian elimination with partial
  pivoting and raises \<^verbatim>\<open>LinAlgError\<close> when it meets a zero pivot. The model works on the
  rows of the augmented matrix: the pivot of the first column is the first entry of largest
  magnitude, the other rows are reduced by the pivot row, the remaining unknowns are solved
  for recursively and the first unknown is read off the pivot row.
\<close>

fun argmax_abs :: "real list \<Rightarrow> nat" where
  "argmax_abs [] = 0"
| "argmax_abs [x] = 0"
| "argmax_abs (x # y # ys) =
     (let j = argmax_abs (y # ys) in if \<bar>x\<bar> < \<bar>(y # ys) ! j\<bar> then Suc j else 0)"

definition eliminate :: "real list \<Rightarrow> real list \<Rightarrow> real list" where
  "eliminate prow r = (let m = hd r / hd prow in map2 (\<lambda>x y. y - m * x) (tl prow) (tl r))"

fun gauss :: "nat \<Rightarrow> real list list \<Rightarrow> real list option" where
  "gauss 0 rows = Some []"
| "gauss (Suc n) rows =
     (let p = argmax_abs (map hd rows); prow = rows ! p in
      if hd prow = 0 then None
      else (case gauss n (map (eliminate prow) (take p rows @ drop (Suc p) rows)) of
              None \<Rightarrow> None
            | Some xs \<Rightarrow>
                Some ((last prow - (\<Sum>(a, x)\<leftarrow>zip (butlast (tl prow)) xs. a * x)) / hd prow # xs)))"

definition linalg_solve :: "mat \<Rightarrow> real list \<Rightarrow> error + real list" where
  "linalg_solve B rhs =
     (case gauss (length B) (map2 (\<lambda>row b. row @ [b]) B rhs) of
        None \<Rightarrow> Inl LinAlgError
      | Some c \<Rightarrow> Inr c)"

text \<open>
  The same elimination in float64, operation by operation as LAPACK's \<^verbatim>\<open>dgesv\<close> performs
  it. The pivot row is exchanged with the first row. The multiplier of a row is its first
  entry times the rounded reciprocal of the pivot, and an entry \<open>y\<close> of the row becomes
  \<open>y - m\<cdot>x\<close> with the product and the difference rounded; the right-hand side is reduced
  with the rows. An unknown is the right-hand side of its row minus the products with the
  unknowns already found, the last unknown first, divided by the pivot.
\<close>

definition eliminate_fl :: "real list \<Rightarrow> real list \<Rightarrow> real list" where
  "eliminate_fl prow r =
     (let m = fl64 (hd r * fl64 (1 / hd prow))
      in map2 (\<lambda>x y. fl64 (y - fl64 (m * x))) (tl prow) (tl r))"

fun gauss_fl :: "nat \<Rightarrow> real list list \<Rightarrow> real list option" where
  "gauss_fl 0 rows = Some []"
| "gauss_fl (Suc n) rows =
     (let p = argmax_abs (map hd rows); prow = rows ! p in
      if hd prow = 0 then None
      else (case gauss_fl n (map (eliminate_fl prow) (tl (rows[p := rows ! 0]))) of
              None \<Rightarrow> None
            | Some xs \<Rightarrow>
                Some (fl64 (foldr (\<lambda>(a, x) acc. fl64 (acc - fl64 (a * x)))
                              (zip (butlast (tl prow)) xs) (last prow) / hd prow) # xs)))"

definition linalg_solve_fl :: "mat \<Rightarrow> real list \<Rightarrow> error + real list" where
  "linalg_solve_fl B rhs =
     (case gauss_fl (length B) (map2 (\<lambda>row b. row @ [b]) B rhs) of
        None \<Rightarrow> Inl LinAlgError
      | Some c \<Rightarrow> Inr c)"

subsection \<open>\<^verbatim>\<open>diis_xtrap\<close>\<close>

definition build_B :: "nat \<Rightarrow> mat list \<Rightarrow> mat" where
  \<comment> \<open>The matrix \<open>B\<close> once every entry of the \<^verbatim>\<open>np.empty\<close> array has been assigned: the last
      row and column are \<open>-1\<close>, the corner is \<open>0\<close>, the leading block holds the overlaps of
      the residuals.\<close>
  "build_B k DIIS_RESID =
     map (\<lambda>i. map (\<lambda>j. if i < k \<and> j < k then einsum_ij_ij (DIIS_RESID ! i) (DIIS_RESID ! j)
                         else if i = k \<and> j = k then 0 else - 1) [0..<Suc k]) [0..<Suc k]"

definition pulay_rhs :: "nat \<Rightarrow> real list" where
  \<comment> \<open>\<^verbatim>\<open>rhs = np.zeros((B_dim)); rhs[-1] = -1\<close>\<close>
  "pulay_rhs k = replicate k 0 @ [- 1]"

definition diis_xtrap :: "mat list \<Rightarrow> mat list \<Rightarrow> error + mat" where
  "diis_xtrap F_list DIIS_RESID =
     (let k = length F_list in
      if length DIIS_RESID < k then Inl IndexError
      else (case linalg_solve (build_B k DIIS_RESID) (pulay_rhs k) of
              Inl e \<Rightarrow> Inl e
            | Inr coeff \<Rightarrow>
                Inr (foldl (\<lambda>F_DIIS x. mat_add F_DIIS (scal (coeff ! x) (F_list ! x)))
                       (zeros_like (F_list ! 0)) [0..<k])))"

text \<open>
  \<^verbatim>\<open>diis_xtrap\<close> in float64. NumPy does not fix the order in which \<^verbatim>\<open>einsum\<close> adds the
  products of a contraction, so the function that computes the overlap of two residuals
  is the parameter \<open>ov\<close>; \<open>einsum_ij_ij_fl\<close> is one such function. The statement
  \<^verbatim>\<open>F_DIIS += coeff[x] * F_list[x]\<close> rounds the product and the sum of every entry.
\<close>

definition build_B_fl :: "(mat \<Rightarrow> mat \<Rightarrow> real) \<Rightarrow> nat \<Rightarrow> mat list \<Rightarrow> mat" where
  "build_B_fl ov k DIIS_RESID =
     map (\<lambda>i. map (\<lambda>j. if i < k \<and> j < k then ov (DIIS_RESID ! i) (DIIS_RESID ! j)
                         else if i = k \<and> j = k then 0 else - 1) [0..<Suc k]) [0..<Suc k]"

definition diis_xtrap_fl ::
  "(mat \<Rightarrow> mat \<Rightarrow> real) \<Rightarrow> mat list \<Rightarrow> mat list \<Rightarrow> error + mat" where
  "diis_xtrap_fl ov F_list DIIS_RESID =
     (let k = length F_list in
      if length DIIS_RESID < k then Inl IndexError
      else (case linalg_solve_fl (build_B_fl ov k DIIS_RESID) (pulay_rhs k) of
              Inl e \<Rightarrow> Inl e
            | Inr coeff \<Rightarrow>
                Inr (foldl (\<lambda>F_DIIS x.
                             map2 (map2 (\<lambda>a f. fl64 (a + fl64 (coeff ! x * f)))) F_DIIS (F_list ! x))
                       (zeros_like (F_list ! 0)) [0..<k])))"

subsection \<open>\<^verbatim>\<open>diag_F\<close>\<close>

definition diag_F :: "(mat \<Rightarrow> real list \<times> mat) \<Rightarrow> mat \<Rightarrow> mat \<Rightarrow> int \<Rightarrow> mat \<times> mat" where
  \<comment> \<open>The notebook reads the orthogonalization matrix from the global \<^verbatim>\<open>A\<close>; here it is
      the second argument.\<close>
  "diag_F eigh A F norb =
     (let F_p = dot (dot A F) A;
          (e, C_p) = eigh F_p;
          C = dot A C_p;
          C_occ = map (slice_to norb) C;
          D = einsum_pi_qi C_occ C_occ
      in (C, D))"

subsection \<open>Options, static quantities and the variables of the iteration\<close>

record options =
  numpy_memory :: real
  MAXITER :: int
  E_conv :: real
  D_conv :: real

definition default_options :: options where
  "default_options = \<lparr>numpy_memory = 2, MAXITER = 40, E_conv = 1 / 10 ^ 6, D_conv = 1 / 10 ^ 3\<rparr>"

text \<open>What the Psi4 objects \<^verbatim>\<open>wfn\<close>, \<^verbatim>\<open>mints\<close> and \<^verbatim>\<open>mol\<close> return for the molecule and basis set.\<close>

record psi4_env =
  ao_overlap :: mat
  nso :: int
  wfn_nalpha :: int
  wfn_nbeta :: int
  ao_eri :: tensor4
  ao_kinetic :: mat
  ao_potential :: mat
  overlap_power :: mat  \<comment> \<open>the overlap matrix after \<^verbatim>\<open>A.power(-0.5, 1.e-16)\<close>\<close>
  nuclear_repulsion_energy :: real

datatype psi4_call =
  Wavefunction_build | MintsHelper | Mints_ao_overlap | Wfn_nso | Wfn_nalpha | Wfn_nbeta
  | Core_clean | Mints_ao_eri | Mints_ao_kinetic | Mints_ao_potential | Matrix_power
  | Mol_nuclear_repulsion_energy

record statics =
  var_S :: mat
  nbf :: int
  nalpha :: int
  nbeta :: int
  ndocc :: int
  var_I :: tensor4
  var_H :: mat
  var_A :: mat

record scf_state =
  calls :: "psi4_call list"   \<comment> \<open>the Psi4 calls made so far, in order\<close>
  printed :: "(int \<times> real \<times> real \<times> real) list"
    \<comment> \<open>the lines \<^verbatim>\<open>SCF Iteration ...\<close> printed so far: iteration, energy, dE, dRMS\<close>
  E_nuc :: real
  Ca :: mat
  Da :: mat
  Cb :: mat
  Db :: mat
  SCF_E :: real
  E_old :: real
  F_list_a :: "mat list"
  F_list_b :: "mat list"
  R_list_a :: "mat list"
  R_list_b :: "mat list"

subsection \<open>Static quantities and the core guess\<close>

definition I_size :: "int \<Rightarrow> real" where
  \<comment> \<open>\<^verbatim>\<open>(nbf**4) * 8.e-9\<close>: the power is an exact integer, which the product converts to
      float64; the literal is the float64 number nearest to \<open>8/10\<^sup>9\<close>; the product is rounded\<close>
  "I_size n = fl64 (fl64 (real_of_int (n ^ 4)) * fl64 (8 / 10 ^ 9))"

definition static_quantities :: "options \<Rightarrow> psi4_env \<Rightarrow> psi4_call list \<times> (error + statics)" where
  "static_quantities opts env =
     (let cs = [Wavefunction_build, MintsHelper, Mints_ao_overlap, Wfn_nso, Wfn_nalpha, Wfn_nbeta]
      in if I_size (nso env) > numpy_memory opts
         then (cs @ [Core_clean], Inl MemoryLimitExceeded)
         else (cs @ [Mints_ao_eri, Mints_ao_kinetic, Mints_ao_potential, Mints_ao_overlap,
                     Matrix_power],
               Inr \<lparr>var_S = ao_overlap env, nbf = nso env, nalpha = wfn_nalpha env,
                    nbeta = wfn_nbeta env, ndocc = min (wfn_nalpha env) (wfn_nbeta env),
                    var_I = ao_eri env, var_H = mat_add (ao_kinetic env) (ao_potential env),
                    var_A = overlap_power env\<rparr>))"

definition core_guess ::
  "(mat \<Rightarrow> real list \<times> mat) \<Rightarrow> psi4_env \<Rightarrow> psi4_call list \<Rightarrow> statics \<Rightarrow> scf_state" where
  \<comment> \<open>the cells \<^verbatim>\<open>Build alpha & beta CORE guess\<close> and \<^verbatim>\<open>Pre-Iteration Setup\<close>, and the four
      empty lists\<close>
  "core_guess eigh env cs g =
     (let (Ca0, Da0) = diag_F eigh (var_A g) (var_H g) (nalpha g);
          (Cb0, Db0) = diag_F eigh (var_A g) (var_H g) (nbeta g)
      in \<lparr>calls = cs @ [Mol_nuclear_repulsion_energy], printed = [],
          E_nuc = nuclear_repulsion_energy env,
          Ca = Ca0, Da = Da0, Cb = Cb0, Db = Db0, SCF_E = 0, E_old = 0,
          F_list_a = [], F_list_b = [], R_list_a = [], R_list_b = []\<rparr>)"

subsection \<open>One pass of the loop\<close>

definition fock_build :: "tensor4 \<Rightarrow> mat \<Rightarrow> mat \<Rightarrow> mat \<Rightarrow> mat \<times> mat" where
  "fock_build I H D_a D_b =
     (let Ja = einsum_pqrs_rs I D_a;
          Jb = einsum_pqrs_rs I D_b;
          Ka = einsum_prqs_rs I D_a;
          Kb = einsum_prqs_rs I D_b;
          Fa = mat_sub (mat_add H (mat_add Ja Jb)) Ka;
          Fb = mat_sub (mat_add H (mat_add Ja Jb)) Kb
      in (Fa, Fb))"

definition diis_resid :: "mat \<Rightarrow> mat \<Rightarrow> mat \<Rightarrow> mat \<Rightarrow> mat" where
  \<comment> \<open>\<^verbatim>\<open>A.dot(F.dot(D).dot(S) - S.dot(D).dot(F)).dot(A)\<close>\<close>
  "diis_resid A S F D = dot (dot A (mat_sub (dot (dot F D) S) (dot (dot S D) F))) A"

definition uhf_energy :: "mat \<Rightarrow> real \<Rightarrow> mat \<Rightarrow> mat \<Rightarrow> mat \<Rightarrow> mat \<Rightarrow> real" where
  "uhf_energy H Enuc D_a D_b Fa Fb =
     (einsum_ij_ij (mat_add D_a D_b) H + einsum_ij_ij D_a Fa + einsum_ij_ij D_b Fb) * (1 / 2)
       + Enuc"

definition rms_pair :: "mat \<Rightarrow> mat \<Rightarrow> real" where
  \<comment> \<open>\<^verbatim>\<open>0.5 * (np.mean(diis_r_a**2)**0.5 + np.mean(diis_r_b**2)**0.5)\<close>\<close>
  "rms_pair r_a r_b = (1 / 2) * (sqrt (np_mean (squares r_a)) + sqrt (np_mean (squares r_b)))"

definition extrapolate :: "int \<Rightarrow> scf_state \<Rightarrow> mat \<Rightarrow> mat \<Rightarrow> error + mat \<times> mat" where
  \<comment> \<open>the block \<^verbatim>\<open>if scf_iter >= 2\<close>: the Fock matrices handed to \<^verbatim>\<open>diag_F\<close>\<close>
  "extrapolate scf_iter st Fa Fb =
     (if scf_iter \<ge> 2
      then (case diis_xtrap (F_list_a st) (R_list_a st) of
              Inl e \<Rightarrow> Inl e
            | Inr Fa' \<Rightarrow>
                (case diis_xtrap (F_list_b st) (R_list_b st) of
                   Inl e \<Rightarrow> Inl e
                 | Inr Fb' \<Rightarrow> Inr (Fa', Fb')))
      else Inr (Fa, Fb))"

datatype ctl =
  is_Next: Next scf_state          \<comment> \<open>the pass ran to its end; the loop goes on\<close>
  | is_Break: Break scf_state      \<comment> \<open>\<^verbatim>\<open>break\<close>\<close>
  | is_Raise: Raise error scf_state  \<comment> \<open>an exception left the pass; the variables at that point\<close>

text \<open>
  The quantities of one pass that the convergence test reads, as functions of the variables
  at the start of the pass.
\<close>

definition iter_fock :: "statics \<Rightarrow> scf_state \<Rightarrow> mat \<times> mat" where
  "iter_fock g st = fock_build (var_I g) (var_H g) (Da st) (Db st)"

definition iter_resid :: "statics \<Rightarrow> scf_state \<Rightarrow> mat \<times> mat" where
  "iter_resid g st =
     (let (Fa, Fb) = iter_fock g st
      in (diis_resid (var_A g) (var_S g) Fa (Da st), diis_resid (var_A g) (var_S g) Fb (Db st)))"

definition iter_energy :: "statics \<Rightarrow> scf_state \<Rightarrow> real" where
  "iter_energy g st =
     (let (Fa, Fb) = iter_fock g st in uhf_energy (var_H g) (E_nuc st) (Da st) (Db st) Fa Fb)"

definition iter_dE :: "statics \<Rightarrow> scf_state \<Rightarrow> real" where
  "iter_dE g st = iter_energy g st - E_old st"

definition iter_dRMS :: "statics \<Rightarrow> scf_state \<Rightarrow> real" where
  "iter_dRMS g st = (let (r_a, r_b) = iter_resid g st in rms_pair r_a r_b)"

definition append_history :: "statics \<Rightarrow> scf_state \<Rightarrow> scf_state" where
  \<comment> \<open>the four \<^verbatim>\<open>append\<close> calls\<close>
  "append_history g st =
     (let (Fa, Fb) = iter_fock g st;
          (diis_r_a, diis_r_b) = iter_resid g st
      in st\<lparr>F_list_a := F_list_a st @ [Fa], F_list_b := F_list_b st @ [Fb],
            R_list_a := R_list_a st @ [diis_r_a], R_list_b := R_list_b st @ [diis_r_b]\<rparr>)"

definition converged :: "options \<Rightarrow> real \<Rightarrow> real \<Rightarrow> bool" where
  \<comment> \<open>\<^verbatim>\<open>(abs(dE) < E_conv) and (dRMS < D_conv)\<close>\<close>
  "converged opts dE dRMS \<longleftrightarrow> \<bar>dE\<bar> < E_conv opts \<and> dRMS < D_conv opts"

definition at_check :: "statics \<Rightarrow> int \<Rightarrow> scf_state \<Rightarrow> scf_state" where
  \<comment> \<open>the variables when the convergence test is reached: the history is appended to, the
      energy is computed and the line of the pass is printed\<close>
  "at_check g scf_iter st =
     (let st1 = append_history g st;
          E = iter_energy g st;
          dE = iter_dE g st;
          dRMS = iter_dRMS g st
      in st1\<lparr>SCF_E := E, printed := printed st1 @ [(scf_iter, E, dE, dRMS)]\<rparr>)"

definition after_check :: "statics \<Rightarrow> int \<Rightarrow> scf_state \<Rightarrow> scf_state" where
  \<comment> \<open>the variables after \<^verbatim>\<open>E_old = SCF_E\<close>\<close>
  "after_check g scf_iter st = (let st2 = at_check g scf_iter st in st2\<lparr>E_old := SCF_E st2\<rparr>)"

definition orbital_update ::
  "(mat \<Rightarrow> real list \<times> mat) \<Rightarrow> statics \<Rightarrow> scf_state \<Rightarrow> mat \<Rightarrow> mat \<Rightarrow> scf_state" where
  \<comment> \<open>\<^verbatim>\<open>Ca, Da = diag_F(Fa, nalpha); Cb, Db = diag_F(Fb, nbeta)\<close>\<close>
  "orbital_update eigh g st Fa Fb =
     (let (Ca', Da') = diag_F eigh (var_A g) Fa (nalpha g);
          (Cb', Db') = diag_F eigh (var_A g) Fb (nbeta g)
      in st\<lparr>Ca := Ca', Da := Da', Cb := Cb', Db := Db'\<rparr>)"

definition scf_iteration ::
  "(mat \<Rightarrow> real list \<times> mat) \<Rightarrow> options \<Rightarrow> statics \<Rightarrow> int \<Rightarrow> scf_state \<Rightarrow> ctl" where
  "scf_iteration eigh opts g scf_iter st =
     (let (Fa, Fb) = iter_fock g st
      in if converged opts (iter_dE g st) (iter_dRMS g st) then Break (at_check g scf_iter st)
         else
           (let st3 = after_check g scf_iter st in
            case extrapolate scf_iter st3 Fa Fb of
              Inl e \<Rightarrow> Raise e st3
            | Inr (Fa', Fb') \<Rightarrow>
                (let st4 = orbital_update eigh g st3 Fa' Fb'
                 in if scf_iter = MAXITER opts
                    then Raise MaxIterExceeded (st4\<lparr>calls := calls st4 @ [Core_clean]\<rparr>)
                    else Next st4)))"

subsection \<open>The loop and the program\<close>

fun scf_loop ::
  "(mat \<Rightarrow> real list \<times> mat) \<Rightarrow> options \<Rightarrow> statics \<Rightarrow> int list \<Rightarrow> scf_state
     \<Rightarrow> error \<times> scf_state + scf_state" where
  "scf_loop eigh opts g [] st = Inr st"
| "scf_loop eigh opts g (scf_iter # rest) st =
     (case scf_iteration eigh opts g scf_iter st of
        Next st' \<Rightarrow> scf_loop eigh opts g rest st'
      | Break st' \<Rightarrow> Inr st'
      | Raise e st' \<Rightarrow> Inl (e, st'))"

datatype outcome =
  is_Setup_raised: Setup_raised error "psi4_call list"
    \<comment> \<open>the memory check raised; the calls made until then\<close>
  | is_Scf_raised: Scf_raised error scf_state
    \<comment> \<open>the loop raised; the variables at that point\<close>
  | is_Scf_converged: Scf_converged scf_state
    \<comment> \<open>the loop ended; \<^verbatim>\<open>SCF converged.\<close> and \<^verbatim>\<open>SCF_E\<close> are printed\<close>

definition uhf_program :: "(mat \<Rightarrow> real list \<times> mat) \<Rightarrow> options \<Rightarrow> psi4_env \<Rightarrow> outcome" where
  "uhf_program eigh opts env =
     (case static_quantities opts env of
        (cs, Inl e) \<Rightarrow> Setup_raised e cs
      | (cs, Inr g) \<Rightarrow>
          (case scf_loop eigh opts g [1..MAXITER opts] (core_guess eigh env cs g) of
             Inl (e, st) \<Rightarrow> Scf_raised e st
           | Inr st \<Rightarrow> Scf_converged st))"

subsection \<open>A concrete run\<close>

text \<open>
  \<^verbatim>\<open>np.linalg.eigh\<close> on a diagonal matrix: the eigenvalues are the diagonal entries in
  ascending order and the eigenvectors the matching unit vectors. (LAPACK fixes the signs
  of the eigenvectors; the density matrices do not depend on them.)
\<close>

definition eigh_diagonal :: "mat \<Rightarrow> real list \<times> mat" where
  "eigh_diagonal F =
     (let n = length F;
          d = map (\<lambda>i. F ! i ! i) [0..<n];
          perm = sort_key (\<lambda>i. d ! i) [0..<n]
      in (map (\<lambda>i. d ! i) perm, map (\<lambda>r. map (\<lambda>i. if r = i then 1 else 0) perm) [0..<n]))"

text \<open>
  Two orthonormal basis functions of different symmetry (the integrals with an odd number
  of either index vanish), one \<open>\<alpha>\<close> and one \<open>\<beta>\<close> electron.
\<close>

definition two_level_eri :: tensor4 where
  "two_level_eri =
     [[[[10, 0], [0, 1]], [[0, 1 / 2], [1 / 2, 0]]],
      [[[0, 1 / 2], [1 / 2, 0]], [[1, 0], [0, 1]]]]"

definition two_level :: psi4_env where
  "two_level =
     \<lparr>ao_overlap = [[1, 0], [0, 1]], nso = 2, wfn_nalpha = 1, wfn_nbeta = 1,
      ao_eri = two_level_eri,
      ao_kinetic = [[1, 0], [0, 2]], ao_potential = [[- 3, 0], [0, - 3]],
      overlap_power = [[1, 0], [0, 1]], nuclear_repulsion_energy = 0\<rparr>"

text \<open>
  The two-electron integrals of the concrete run with one entry changed: \<open>(11|00)\<close> is \<open>3\<close>
  while \<open>(00|11)\<close> is \<open>1\<close>, so the tensor lacks the symmetry \<open>(pq|rs) = (rs|pq)\<close>.
\<close>

definition nonsymmetric_eri :: tensor4 where
  "nonsymmetric_eri =
     [[[[10, 0], [0, 1]], [[0, 1 / 2], [1 / 2, 0]]],
      [[[0, 1 / 2], [1 / 2, 0]], [[3, 0], [0, 1]]]]"

subsection \<open>Notions used to state the properties\<close>

definition line_converged :: "options \<Rightarrow> int \<times> real \<times> real \<times> real \<Rightarrow> bool" where
  \<comment> \<open>a printed line whose dE and dRMS pass the convergence test\<close>
  "line_converged opts l = (case l of (k, E, dE, dRMS) \<Rightarrow> converged opts dE dRMS)"

definition hist_inv :: "scf_state \<Rightarrow> bool" where
  \<comment> \<open>each residual list is as long as its trial-vector list\<close>
  "hist_inv st \<longleftrightarrow>
     length (R_list_a st) = length (F_list_a st) \<and> length (R_list_b st) = length (F_list_b st)
     \<and> length (F_list_b st) = length (F_list_a st)"

definition well_shaped :: "nat \<Rightarrow> psi4_env \<Rightarrow> bool" where
  \<comment> \<open>the arrays that Psi4 returns have the shapes of \<open>m\<close> basis functions\<close>
  "well_shaped m env \<longleftrightarrow>
     0 < m \<and> nso env = int m \<and> is_mat m m (ao_overlap env) \<and> is_mat m m (ao_kinetic env)
     \<and> is_mat m m (ao_potential env) \<and> is_mat m m (overlap_power env)
     \<and> is_tensor4 m (ao_eri env)"

definition shaped_statics :: "nat \<Rightarrow> statics \<Rightarrow> bool" where
  "shaped_statics m g \<longleftrightarrow>
     0 < m \<and> is_mat m m (var_S g) \<and> is_tensor4 m (var_I g) \<and> is_mat m m (var_H g)
     \<and> is_mat m m (var_A g)"

definition shaped_state :: "nat \<Rightarrow> scf_state \<Rightarrow> bool" where
  \<comment> \<open>the coefficients, the densities and every stored Fock matrix and residual are
      \<open>m \<times> m\<close> arrays\<close>
  "shaped_state m st \<longleftrightarrow>
     is_mat m m (Ca st) \<and> is_mat m m (Da st) \<and> is_mat m m (Cb st) \<and> is_mat m m (Db st)
     \<and> list_all (is_mat m m) (F_list_a st) \<and> list_all (is_mat m m) (F_list_b st)
     \<and> list_all (is_mat m m) (R_list_a st) \<and> list_all (is_mat m m) (R_list_b st)"

fun after_passes ::
  "(mat \<Rightarrow> real list \<times> mat) \<Rightarrow> options \<Rightarrow> statics \<Rightarrow> scf_state \<Rightarrow> nat \<Rightarrow> scf_state option" where
  \<comment> \<open>the variables after \<open>n\<close> passes that ran to their end, that is, at the start of pass
      \<open>n + 1\<close>; \<open>None\<close> when the loop was left before\<close>
  "after_passes eigh opts g st0 0 = Some st0"
| "after_passes eigh opts g st0 (Suc n) =
     (case after_passes eigh opts g st0 n of
        None \<Rightarrow> None
      | Some st \<Rightarrow>
          (case scf_iteration eigh opts g (int (Suc n)) st of
             Next st' \<Rightarrow> Some st'
           | Break st' \<Rightarrow> None
           | Raise e st' \<Rightarrow> None))"

definition mat_transpose :: "mat \<Rightarrow> mat" where
  "mat_transpose X = map (\<lambda>j. map (\<lambda>i. X ! i ! j) [0..<length X]) [0..<ncols X]"

text \<open>
  The orbital update in the words of its contract, for matrices of dimension \<open>m\<close>: transform
  with \<open>A\<^sup>t\<cdot>F\<cdot>A\<close>, diagonalize, transform the eigenvectors back with \<open>A\<close>, keep the first \<open>n\<close>
  columns and form \<open>C_occ\<cdot>C_occ\<^sup>t\<close>, written out by entries.
\<close>

definition diag_F_spec ::
  "(mat \<Rightarrow> real list \<times> mat) \<Rightarrow> nat \<Rightarrow> mat \<Rightarrow> mat \<Rightarrow> nat \<Rightarrow> mat \<times> mat" where
  "diag_F_spec eigh m A F n =
     (let C = dot A (snd (eigh (dot (dot (mat_transpose A) F) A)))
      in (C, map (\<lambda>p. map (\<lambda>q. \<Sum>i\<leftarrow>[0..<n]. C ! p ! i * C ! q ! i) [0..<m]) [0..<m]))"

subsection \<open>The variables of the concrete run, pass by pass\<close>

definition two_level_statics :: statics where
  "two_level_statics =
     \<lparr>var_S = [[1, 0], [0, 1]], nbf = 2, nalpha = 1, nbeta = 1, ndocc = 1,
      var_I = two_level_eri, var_H = [[- 2, 0], [0, - 1]], var_A = [[1, 0], [0, 1]]\<rparr>"

definition two_level_calls :: "psi4_call list" where
  "two_level_calls =
     [Wavefunction_build, MintsHelper, Mints_ao_overlap, Wfn_nso, Wfn_nalpha, Wfn_nbeta,
      Mints_ao_eri, Mints_ao_kinetic, Mints_ao_potential, Mints_ao_overlap, Matrix_power]"

definition two_level_start :: scf_state where
  \<comment> \<open>after the core guess\<close>
  "two_level_start =
     \<lparr>calls = two_level_calls @ [Mol_nuclear_repulsion_energy], printed = [], E_nuc = 0,
      Ca = [[1, 0], [0, 1]], Da = [[1, 0], [0, 0]], Cb = [[1, 0], [0, 1]], Db = [[1, 0], [0, 0]],
      SCF_E = 0, E_old = 0, F_list_a = [], F_list_b = [], R_list_a = [], R_list_b = []\<rparr>"

definition two_level_pass1 :: scf_state where
  \<comment> \<open>after the first pass: the two electrons have moved to the second orbital\<close>
  "two_level_pass1 =
     \<lparr>calls = two_level_calls @ [Mol_nuclear_repulsion_energy], printed = [(1, 6, 6, 0)],
      E_nuc = 0,
      Ca = [[0, 1], [1, 0]], Da = [[0, 0], [0, 1]], Cb = [[0, 1], [1, 0]], Db = [[0, 0], [0, 1]],
      SCF_E = 6, E_old = 6,
      F_list_a = [[[8, 0], [0, 1 / 2]]], F_list_b = [[[8, 0], [0, 1 / 2]]],
      R_list_a = [[[0, 0], [0, 0]]], R_list_b = [[[0, 0], [0, 0]]]\<rparr>"

definition two_level_pass2 :: scf_state where
  \<comment> \<open>in the second pass, after \<^verbatim>\<open>E_old = SCF_E\<close>\<close>
  "two_level_pass2 =
     \<lparr>calls = two_level_calls @ [Mol_nuclear_repulsion_energy],
      printed = [(1, 6, 6, 0), (2, - 1, - 7, 0)], E_nuc = 0,
      Ca = [[0, 1], [1, 0]], Da = [[0, 0], [0, 1]], Cb = [[0, 1], [1, 0]], Db = [[0, 0], [0, 1]],
      SCF_E = - 1, E_old = - 1,
      F_list_a = [[[8, 0], [0, 1 / 2]], [[- (1 / 2), 0], [0, 0]]],
      F_list_b = [[[8, 0], [0, 1 / 2]], [[- (1 / 2), 0], [0, 0]]],
      R_list_a = [[[0, 0], [0, 0]], [[0, 0], [0, 0]]],
      R_list_b = [[[0, 0], [0, 0]], [[0, 0], [0, 0]]]\<rparr>"

definition two_level_conv1 :: scf_state where
  \<comment> \<open>at the convergence test of the first pass\<close>
  "two_level_conv1 =
     two_level_pass1\<lparr>Ca := [[1, 0], [0, 1]], Da := [[1, 0], [0, 0]], Cb := [[1, 0], [0, 1]],
       Db := [[1, 0], [0, 0]], E_old := 0\<rparr>"

definition pulay_singular :: "mat list \<Rightarrow> bool" where
  \<comment> \<open>the Pulay system of these residuals makes \<^verbatim>\<open>np.linalg.solve\<close> raise\<close>
  "pulay_singular RESID \<longleftrightarrow>
     linalg_solve (build_B (length RESID) RESID) (pulay_rhs (length RESID)) = Inl LinAlgError"

text \<open>Notions used to validate the model of the linear solve.\<close>

definition row_holds :: "real list \<Rightarrow> real list \<Rightarrow> bool" where
  \<comment> \<open>\<open>xs\<close> satisfies the equation of the augmented row \<open>r\<close>: coefficients, then right-hand side\<close>
  "row_holds xs r \<longleftrightarrow> (\<Sum>(a, x)\<leftarrow>zip (butlast r) xs. a * x) = last r"

definition homog :: "real list \<Rightarrow> real list" where
  \<comment> \<open>the augmented row with its right-hand side replaced by zero\<close>
  "homog r = butlast r @ [0]"

section \<open>Properties\<close>

subsection \<open>Shapes and entries of the array operations\<close>

lemma is_mat_nth: "is_mat m n X \<Longrightarrow> i < m \<Longrightarrow> length (X ! i) = n"
  by (simp add: is_mat_def list_all_length)

lemma is_mat_length: "is_mat m n X \<Longrightarrow> length X = m"
  by (simp add: is_mat_def)

lemma is_mat_ncols: "is_mat m n X \<Longrightarrow> 0 < m \<Longrightarrow> ncols X = n"
  by (cases X) (simp_all add: is_mat_def ncols_def)

lemma is_tensor4_length: "is_tensor4 m T \<Longrightarrow> length T = m"
  by (simp add: is_tensor4_def)

lemma is_tensor4_ncols: "is_tensor4 m T \<Longrightarrow> 0 < m \<Longrightarrow> ncols T = m"
  by (cases T) (simp_all add: is_tensor4_def ncols_def)

lemma is_tensor4_ncols_concat:
  assumes "is_tensor4 m T" "0 < m"
  shows "ncols (concat T) = m"
proof -
  from assms obtain P T' where T: "T = P # T'"
    by (cases T) (auto simp: is_tensor4_def)
  with assms have P: "length P = m" "list_all (is_mat m m) P"
    by (auto simp: is_tensor4_def)
  with assms obtain X P' where PP: "P = X # P'"
    by (cases P) auto
  with P have "length X = m"
    by (simp add: is_mat_def)
  with T PP show ?thesis
    by (simp add: ncols_def)
qed

lemma einsum_pqrs_rs_nth:
  assumes "is_tensor4 m T" "is_mat m m D" "p < m" "q < m"
  shows "einsum_pqrs_rs T D ! p ! q =
           (\<Sum>r\<leftarrow>[0..<m]. \<Sum>s\<leftarrow>[0..<m]. T ! p ! q ! r ! s * D ! r ! s)"
  using assms
  by (simp add: einsum_pqrs_rs_def is_tensor4_length is_tensor4_ncols is_mat_length is_mat_ncols)

lemma einsum_prqs_rs_nth:
  assumes "is_tensor4 m T" "is_mat m m D" "p < m" "q < m"
  shows "einsum_prqs_rs T D ! p ! q =
           (\<Sum>r\<leftarrow>[0..<m]. \<Sum>s\<leftarrow>[0..<m]. T ! p ! r ! q ! s * D ! r ! s)"
  using assms
  by (simp add: einsum_prqs_rs_def is_tensor4_length is_tensor4_ncols_concat is_mat_length
      is_mat_ncols)

lemma is_mat_einsum_pqrs_rs:
  "is_tensor4 m T \<Longrightarrow> is_mat m m D \<Longrightarrow> is_mat m m (einsum_pqrs_rs T D)"
  by (cases "m = 0")
    (simp_all add: einsum_pqrs_rs_def is_mat_def is_tensor4_length is_tensor4_ncols
      list_all_length)

lemma is_mat_einsum_prqs_rs:
  "is_tensor4 m T \<Longrightarrow> is_mat m m D \<Longrightarrow> is_mat m m (einsum_prqs_rs T D)"
  by (cases "m = 0")
    (simp_all add: einsum_prqs_rs_def is_mat_def is_tensor4_length is_tensor4_ncols_concat
      list_all_length)

lemma mat_add_nth:
  "is_mat m n X \<Longrightarrow> is_mat m n Y \<Longrightarrow> i < m \<Longrightarrow> j < n
   \<Longrightarrow> mat_add X Y ! i ! j = X ! i ! j + Y ! i ! j"
  by (simp add: mat_add_def is_mat_def list_all_length)

lemma mat_sub_nth:
  "is_mat m n X \<Longrightarrow> is_mat m n Y \<Longrightarrow> i < m \<Longrightarrow> j < n
   \<Longrightarrow> mat_sub X Y ! i ! j = X ! i ! j - Y ! i ! j"
  by (simp add: mat_sub_def is_mat_def list_all_length)

lemma is_mat_mat_add: "is_mat m n X \<Longrightarrow> is_mat m n Y \<Longrightarrow> is_mat m n (mat_add X Y)"
  by (simp add: mat_add_def is_mat_def list_all_length)

lemma is_mat_mat_sub: "is_mat m n X \<Longrightarrow> is_mat m n Y \<Longrightarrow> is_mat m n (mat_sub X Y)"
  by (simp add: mat_sub_def is_mat_def list_all_length)

lemma sum_list_add_distrib:
  "(\<Sum>r\<leftarrow>xs. f r) + (\<Sum>r\<leftarrow>xs. g r) = (\<Sum>r\<leftarrow>xs. f r + g r :: real)"
  by (induction xs) simp_all

lemma sum_list_upt_cong:
  "(\<And>i. i < k \<Longrightarrow> f i = g i) \<Longrightarrow> (\<Sum>i\<leftarrow>[0..<k]. f i) = (\<Sum>i\<leftarrow>[0..<k]. g i :: real)"
  by (rule arg_cong [where f = sum_list]) simp

lemma upt_2: "[0..<2] = [0, Suc 0]"
  by (simp add: upt_rec)

lemma two_level_eri_shape: "is_tensor4 2 two_level_eri"
  by (simp add: is_tensor4_def is_mat_def two_level_eri_def)

subsection \<open>The model of \<^verbatim>\<open>np.linalg.solve\<close> solves the system\<close>

text \<open>
  The elimination returns the unique solution of the system when there is one, and raises
  exactly when the matrix has a non-trivial kernel.
\<close>

lemma argmax_abs_less: "xs \<noteq> [] \<Longrightarrow> argmax_abs xs < length xs"
  by (induction xs rule: argmax_abs.induct) (auto simp add: Let_def)

lemma argmax_abs_max: "i < length xs \<Longrightarrow> \<bar>xs ! i\<bar> \<le> \<bar>xs ! argmax_abs xs\<bar>"
proof (induction xs arbitrary: i rule: argmax_abs.induct)
  case 1
  then show ?case by simp
next
  case (2 x)
  then show ?case by simp
next
  case (3 x y ys)
  show ?case
  proof (cases i)
    case 0
    then show ?thesis by (simp add: Let_def)
  next
    case (Suc j)
    with 3 have "\<bar>(y # ys) ! j\<bar> \<le> \<bar>(y # ys) ! argmax_abs (y # ys)\<bar>" by simp
    with Suc show ?thesis by (auto simp add: Let_def)
  qed
qed

lemma dotp_eliminate:
  "length as = length bs \<Longrightarrow> length bs = length xs \<Longrightarrow>
   (\<Sum>(a, x)\<leftarrow>zip (map2 (\<lambda>x y. y - m * x) as bs) xs. a * x)
     = (\<Sum>(a, x)\<leftarrow>zip bs xs. a * x) - m * (\<Sum>(a, x)\<leftarrow>zip as xs. a * x :: real)"
proof (induction as bs xs rule: list_induct3)
  case Nil
  then show ?case by simp
next
  case (Cons a as b bs x xs)
  then show ?case by (simp add: algebra_simps)
qed

lemma butlast_map2:
  "length as = length bs \<Longrightarrow> butlast (map2 f as bs) = map2 f (butlast as) (butlast bs)"
  by (induction as bs rule: list_induct2) auto

lemma last_map2:
  "length as = length bs \<Longrightarrow> as \<noteq> [] \<Longrightarrow> last (map2 f as bs) = f (last as) (last bs)"
  by (induction as bs rule: list_induct2) auto

lemma length_eliminate:
  "length prow = length r \<Longrightarrow> length (eliminate prow r) = length r - 1"
  by (simp add: eliminate_def Let_def)

lemma row_holds_eliminate:
  assumes len: "length prow = Suc (Suc n)" "length r = Suc (Suc n)" "length xs = n"
    and piv: "hd prow \<noteq> 0"
    and p: "row_holds (x0 # xs) prow"
  shows "row_holds (x0 # xs) r \<longleftrightarrow> row_holds xs (eliminate prow r)"
proof -
  from len obtain ph pt rh rt where pr: "prow = ph # pt" "r = rh # rt"
    and l: "length pt = Suc n" "length rt = Suc n"
    by (cases prow; cases r) auto
  define m where "m = rh / ph"
  from piv pr have ph: "ph \<noteq> 0" by simp
  from l have ne: "pt \<noteq> []" "rt \<noteq> []" by auto
  from l len(3) have lb: "length (butlast pt) = length (butlast rt)" "length (butlast rt) = length xs"
    by simp_all
  have el: "eliminate prow r = map2 (\<lambda>x y. y - m * x) pt rt"
    by (simp add: eliminate_def pr m_def)
  from p pr ne have P: "ph * x0 + (\<Sum>(a, x)\<leftarrow>zip (butlast pt) xs. a * x) = last pt"
    by (simp add: row_holds_def)
  have "row_holds xs (eliminate prow r) \<longleftrightarrow>
      (\<Sum>(a, x)\<leftarrow>zip (butlast rt) xs. a * x) - m * (\<Sum>(a, x)\<leftarrow>zip (butlast pt) xs. a * x)
        = last rt - m * last pt"
    using l ne by (simp add: row_holds_def el butlast_map2 last_map2 dotp_eliminate [OF lb])
  also have "\<dots> \<longleftrightarrow> rh * x0 + (\<Sum>(a, x)\<leftarrow>zip (butlast rt) xs. a * x) = last rt"
  proof -
    have "m * ph = rh" using ph by (simp add: m_def)
    then have "rh * x0 = m * (ph * x0)" by simp
    also have "ph * x0 = last pt - (\<Sum>(a, x)\<leftarrow>zip (butlast pt) xs. a * x)" using P by simp
    finally show ?thesis by (auto simp add: algebra_simps)
  qed
  also have "\<dots> \<longleftrightarrow> row_holds (x0 # xs) r"
    using pr ne by (simp add: row_holds_def)
  finally show ?thesis by simp
qed

lemma pivot_row:
  assumes "length rows = Suc n"
  shows "argmax_abs (map hd rows) < length rows"
    and "rows ! argmax_abs (map hd rows) \<in> set rows"
    and "set rows = insert (rows ! argmax_abs (map hd rows))
           (set (take (argmax_abs (map hd rows)) rows @ drop (Suc (argmax_abs (map hd rows))) rows))"
    and "length (take (argmax_abs (map hd rows)) rows @ drop (Suc (argmax_abs (map hd rows))) rows) = n"
proof -
  let ?p = "argmax_abs (map hd rows)"
  from assms have "map hd rows \<noteq> []" by auto
  from argmax_abs_less [OF this] show p: "?p < length rows" by simp
  then show "rows ! ?p \<in> set rows" by simp
  from p have "rows = take ?p rows @ rows ! ?p # drop (Suc ?p) rows"
    by (rule id_take_nth_drop)
  then have "set rows = set (take ?p rows @ rows ! ?p # drop (Suc ?p) rows)" by simp
  then show "set rows = insert (rows ! ?p) (set (take ?p rows @ drop (Suc ?p) rows))" by simp
  from p assms show "length (take ?p rows @ drop (Suc ?p) rows) = n" by auto
qed

lemma row_holds_pivot:
  assumes "length prow = Suc (Suc n)" "hd prow \<noteq> 0"
  shows "row_holds (x0 # xs) prow
     \<longleftrightarrow> x0 = (last prow - (\<Sum>(a, x)\<leftarrow>zip (butlast (tl prow)) xs. a * x)) / hd prow"
proof -
  from assms obtain ph pt where pr: "prow = ph # pt" and l: "length pt = Suc n"
    by (cases prow) auto
  then have "pt \<noteq> []" by auto
  with pr assms(2) show ?thesis
    by (auto simp add: row_holds_def field_simps)
qed

lemma gauss_sound:
  "gauss n rows = Some xs \<Longrightarrow> length rows = n \<Longrightarrow> \<forall>r\<in>set rows. length r = Suc n \<Longrightarrow>
   length xs = n \<and> (\<forall>r\<in>set rows. row_holds xs r)"
proof (induction n arbitrary: rows xs)
  case 0
  then show ?case by simp
next
  case (Suc n)
  let ?p = "argmax_abs (map hd rows)"
  let ?prow = "rows ! ?p"
  let ?rest = "take ?p rows @ drop (Suc ?p) rows"
  note piv = pivot_row [OF Suc.prems(2)]
  from piv(2) Suc.prems(3) have lp: "length ?prow = Suc (Suc n)" by simp
  from Suc.prems(1) have nz: "hd ?prow \<noteq> 0"
    by (auto simp add: Let_def split: if_splits)
  with Suc.prems(1) obtain ys where ys: "gauss n (map (eliminate ?prow) ?rest) = Some ys"
    and xs: "xs = (last ?prow - (\<Sum>(a, x)\<leftarrow>zip (butlast (tl ?prow)) ys. a * x)) / hd ?prow # ys"
    by (auto simp add: Let_def split: option.splits)
  have rest: "length r = Suc (Suc n)" if "r \<in> set ?rest" for r
    using that piv(3) Suc.prems(3) by auto
  have "\<forall>r\<in>set (map (eliminate ?prow) ?rest). length r = Suc n"
    using rest lp by (auto simp add: length_eliminate)
  from Suc.IH [OF ys _ this] piv(4)
  have ly: "length ys = n" and red: "\<forall>r\<in>set ?rest. row_holds ys (eliminate ?prow r)"
    by auto
  from xs have P: "row_holds xs ?prow"
    by (simp add: row_holds_pivot [OF lp nz])
  have "row_holds xs r" if "r \<in> set rows" for r
  proof (cases "r = ?prow")
    case True
    with P show ?thesis by simp
  next
    case False
    with that piv(3) have r: "r \<in> set ?rest" by auto
    from red r have "row_holds ys (eliminate ?prow r)" by simp
    with row_holds_eliminate [OF lp rest [OF r] ly nz P [unfolded xs]] show ?thesis
      by (simp add: xs)
  qed
  with xs ly show ?case by simp
qed

lemma gauss_unique:
  "gauss n rows = Some xs \<Longrightarrow> length rows = n \<Longrightarrow> \<forall>r\<in>set rows. length r = Suc n \<Longrightarrow>
   length v = n \<Longrightarrow> \<forall>r\<in>set rows. row_holds v r \<Longrightarrow> v = xs"
proof (induction n arbitrary: rows xs v)
  case 0
  then show ?case by simp
next
  case (Suc n)
  let ?p = "argmax_abs (map hd rows)"
  let ?prow = "rows ! ?p"
  let ?rest = "take ?p rows @ drop (Suc ?p) rows"
  note piv = pivot_row [OF Suc.prems(2)]
  from piv(2) Suc.prems(3) have lp: "length ?prow = Suc (Suc n)" by simp
  from Suc.prems(1) have nz: "hd ?prow \<noteq> 0"
    by (auto simp add: Let_def split: if_splits)
  with Suc.prems(1) obtain ys where ys: "gauss n (map (eliminate ?prow) ?rest) = Some ys"
    and xs: "xs = (last ?prow - (\<Sum>(a, x)\<leftarrow>zip (butlast (tl ?prow)) ys. a * x)) / hd ?prow # ys"
    by (auto simp add: Let_def split: option.splits)
  from Suc.prems(4) obtain v0 w where v: "v = v0 # w" and lw: "length w = n"
    by (cases v) auto
  have rest: "length r = Suc (Suc n)" if "r \<in> set ?rest" for r
    using that piv(3) Suc.prems(3) by auto
  have lred: "\<forall>r\<in>set (map (eliminate ?prow) ?rest). length r = Suc n"
    using rest lp by (auto simp add: length_eliminate)
  from Suc.prems(5) piv(2) v have P: "row_holds (v0 # w) ?prow" by simp
  have "\<forall>r\<in>set (map (eliminate ?prow) ?rest). row_holds w r"
  proof
    fix r' assume "r' \<in> set (map (eliminate ?prow) ?rest)"
    then obtain r where r: "r \<in> set ?rest" and r': "r' = eliminate ?prow r" by auto
    from r piv(3) Suc.prems(5) v have "row_holds (v0 # w) r" by auto
    with row_holds_eliminate [OF lp rest [OF r] lw nz P] r' show "row_holds w r'" by simp
  qed
  from Suc.IH [OF ys _ lred lw this] piv(4) have w: "w = ys" by simp
  from P have "v0 = (last ?prow - (\<Sum>(a, x)\<leftarrow>zip (butlast (tl ?prow)) w. a * x)) / hd ?prow"
    by (simp add: row_holds_pivot [OF lp nz])
  with v w xs show ?case by simp
qed

lemma length_homog: "r \<noteq> [] \<Longrightarrow> length (homog r) = length r"
  by (simp add: homog_def)

lemma hd_homog: "length r = Suc (Suc n) \<Longrightarrow> hd (homog r) = hd r"
  by (cases r) (auto simp add: homog_def)

lemma eliminate_homog:
  assumes "length prow = Suc (Suc n)" "length r = Suc (Suc n)"
  shows "eliminate (homog prow) (homog r) = homog (eliminate prow r)"
proof -
  from assms obtain ph pt rh rt where pr: "prow = ph # pt" "r = rh # rt"
    and l: "length pt = Suc n" "length rt = Suc n"
    by (cases prow; cases r) auto
  then have ne: "pt \<noteq> []" "rt \<noteq> []" by auto
  with l have "length (butlast pt) = length (butlast rt)" by simp
  with pr ne l show ?thesis
    by (simp add: eliminate_def homog_def butlast_map2)
qed

lemma row_holds_homog:
  "row_holds v (homog r) \<longleftrightarrow> (\<Sum>(a, x)\<leftarrow>zip (butlast r) v. a * x) = 0"
  by (simp add: row_holds_def homog_def)

lemma dotp_zeros: "(\<Sum>(a, x)\<leftarrow>zip as (replicate n 0). a * x) = (0::real)"
proof (induction as arbitrary: n)
  case Nil
  then show ?case by simp
next
  case (Cons a as)
  then show ?case by (cases n) simp_all
qed

lemma gauss_None:
  "gauss n rows = None \<Longrightarrow> length rows = n \<Longrightarrow> \<forall>r\<in>set rows. length r = Suc n \<Longrightarrow>
   \<exists>v. length v = n \<and> (\<exists>x\<in>set v. x \<noteq> 0) \<and> (\<forall>r\<in>set rows. row_holds v (homog r))"
proof (induction n arbitrary: rows)
  case 0
  then show ?case by simp
next
  case (Suc n)
  let ?p = "argmax_abs (map hd rows)"
  let ?prow = "rows ! ?p"
  let ?rest = "take ?p rows @ drop (Suc ?p) rows"
  note piv = pivot_row [OF Suc.prems(2)]
  from piv(2) Suc.prems(3) have lp: "length ?prow = Suc (Suc n)" by simp
  have rest: "length r = Suc (Suc n)" if "r \<in> set ?rest" for r
    using that piv(3) Suc.prems(3) by auto
  show ?case
  proof (cases "hd ?prow = 0")
    case True
    have heads: "hd r = 0" if "r \<in> set rows" for r
    proof -
      from that obtain i where i: "i < length rows" "r = rows ! i"
        by (auto simp add: in_set_conv_nth)
      with argmax_abs_max [of i "map hd rows"] piv(1) True show ?thesis by simp
    qed
    have "row_holds (1 # replicate n 0) (homog r)" if "r \<in> set rows" for r
    proof -
      from that Suc.prems(3) have "length r = Suc (Suc n)" by simp
      then obtain rh rt where r: "r = rh # rt" and "length rt = Suc n"
        by (cases r) auto
      then have "rt \<noteq> []" by auto
      with r heads [OF that] show ?thesis
        by (simp add: row_holds_homog dotp_zeros)
    qed
    then show ?thesis
      by (intro exI [of _ "1 # replicate n 0"]) simp
  next
    case False
    with Suc.prems(1) have g: "gauss n (map (eliminate ?prow) ?rest) = None"
      by (auto simp add: Let_def split: option.splits)
    have lr: "length (map (eliminate ?prow) ?rest) = n"
      using piv(4) by simp
    have "\<forall>r\<in>set (map (eliminate ?prow) ?rest). length r = Suc n"
      using rest lp by (auto simp add: length_eliminate)
    from Suc.IH [OF g lr this] obtain w where lw: "length w = n" and nzw: "\<exists>x\<in>set w. x \<noteq> 0"
      and red': "\<forall>r\<in>set (map (eliminate ?prow) ?rest). row_holds w (homog r)"
      by blast
    have red: "\<forall>r\<in>set ?rest. row_holds w (homog (eliminate ?prow r))"
    proof
      fix r assume "r \<in> set ?rest"
      then have "eliminate ?prow r \<in> set (map (eliminate ?prow) ?rest)"
        by (simp only: set_map) (rule imageI)
      with red' show "row_holds w (homog (eliminate ?prow r))" by (rule bspec)
    qed
    let ?hp = "homog ?prow"
    define v0 where "v0 = (last ?hp - (\<Sum>(a, x)\<leftarrow>zip (butlast (tl ?hp)) w. a * x)) / hd ?hp"
    from lp have lhp: "length ?hp = Suc (Suc n)" by (simp add: homog_def)
    from False lp have nz: "hd ?hp \<noteq> 0" by (simp add: hd_homog)
    have P: "row_holds (v0 # w) ?hp"
      by (simp add: row_holds_pivot [OF lhp nz] v0_def)
    have "row_holds (v0 # w) (homog r)" if "r \<in> set rows" for r
    proof (cases "r = ?prow")
      case True
      with P show ?thesis by simp
    next
      case False
      with that piv(3) have r: "r \<in> set ?rest" by auto
      from rest [OF r] have lhr: "length (homog r) = Suc (Suc n)" by (simp add: homog_def)
      from red r have "row_holds w (eliminate ?hp (homog r))"
        by (simp add: eliminate_homog [OF lp rest [OF r]])
      with row_holds_eliminate [OF lhp lhr lw nz P] show ?thesis by simp
    qed
    with lw nzw show ?thesis
      by (intro exI [of _ "v0 # w"]) auto
  qed
qed

lemma dotp_index:
  "length as = length xs \<Longrightarrow>
   (\<Sum>(a, x)\<leftarrow>zip as xs. a * x) = (\<Sum>j\<leftarrow>[0..<length xs]. as ! j * xs ! j :: real)"
proof (induction as xs rule: list_induct2)
  case Nil
  then show ?case by simp
next
  case (Cons a as x xs)
  have "[0..<length (x # xs)] = 0 # map Suc [0..<length xs]"
    by (simp add: upt_conv_Cons map_Suc_upt del: upt_Suc)
  then have "(\<Sum>j\<leftarrow>[0..<length (x # xs)]. (a # as) ! j * (x # xs) ! j)
      = a * x + (\<Sum>j\<leftarrow>[0..<length xs]. as ! j * xs ! j)"
    by (simp add: o_def del: upt_Suc)
  with Cons show ?case by simp
qed

lemma augmented_rows:
  assumes "is_mat n n B" "length rhs = n"
  shows "length (map2 (\<lambda>row b. row @ [b]) B rhs) = n"
    and "\<forall>r\<in>set (map2 (\<lambda>row b. row @ [b]) B rhs). length r = Suc n"
    and "i < n \<Longrightarrow> B ! i @ [rhs ! i] \<in> set (map2 (\<lambda>row b. row @ [b]) B rhs)"
proof -
  from assms show "length (map2 (\<lambda>row b. row @ [b]) B rhs) = n"
    by (simp add: is_mat_def)
  from assms show "\<forall>r\<in>set (map2 (\<lambda>row b. row @ [b]) B rhs). length r = Suc n"
    by (auto simp add: is_mat_def list_all_iff dest: set_zip_leftD)
  assume "i < n"
  with assms have "map2 (\<lambda>row b. row @ [b]) B rhs ! i = B ! i @ [rhs ! i]"
    by (simp add: is_mat_def)
  moreover from \<open>i < n\<close> assms have "i < length (map2 (\<lambda>row b. row @ [b]) B rhs)"
    by (simp add: is_mat_def)
  ultimately show "B ! i @ [rhs ! i] \<in> set (map2 (\<lambda>row b. row @ [b]) B rhs)"
    by (metis nth_mem)
qed

lemma linalg_solve_sound:
  assumes "is_mat n n B" "length rhs = n" "linalg_solve B rhs = Inr c"
  shows "length c = n \<and> (\<forall>i<n. (\<Sum>j\<leftarrow>[0..<n]. B ! i ! j * c ! j) = rhs ! i)"
proof -
  note aug = augmented_rows [OF assms(1,2)]
  from assms(1,3) have g: "gauss n (map2 (\<lambda>row b. row @ [b]) B rhs) = Some c"
    by (auto simp add: linalg_solve_def is_mat_def split: option.splits)
  from gauss_sound [OF g aug(1,2)]
  have lc: "length c = n" and all: "\<forall>r\<in>set (map2 (\<lambda>row b. row @ [b]) B rhs). row_holds c r"
    by simp_all
  have "(\<Sum>j\<leftarrow>[0..<n]. B ! i ! j * c ! j) = rhs ! i" if "i < n" for i
  proof -
    from all aug(3) [OF that] have "row_holds c (B ! i @ [rhs ! i])" by (rule bspec)
    moreover from assms(1) that lc have "length (B ! i) = length c" by (simp add: is_mat_nth)
    ultimately show ?thesis using lc by (simp add: row_holds_def dotp_index)
  qed
  with lc show ?thesis by simp
qed

lemma linalg_solve_unique:
  assumes "is_mat n n B" "length rhs = n" "linalg_solve B rhs = Inr c"
    and "length v = n" "\<forall>i<n. (\<Sum>j\<leftarrow>[0..<n]. B ! i ! j * v ! j) = rhs ! i"
  shows "v = c"
proof -
  note aug = augmented_rows [OF assms(1,2)]
  from assms(1,3) have g: "gauss n (map2 (\<lambda>row b. row @ [b]) B rhs) = Some c"
    by (auto simp add: linalg_solve_def is_mat_def split: option.splits)
  have "\<forall>r\<in>set (map2 (\<lambda>row b. row @ [b]) B rhs). row_holds v r"
  proof
    fix r assume "r \<in> set (map2 (\<lambda>row b. row @ [b]) B rhs)"
    then obtain i where i: "i < n" and r: "r = B ! i @ [rhs ! i]"
      using assms(1,2) by (auto simp add: in_set_conv_nth is_mat_def)
    from assms(1) i assms(4) have "length (B ! i) = length v" by (simp add: is_mat_nth)
    with assms(5) i r assms(4) show "row_holds v r"
      by (simp add: row_holds_def dotp_index)
  qed
  from gauss_unique [OF g aug(1,2) assms(4) this] show ?thesis .
qed

lemma linalg_solve_raises:
  assumes "is_mat n n B" "length rhs = n" "linalg_solve B rhs = Inl e"
  shows "e = LinAlgError
       \<and> (\<exists>v. length v = n \<and> (\<exists>x\<in>set v. x \<noteq> 0) \<and> (\<forall>i<n. (\<Sum>j\<leftarrow>[0..<n]. B ! i ! j * v ! j) = 0))"
proof -
  note aug = augmented_rows [OF assms(1,2)]
  from assms(1,3) have g: "gauss n (map2 (\<lambda>row b. row @ [b]) B rhs) = None" and e: "e = LinAlgError"
    by (auto simp add: linalg_solve_def is_mat_def split: option.splits)
  from gauss_None [OF g aug(1,2)] obtain v where lv: "length v = n" and nz: "\<exists>x\<in>set v. x \<noteq> 0"
    and all: "\<forall>r\<in>set (map2 (\<lambda>row b. row @ [b]) B rhs). row_holds v (homog r)"
    by auto
  have "(\<Sum>j\<leftarrow>[0..<n]. B ! i ! j * v ! j) = 0" if "i < n" for i
  proof -
    from all aug(3) [OF that] have "row_holds v (homog (B ! i @ [rhs ! i]))" by (rule bspec)
    moreover from assms(1) that lv have "length (B ! i) = length v" by (simp add: is_mat_nth)
    ultimately show ?thesis using lv by (simp add: row_holds_homog dotp_index)
  qed
  with e lv nz show ?thesis by auto
qed

lemma is_mat_build_B: "is_mat (Suc k) (Suc k) (build_B k RESID)"
  by (simp add: build_B_def is_mat_def list_all_iff)

lemma length_pulay_rhs: "length (pulay_rhs k) = Suc k"
  by (simp add: pulay_rhs_def)

lemma linalg_solve_singular_iff:
  assumes "is_mat n n B" "length rhs = n"
  shows "linalg_solve B rhs = Inl LinAlgError \<longleftrightarrow>
     (\<exists>v. length v = n \<and> (\<exists>x\<in>set v. x \<noteq> 0) \<and> (\<forall>i<n. (\<Sum>j\<leftarrow>[0..<n]. B ! i ! j * v ! j) = 0))"
proof
  assume "linalg_solve B rhs = Inl LinAlgError"
  from linalg_solve_raises [OF assms this]
  show "\<exists>v. length v = n \<and> (\<exists>x\<in>set v. x \<noteq> 0) \<and> (\<forall>i<n. (\<Sum>j\<leftarrow>[0..<n]. B ! i ! j * v ! j) = 0)"
    by simp
next
  assume "\<exists>v. length v = n \<and> (\<exists>x\<in>set v. x \<noteq> 0) \<and> (\<forall>i<n. (\<Sum>j\<leftarrow>[0..<n]. B ! i ! j * v ! j) = 0)"
  then obtain v where lv: "length v = n" and nz: "\<exists>x\<in>set v. x \<noteq> 0"
    and ker: "\<forall>i<n. (\<Sum>j\<leftarrow>[0..<n]. B ! i ! j * v ! j) = 0"
    by blast
  show "linalg_solve B rhs = Inl LinAlgError"
  proof (cases "linalg_solve B rhs")
    case (Inl e)
    with linalg_solve_raises [OF assms Inl] show ?thesis by simp
  next
    case (Inr c)
    from linalg_solve_sound [OF assms Inr]
    have lc: "length c = n" and sol: "\<forall>i<n. (\<Sum>j\<leftarrow>[0..<n]. B ! i ! j * c ! j) = rhs ! i"
      by simp_all
    let ?u = "map2 (+) c v"
    have lu: "length ?u = n" using lc lv by simp
    have "(\<Sum>j\<leftarrow>[0..<n]. B ! i ! j * ?u ! j) = rhs ! i" if "i < n" for i
    proof -
      have "(\<Sum>j\<leftarrow>[0..<n]. B ! i ! j * ?u ! j)
          = (\<Sum>j\<leftarrow>[0..<n]. B ! i ! j * c ! j + B ! i ! j * v ! j)"
        using lc lv by (intro sum_list_upt_cong) (simp add: distrib_left)
      also have "\<dots> = (\<Sum>j\<leftarrow>[0..<n]. B ! i ! j * c ! j) + (\<Sum>j\<leftarrow>[0..<n]. B ! i ! j * v ! j)"
        by (simp add: sum_list_add_distrib)
      finally show ?thesis using sol ker that by simp
    qed
    with linalg_solve_unique [OF assms Inr lu] have "?u = c" by simp
    then have "\<forall>j<n. ?u ! j = c ! j" by simp
    with lc lv have "\<forall>j<n. v ! j = 0" by simp
    with lv nz show ?thesis by (auto simp add: in_set_conv_nth)
  qed
qed

lemma pulay_singular_iff:
  "pulay_singular RESID \<longleftrightarrow>
     (\<exists>v. length v = Suc (length RESID) \<and> (\<exists>x\<in>set v. x \<noteq> 0)
         \<and> (\<forall>i<Suc (length RESID).
               (\<Sum>j\<leftarrow>[0..<Suc (length RESID)]. build_B (length RESID) RESID ! i ! j * v ! j) = 0))"
  unfolding pulay_singular_def
  by (rule linalg_solve_singular_iff [OF is_mat_build_B length_pulay_rhs])

subsection \<open>Rounding to float64\<close>

lemma round_even_of_int: "round_even (of_int k) = k"
  by (simp add: round_even_def)

lemma round_even_bounds: "\<lfloor>y\<rfloor> \<le> round_even y \<and> round_even y \<le> \<lfloor>y\<rfloor> + 1"
  by (simp add: round_even_def Let_def)

lemma powr_powi: "(2::real) powr real_of_int k = 2 powi k"
  by (simp add: powr_real_of_int')

lemma exponent_bounds:
  assumes "x \<noteq> 0"
  shows "2 powi \<lfloor>log 2 \<bar>x\<bar>\<rfloor> \<le> \<bar>x\<bar> \<and> \<bar>x\<bar> < 2 powi (\<lfloor>log 2 \<bar>x\<bar>\<rfloor> + 1)"
proof -
  from assms have "0 < \<bar>x\<bar>" by simp
  from floor_log_eq_powr_iff [OF this, of 2 "\<lfloor>log 2 \<bar>x\<bar>\<rfloor>"]
  show ?thesis unfolding powr_powi by simp
qed

lemma exponent_unique:
  assumes "2 powi e \<le> \<bar>x\<bar>" "\<bar>x\<bar> < 2 powi (e + 1)"
  shows "\<lfloor>log 2 \<bar>x\<bar>\<rfloor> = e"
proof -
  have "(0::real) < 2 powi e" by simp
  with assms(1) have "0 < \<bar>x\<bar>" by linarith
  from floor_log_eq_powr_iff [OF this, of 2 e] assms
  show ?thesis unfolding powr_powi by simp
qed

lemma fl64_eval:
  assumes "2 powi e \<le> \<bar>x\<bar>" "\<bar>x\<bar> < 2 powi (e + 1)" "round_even (x / 2 powi (e - 52)) = k"
  shows "fl64 x = of_int k * 2 powi (e - 52)"
proof -
  have "(0::real) < 2 powi e" by simp
  with assms(1) have "0 < \<bar>x\<bar>" by linarith
  then have "x \<noteq> 0" by simp
  with exponent_unique [OF assms(1,2)] assms(3) show ?thesis
    by (simp add: fl64_def Let_def)
qed

lemma fl64_fixed_aux:
  assumes "\<bar>k\<bar> < 2 ^ 53"
  shows "fl64 (of_int k * 2 powi j) = of_int k * 2 powi j"
proof (cases "k = 0")
  case True
  then show ?thesis by (simp add: fl64_def)
next
  case False
  let ?x = "real_of_int k * 2 powi j"
  let ?e = "\<lfloor>log 2 \<bar>?x\<bar>\<rfloor>"
  from False have x: "?x \<noteq> 0" by simp
  note eb = exponent_bounds [OF x]
  have ax: "\<bar>?x\<bar> = real_of_int \<bar>k\<bar> * 2 powi j"
    by (simp add: abs_mult)
  from assms have "real_of_int \<bar>k\<bar> < real_of_int (2 ^ 53)"
    by (simp only: of_int_less_iff)
  then have "real_of_int \<bar>k\<bar> < 2 ^ 53" by simp
  then have "real_of_int \<bar>k\<bar> * 2 powi j < 2 ^ 53 * 2 powi j"
    by (simp add: mult_strict_right_mono)
  also have "\<dots> = 2 powi (j + 53)"
    by (simp add: power_int_add)
  finally have "\<bar>?x\<bar> < 2 powi (j + 53)" using ax by simp
  with eb have lt: "(2::real) powi ?e < 2 powi (j + 53)" by linarith
  have "?e < j + 53"
  proof (rule ccontr)
    assume "\<not> ?e < j + 53"
    then have "j + 53 \<le> ?e" by simp
    then have "(2::real) powi (j + 53) \<le> 2 powi ?e"
      by (rule power_int_increasing) simp
    with lt show False by simp
  qed
  define d where "d = nat (j - (?e - 52))"
  from \<open>?e < j + 53\<close> have d: "j = (?e - 52) + int d"
    by (simp add: d_def)
  have "?x / 2 powi (?e - 52) = real_of_int k * 2 powi int d"
    by (subst d) (simp add: power_int_add)
  also have "\<dots> = real_of_int (k * 2 ^ d)"
    by (simp add: power_int_of_nat)
  finally have "round_even (?x / 2 powi (?e - 52)) = k * 2 ^ d"
    by (simp only: round_even_of_int)
  with x have "fl64 ?x = real_of_int (k * 2 ^ d) * 2 powi (?e - 52)"
    by (simp add: fl64_def Let_def)
  also have "\<dots> = real_of_int k * (2 powi int d * 2 powi (?e - 52))"
    by (simp add: power_int_of_nat)
  also have "2 powi int d * 2 powi (?e - 52) = (2::real) powi j"
    by (subst d) (simp add: power_int_add)
  finally show ?thesis .
qed


lemma fl64_fixed:
  assumes "\<bar>k\<bar> \<le> 2 ^ 53"
  shows "fl64 (of_int k * 2 powi j) = of_int k * 2 powi j"
proof (cases "\<bar>k\<bar> < 2 ^ 53")
  case True
  then show ?thesis by (rule fl64_fixed_aux)
next
  case False
  with assms have k: "\<bar>k\<bar> = 2 ^ 53" by simp
  then have "k = 2 ^ 53 \<or> k = - (2 ^ 53)" by linarith
  then have "k = 2 * (k div 2)" by auto
  then have "real_of_int k = 2 * real_of_int (k div 2)"
    by (metis of_int_mult of_int_numeral)
  then have "real_of_int k * 2 powi j = real_of_int (k div 2) * 2 powi (j + 1)"
    by (simp add: power_int_add)
  moreover from k have "\<bar>k div 2\<bar> < 2 ^ 53" by auto
  ultimately show ?thesis
    using fl64_fixed_aux [of "k div 2" "j + 1"] by simp
qed

lemma round_even_abs_bound:
  assumes "\<bar>y\<bar> < 2 ^ 53"
  shows "\<bar>round_even y\<bar> \<le> 2 ^ 53"
proof -
  have "\<lfloor>y\<rfloor> < 2 ^ 53"
    using assms floor_less_iff [of y "2 ^ 53"] by simp
  moreover have "- (2 ^ 53) \<le> \<lfloor>y\<rfloor>"
    using assms le_floor_iff [of "- (2 ^ 53)" y] by simp
  ultimately show ?thesis using round_even_bounds [of y] by linarith
qed

lemma fl64_form:
  "\<exists>k j. fl64 x = of_int k * 2 powi j \<and> \<bar>k\<bar> \<le> 2 ^ 53"
proof (cases "x = 0")
  case True
  then have "fl64 x = of_int 0 * 2 powi 0 \<and> \<bar>0::int\<bar> \<le> 2 ^ 53" by (simp add: fl64_def)
  then show ?thesis by blast
next
  case False
  let ?e = "\<lfloor>log 2 \<bar>x\<bar>\<rfloor>"
  let ?u = "(2::real) powi (?e - 52)"
  from exponent_bounds [OF False] have "\<bar>x\<bar> < 2 powi (?e + 1)" by simp
  also have "(2::real) powi (?e + 1) = 2 ^ 53 * ?u"
  proof -
    have "(2::real) powi (53 + (?e - 52)) = 2 powi 53 * 2 powi (?e - 52)"
      by (rule power_int_add) simp
    then show ?thesis by (simp add: add.commute)
  qed
  finally have "\<bar>x / ?u\<bar> < 2 ^ 53"
    by (simp add: abs_divide pos_divide_less_eq)
  then have "\<bar>round_even (x / ?u)\<bar> \<le> 2 ^ 53" by (rule round_even_abs_bound)
  moreover from False have "fl64 x = of_int (round_even (x / ?u)) * ?u"
    by (simp add: fl64_def Let_def)
  ultimately show ?thesis by blast
qed

lemma fl64_idem: "fl64 (fl64 x) = fl64 x"
proof -
  from fl64_form [of x] obtain k j where "fl64 x = of_int k * 2 powi j" "\<bar>k\<bar> \<le> 2 ^ 53"
    by blast
  then show ?thesis by (simp add: fl64_fixed)
qed

lemma fl64_int: "\<bar>k\<bar> \<le> 2 ^ 53 \<Longrightarrow> fl64 (of_int k) = of_int k"
  using fl64_fixed [of k 0] by simp

lemma fl64_simps: "fl64 0 = 0" "fl64 1 = 1" "fl64 (- 1) = - 1"
  using fl64_int [of 0] fl64_int [of 1] fl64_int [of "- 1"] by simp_all

lemma round_even_minus: "round_even (- y) = - round_even y"
proof (cases "y = of_int \<lfloor>y\<rfloor>")
  case True
  then have "- y = of_int (- \<lfloor>y\<rfloor>)" by simp
  then have "round_even (- y) = - \<lfloor>y\<rfloor>" by (simp only: round_even_of_int)
  moreover from True have "round_even y = \<lfloor>y\<rfloor>" by (metis round_even_of_int)
  ultimately show ?thesis by simp
next
  case False
  then have "\<lceil>y\<rceil> = \<lfloor>y\<rfloor> + 1" by (simp add: ceiling_altdef)
  then have f: "\<lfloor>- y\<rfloor> = - \<lfloor>y\<rfloor> - 1" by (simp add: ceiling_def)
  from False have d: "y - of_int \<lfloor>y\<rfloor> \<noteq> 0" by simp
  show ?thesis
    unfolding round_even_def Let_def f using d by (auto simp add: algebra_simps)
qed

lemma fl64_minus: "fl64 (- x) = - fl64 x"
  by (simp add: fl64_def Let_def round_even_minus)

lemma fl64_decomp:
  assumes "x \<noteq> 0"
  obtains u y where "0 < u" and "x = y * u" and "2 ^ 52 \<le> \<bar>y\<bar>" and "\<bar>y\<bar> < 2 ^ 53"
    and "fl64 x = of_int (round_even y) * u"
proof -
  let ?e = "\<lfloor>log 2 \<bar>x\<bar>\<rfloor>"
  let ?u = "(2::real) powi (?e - 52)"
  have u: "0 < ?u" by simp
  have lo: "(2::real) powi ?e = 2 ^ 52 * ?u"
  proof -
    have "(2::real) powi (52 + (?e - 52)) = 2 powi 52 * 2 powi (?e - 52)"
      by (rule power_int_add) simp
    then show ?thesis by simp
  qed
  have hi: "(2::real) powi (?e + 1) = 2 ^ 53 * ?u"
  proof -
    have "(2::real) powi (53 + (?e - 52)) = 2 powi 53 * 2 powi (?e - 52)"
      by (rule power_int_add) simp
    then show ?thesis by (simp add: add.commute)
  qed
  from exponent_bounds [OF assms] lo hi
  have "2 ^ 52 * ?u \<le> \<bar>x\<bar>" "\<bar>x\<bar> < 2 ^ 53 * ?u" by simp_all
  then have "2 ^ 52 \<le> \<bar>x / ?u\<bar>" "\<bar>x / ?u\<bar> < 2 ^ 53"
    by (simp_all add: abs_divide pos_le_divide_eq pos_divide_less_eq)
  moreover have "x = x / ?u * ?u" by simp
  moreover from assms have "fl64 x = of_int (round_even (x / ?u)) * ?u"
    by (simp add: fl64_def Let_def)
  ultimately show ?thesis using u that by blast
qed

lemma fl64_eq_0_iff: "fl64 x = 0 \<longleftrightarrow> x = 0"
proof
  assume z: "fl64 x = 0"
  show "x = 0"
  proof (rule ccontr)
    assume "x \<noteq> 0"
    then obtain u y where uy: "0 < u" "2 ^ 52 \<le> \<bar>y\<bar>" "fl64 x = of_int (round_even y) * u"
      by (rule fl64_decomp)
    with z have r: "round_even y = 0" by simp
    from uy(2) have "4503599627370496 \<le> \<bar>y\<bar>" by simp
    then have "2 \<le> y \<or> y \<le> - 2" by linarith
    then have "2 \<le> \<lfloor>y\<rfloor> \<or> \<lfloor>y\<rfloor> \<le> - 2" by (auto simp add: le_floor_iff floor_le_iff)
    with round_even_bounds [of y] r show False by linarith
  qed
next
  assume "x = 0"
  then show "fl64 x = 0" by (simp add: fl64_def)
qed

text \<open>The relative error of a rounding is at most \<open>2\<^sup>-\<^sup>5\<^sup>3\<close>.\<close>

lemma round_even_near: "\<bar>real_of_int (round_even y) - y\<bar> \<le> 1 / 2"
proof -
  have f: "of_int \<lfloor>y\<rfloor> \<le> y" "y < of_int \<lfloor>y\<rfloor> + 1" by linarith+
  consider "y - of_int \<lfloor>y\<rfloor> < 1 / 2" | "1 / 2 < y - of_int \<lfloor>y\<rfloor>" | "y - of_int \<lfloor>y\<rfloor> = 1 / 2"
    by linarith
  then show ?thesis
  proof cases
    case 1
    then have "round_even y = \<lfloor>y\<rfloor>" by (simp add: round_even_def Let_def)
    with 1 f show ?thesis by simp
  next
    case 2
    then have "round_even y = \<lfloor>y\<rfloor> + 1" by (simp add: round_even_def Let_def)
    with 2 f show ?thesis by simp
  next
    case 3
    then have "round_even y = \<lfloor>y\<rfloor> \<or> round_even y = \<lfloor>y\<rfloor> + 1"
      by (simp add: round_even_def Let_def)
    with 3 show ?thesis by auto
  qed
qed

lemma fl64_rel: "\<bar>fl64 x - x\<bar> \<le> \<bar>x\<bar> / 2 ^ 53"
proof (cases "x = 0")
  case True
  then show ?thesis by (simp add: fl64_def)
next
  case False
  then obtain u y where uy: "0 < u" "x = y * u" "2 ^ 52 \<le> \<bar>y\<bar>"
    "fl64 x = of_int (round_even y) * u"
    by (rule fl64_decomp)
  have "fl64 x - x = (real_of_int (round_even y) - y) * u"
    unfolding uy(4) by (subst uy(2)) (simp add: left_diff_distrib)
  then have "\<bar>fl64 x - x\<bar> = \<bar>real_of_int (round_even y) - y\<bar> * u"
    using uy(1) by (simp add: abs_mult)
  also have "\<dots> \<le> 1 / 2 * u"
    using round_even_near [of y] uy(1) by (intro mult_right_mono) simp_all
  also have "\<dots> \<le> \<bar>y\<bar> / 2 ^ 53 * u"
    using uy(1,3) by (intro mult_right_mono) simp_all
  also have "\<dots> = \<bar>x\<bar> / 2 ^ 53"
    using uy(1) by (simp add: uy(2) abs_mult)
  finally show ?thesis .
qed

lemma fl64_rel_inverse:
  assumes "x \<noteq> 0"
  shows "1 - 1 / 2 ^ 53 \<le> fl64 (1 / x) * x" "fl64 (1 / x) * x \<le> 1 + 1 / 2 ^ 53"
proof -
  have "\<bar>fl64 (1 / x) - 1 / x\<bar> * \<bar>x\<bar> \<le> \<bar>1 / x\<bar> / 2 ^ 53 * \<bar>x\<bar>"
    using fl64_rel [of "1 / x"] by (intro mult_right_mono) simp_all
  also have "\<bar>fl64 (1 / x) - 1 / x\<bar> * \<bar>x\<bar> = \<bar>fl64 (1 / x) * x - 1\<bar>"
    using assms by (simp add: left_diff_distrib flip: abs_mult)
  also have "\<bar>1 / x\<bar> / 2 ^ 53 * \<bar>x\<bar> = 1 / 9007199254740992"
    using assms by simp
  finally have "\<bar>fl64 (1 / x) * x - 1\<bar> \<le> 1 / 9007199254740992" .
  then have "1 - 1 / 9007199254740992 \<le> fl64 (1 / x) * x"
    "fl64 (1 / x) * x \<le> 1 + 1 / 9007199254740992"
    by linarith+
  then show "1 - 1 / 2 ^ 53 \<le> fl64 (1 / x) * x" "fl64 (1 / x) * x \<le> 1 + 1 / 2 ^ 53"
    by simp_all
qed

text \<open>
  The literal \<^verbatim>\<open>8.e-9\<close> and the projected sizes for 2, 126, 200 and 500 basis functions.
  For 126 basis functions the projected size is the float64 number that the literal
  \<^verbatim>\<open>2.016379008\<close> denotes; for 500 it is the float64 number next above \<open>500\<close>.
\<close>

lemma fl64_8e_9: "fl64 (8 / 10 ^ 9) = 4835703278458517 / 2 ^ 79"
  by (rule trans [OF fl64_eval [of "- 27" _ 4835703278458517]]) (simp_all add: round_even_def Let_def)

lemma I_size_2: "I_size 2 = 4835703278458517 / 2 ^ 75"
proof -
  have "I_size 2 = fl64 (fl64 16 * (4835703278458517 / 2 ^ 79))"
    unfolding I_size_def fl64_8e_9 by simp
  also have "fl64 16 = 16"
    using fl64_int [of 16] by simp
  also have "fl64 (16 * (4835703278458517 / 2 ^ 79)) = 4835703278458517 / 2 ^ 75"
    using fl64_fixed [of 4835703278458517 "- 75"] by simp
  finally show ?thesis .
qed

lemma I_size_126: "I_size 126 = 4540481874533245 / 2 ^ 51"
proof -
  have "I_size 126 = fl64 (fl64 252047376 * (4835703278458517 / 2 ^ 79))"
    unfolding I_size_def fl64_8e_9 by simp
  also have "fl64 252047376 = 252047376"
    using fl64_int [of 252047376] by simp
  also have "fl64 (252047376 * (4835703278458517 / 2 ^ 79)) = 4540481874533245 / 2 ^ 51"
    by (rule trans [OF fl64_eval [of 1 _ 4540481874533245]]) (simp_all add: round_even_def Let_def)
  finally show ?thesis .
qed

lemma literal_2_016379008: "fl64 (2016379008 / 10 ^ 9) = 4540481874533245 / 2 ^ 51"
  by (rule trans [OF fl64_eval [of 1 _ 4540481874533245]]) (simp_all add: round_even_def Let_def)

lemma I_size_200: "I_size 200 = 3602879701896397 / 2 ^ 48"
proof -
  have "I_size 200 = fl64 (fl64 1600000000 * (4835703278458517 / 2 ^ 79))"
    unfolding I_size_def fl64_8e_9 by simp
  also have "fl64 1600000000 = 1600000000"
    using fl64_int [of 1600000000] by simp
  also have "fl64 (1600000000 * (4835703278458517 / 2 ^ 79)) = 3602879701896397 / 2 ^ 48"
    by (rule trans [OF fl64_eval [of 3 _ 7205759403792794]]) (simp_all add: round_even_def Let_def)
  finally show ?thesis .
qed

lemma I_size_500: "I_size 500 = 500 + 1 / 2 ^ 44"
proof -
  have "I_size 500 = fl64 (fl64 62500000000 * (4835703278458517 / 2 ^ 79))"
    unfolding I_size_def fl64_8e_9 by simp
  also have "fl64 62500000000 = 62500000000"
    using fl64_int [of 62500000000] by simp
  also have "fl64 (62500000000 * (4835703278458517 / 2 ^ 79)) = 500 + 1 / 2 ^ 44"
    by (rule trans [OF fl64_eval [of 8 _ 8796093022208001]]) (simp_all add: round_even_def Let_def)
  finally show ?thesis .
qed

subsection \<open>The Fock matrices\<close>

text \<open>
  Claim C3. The Fock matrices of a pass are \<open>F\<alpha> = H + (J\<alpha> + J\<beta>) - K\<alpha>\<close> and
  \<open>F\<beta> = H + (J\<alpha> + J\<beta>) - K\<beta>\<close>, entry by entry: the Coulomb term contracts the last two
  axes of the two-electron tensor with the sum of both densities and is the same for both
  spins, the exchange term contracts the second and fourth axes with the density of the
  spin itself.
\<close>

theorem fock_build_entries:
  assumes "is_tensor4 m I" "is_mat m m H" "is_mat m m D_a" "is_mat m m D_b" "p < m" "q < m"
  shows "fst (fock_build I H D_a D_b) ! p ! q =
           H ! p ! q
           + (\<Sum>r\<leftarrow>[0..<m]. \<Sum>s\<leftarrow>[0..<m]. I ! p ! q ! r ! s * (D_a ! r ! s + D_b ! r ! s))
           - (\<Sum>r\<leftarrow>[0..<m]. \<Sum>s\<leftarrow>[0..<m]. I ! p ! r ! q ! s * D_a ! r ! s)
       \<and> snd (fock_build I H D_a D_b) ! p ! q =
           H ! p ! q
           + (\<Sum>r\<leftarrow>[0..<m]. \<Sum>s\<leftarrow>[0..<m]. I ! p ! q ! r ! s * (D_a ! r ! s + D_b ! r ! s))
           - (\<Sum>r\<leftarrow>[0..<m]. \<Sum>s\<leftarrow>[0..<m]. I ! p ! r ! q ! s * D_b ! r ! s)"
proof -
  note J = einsum_pqrs_rs_nth [OF assms(1) _ assms(5,6)]
  note K = einsum_prqs_rs_nth [OF assms(1) _ assms(5,6)]
  have Ja: "is_mat m m (einsum_pqrs_rs I D_a)" and Jb: "is_mat m m (einsum_pqrs_rs I D_b)"
    and Ka: "is_mat m m (einsum_prqs_rs I D_a)" and Kb: "is_mat m m (einsum_prqs_rs I D_b)"
    using assms by (simp_all add: is_mat_einsum_pqrs_rs is_mat_einsum_prqs_rs)
  have JJ: "is_mat m m (mat_add (einsum_pqrs_rs I D_a) (einsum_pqrs_rs I D_b))"
    using Ja Jb by (rule is_mat_mat_add)
  have HJ: "is_mat m m (mat_add H (mat_add (einsum_pqrs_rs I D_a) (einsum_pqrs_rs I D_b)))"
    using assms(2) JJ by (rule is_mat_mat_add)
  have sum: "(\<Sum>r\<leftarrow>[0..<m]. \<Sum>s\<leftarrow>[0..<m]. I ! p ! q ! r ! s * D_a ! r ! s)
           + (\<Sum>r\<leftarrow>[0..<m]. \<Sum>s\<leftarrow>[0..<m]. I ! p ! q ! r ! s * D_b ! r ! s)
           = (\<Sum>r\<leftarrow>[0..<m]. \<Sum>s\<leftarrow>[0..<m]. I ! p ! q ! r ! s * (D_a ! r ! s + D_b ! r ! s))"
    by (simp add: sum_list_add_distrib distrib_left)
  show ?thesis
    using assms(5,6)
    by (simp add: fock_build_def Let_def mat_sub_nth [OF HJ] Ka Kb mat_add_nth [OF assms(2) JJ]
        mat_add_nth [OF Ja Jb] J [OF assms(3)] J [OF assms(4)] K [OF assms(3)] K [OF assms(4)] sum)
qed

theorem fock_build_entries_witness:
  "is_tensor4 2 two_level_eri \<and> is_mat 2 2 [[- 2, 0], [0, - 1]] \<and> is_mat 2 2 [[1, 0], [0, 0]]
   \<and> (0::nat) < 2
   \<and> fst (fock_build two_level_eri [[- 2, 0], [0, - 1]] [[1, 0], [0, 0]] [[1, 0], [0, 0]]) ! 0 ! 0 = 8
   \<and> snd (fock_build two_level_eri [[- 2, 0], [0, - 1]] [[1, 0], [0, 0]] [[1, 0], [0, 0]]) ! 0 ! 0 = 8"
proof -
  have H: "is_mat 2 2 [[- 2, 0], [0, - 1]]"
    by (simp add: is_mat_def)
  have D: "is_mat 2 2 [[1, 0], [0, 0]]"
    by (simp add: is_mat_def)
  have z: "(0::nat) < 2"
    by simp
  show ?thesis
    using fock_build_entries [OF two_level_eri_shape H D D z z] two_level_eri_shape H D
    by (simp add: upt_2 two_level_eri_def)
qed

subsection \<open>Extrapolation from a single vector\<close>

lemma gauss_single: "gauss (Suc (Suc 0)) [[b, - 1, 0], [- 1, 0, - 1]] = Some [1, b]"
  by (auto simp add: eliminate_def Let_def)

lemma linalg_solve_single: "linalg_solve [[b, - 1], [- 1, 0]] [0, - 1] = Inr [1, b]"
  using gauss_single [of b] by (simp add: linalg_solve_def)

lemma build_B_single: "build_B (Suc 0) [R] = [[einsum_ij_ij R R, - 1], [- 1, 0]]"
  by (simp add: build_B_def)

lemma zeros_add_one: "mat_add (zeros_like F) (scal 1 F) = F"
  by (simp add: mat_add_def zeros_like_def scal_def zip_map1 zip_map2 zip_same_conv_map map_idI
      o_def)

text \<open>
  In exact arithmetic the Pulay system of one trial vector and one residual, the bordered
  \<open>2 \<times> 2\<close> system, has the coefficient \<open>1\<close> for the trial vector and the squared norm of the
  residual as multiplier, and \<^verbatim>\<open>diis_xtrap\<close> returns the trial vector itself.
\<close>

lemma diis_xtrap_single_exact:
  "diis_xtrap [F] [R] = Inr F
   \<and> linalg_solve (build_B (length [F]) [R]) (pulay_rhs (length [F])) = Inr [1, einsum_ij_ij R R]"
  by (simp add: diis_xtrap_def build_B_single pulay_rhs_def linalg_solve_single zeros_add_one)

text \<open>
  In float64 the solve of the bordered system depends on the computed overlap \<open>r\<close> of the
  residual with itself. For \<open>|r| < 1\<close> the pivot is the entry \<open>-1\<close> of the border and every
  operation of the solve is exact. For \<open>|r| \<ge> 1\<close> the pivot is \<open>r\<close>; the multiplier of the
  second row is the rounded reciprocal of \<open>r\<close>, and the coefficient of the trial vector comes
  out of two further rounded divisions.
\<close>

lemma gauss_fl_single:
  assumes "\<bar>r\<bar> < 1"
  shows "gauss_fl (Suc (Suc 0)) [[r, - 1, 0], [- 1, 0, - 1]] = Some [1, fl64 r]"
  using assms by (simp add: eliminate_fl_def Let_def fl64_simps fl64_minus fl64_idem)

lemma gauss_fl_single_ge:
  assumes "1 \<le> \<bar>r\<bar>"
  shows "gauss_fl (Suc (Suc 0)) [[r, - 1, 0], [- 1, 0, - 1]]
    = Some [fl64 (fl64 (1 / fl64 (1 / r)) / r), fl64 (1 / fl64 (1 / r))]"
proof -
  from assms have "r \<noteq> 0" by auto
  then have "fl64 (1 / r) \<noteq> 0" by (simp add: fl64_eq_0_iff)
  with assms \<open>r \<noteq> 0\<close> show ?thesis
    by (simp add: eliminate_fl_def Let_def fl64_simps fl64_minus fl64_idem fl64_eq_0_iff)
qed

lemma build_B_fl_single: "build_B_fl ov (Suc 0) [R] = [[ov R R, - 1], [- 1, 0]]"
  by (simp add: build_B_fl_def)

lemma zeros_add_fl:
  "map2 (map2 (\<lambda>a f. fl64 (a + fl64 (c * f)))) (zeros_like F) F = map (map (\<lambda>f. fl64 (c * f))) F"
proof -
  have row: "map2 (\<lambda>a f. fl64 (a + fl64 (c * f))) (map (\<lambda>_. 0) r) r = map (\<lambda>f. fl64 (c * f)) r"
    for r :: "real list"
    by (induction r) (simp_all add: fl64_idem)
  show ?thesis
    unfolding zeros_like_def by (induction F) (simp_all add: row)
qed

lemma diis_xtrap_fl_single:
  assumes "gauss_fl (Suc (Suc 0)) [[ov R R, - 1, 0], [- 1, 0, - 1]] = Some [c, l]"
  shows "linalg_solve_fl (build_B_fl ov (length [F]) [R]) (pulay_rhs (length [F])) = Inr [c, l]"
    and "diis_xtrap_fl ov [F] [R] = Inr (map (map (\<lambda>f. fl64 (c * f))) F)"
  using assms zeros_add_fl [of c F]
  by (simp_all add: diis_xtrap_fl_def build_B_fl_single pulay_rhs_def linalg_solve_fl_def)

lemma fixed_entries:
  assumes "list_all (list_all (\<lambda>x. fl64 x = x)) F"
  shows "map (map (\<lambda>f. fl64 (1 * f))) F = F"
proof -
  have row: "map (\<lambda>f. fl64 (1 * f)) r = r" if "list_all (\<lambda>x. fl64 x = x) r" for r :: "real list"
    using that by (induction r) simp_all
  from assms show ?thesis
    by (induction F) (use row in simp_all)
qed

text \<open>
  For \<open>|r| \<ge> 1\<close> each of the three divisions has a relative error of at most \<open>2\<^sup>-\<^sup>5\<^sup>3\<close>, which
  keeps the coefficient within \<open>2\<^sup>-\<^sup>5\<^sup>1\<close> of \<open>1\<close> and every entry of the result within a
  relative \<open>2\<^sup>-\<^sup>5\<^sup>0\<close> of the entry of the trial vector.
\<close>

lemma coefficient_near_1:
  assumes "r \<noteq> 0"
  shows "\<bar>fl64 (fl64 (1 / fl64 (1 / r)) / r) - 1\<bar> \<le> 1 / 2 ^ 51"
proof -
  define q where "q = fl64 (1 / r)"
  define l where "l = fl64 (1 / q)"
  define t where "t = l / r"
  let ?e = "1 / 2 ^ 53 :: real"
  from assms have q0: "q \<noteq> 0" by (simp add: q_def fl64_eq_0_iff)
  note qr = fl64_rel_inverse [OF assms, folded q_def]
  note lq = fl64_rel_inverse [OF q0, folded l_def]
  have t: "t = (l * q) / (q * r)"
    using q0 assms by (simp add: t_def)
  have pos: "0 < q * r" "0 \<le> l * q" using qr(1) lq(1) by simp_all
  have up: "t \<le> (1 + ?e) / (1 - ?e)"
    unfolding t using lq(2) qr(1) pos by (intro frac_le) simp_all
  have lo: "(1 - ?e) / (1 + ?e) \<le> t"
    unfolding t using lq(1) qr(2) pos by (intro frac_le) simp_all
  have tpos: "0 < t"
  proof -
    have "0 < (1 - ?e) / (1 + ?e)" by simp
    with lo show ?thesis by linarith
  qed
  have "\<bar>fl64 t - t\<bar> \<le> t / 9007199254740992"
    using fl64_rel [of t] tpos by simp
  then have "t - t / 9007199254740992 \<le> fl64 t" "fl64 t \<le> t + t / 9007199254740992"
    by linarith+
  then have c: "t * (1 - ?e) \<le> fl64 t" "fl64 t \<le> t * (1 + ?e)"
    by (simp_all add: algebra_simps)
  have "t * (1 + ?e) \<le> (1 + ?e) / (1 - ?e) * (1 + ?e)"
    using up by (intro mult_right_mono) simp_all
  also have "\<dots> \<le> 1 + 1 / 2 ^ 51" by simp
  finally have hi: "fl64 t \<le> 1 + 1 / 2 ^ 51" using c(2) by linarith
  have "1 - 1 / 2 ^ 51 \<le> (1 - ?e) / (1 + ?e) * (1 - ?e)" by simp
  also have "\<dots> \<le> t * (1 - ?e)"
    using lo by (intro mult_right_mono) simp_all
  finally have "1 - 1 / 2 ^ 51 \<le> fl64 t" using c(1) by linarith
  with hi have "1 - 1 / 2251799813685248 \<le> fl64 t" "fl64 t \<le> 1 + 1 / 2251799813685248"
    by simp_all
  then have "\<bar>fl64 t - 1\<bar> \<le> 1 / 2251799813685248" by linarith
  then have "\<bar>fl64 t - 1\<bar> \<le> 1 / 2 ^ 51" by simp
  then show ?thesis by (simp add: t_def l_def q_def)
qed

lemma entry_near:
  assumes "\<bar>c - 1\<bar> \<le> 1 / 2 ^ 51"
  shows "\<bar>fl64 (c * f) - f\<bar> \<le> \<bar>f\<bar> / 2 ^ 50"
proof -
  from assms have "\<bar>c - 1\<bar> \<le> 1 / 2251799813685248" by simp
  then have "\<bar>c\<bar> \<le> 1 + 1 / 2251799813685248" by linarith
  then have c: "\<bar>c\<bar> \<le> 1 + 1 / 2 ^ 51" by simp
  have "\<bar>fl64 (c * f) - c * f\<bar> \<le> \<bar>c * f\<bar> / 2 ^ 53" by (rule fl64_rel)
  also have "\<dots> = \<bar>c\<bar> * \<bar>f\<bar> / 2 ^ 53" by (simp add: abs_mult)
  also have "\<dots> \<le> (1 + 1 / 2 ^ 51) * \<bar>f\<bar> / 2 ^ 53"
    using c by (intro divide_right_mono mult_right_mono) simp_all
  finally have 1: "\<bar>fl64 (c * f) - c * f\<bar> \<le> (1 + 1 / 2 ^ 51) * \<bar>f\<bar> / 2 ^ 53" .
  have "\<bar>c * f - f\<bar> = \<bar>c - 1\<bar> * \<bar>f\<bar>"
    by (simp add: left_diff_distrib flip: abs_mult)
  also have "\<dots> \<le> 1 / 2 ^ 51 * \<bar>f\<bar>"
    using assms by (intro mult_right_mono) simp_all
  finally have 2: "\<bar>c * f - f\<bar> \<le> 1 / 2 ^ 51 * \<bar>f\<bar>" .
  have "\<bar>fl64 (c * f) - f\<bar> \<le> \<bar>fl64 (c * f) - c * f\<bar> + \<bar>c * f - f\<bar>" by simp
  also have "\<dots> \<le> (1 + 1 / 2 ^ 51) * \<bar>f\<bar> / 2 ^ 53 + 1 / 2 ^ 51 * \<bar>f\<bar>"
    using 1 2 by simp
  also have "\<dots> \<le> \<bar>f\<bar> / 2 ^ 50"
    by (simp add: field_simps)
  finally show ?thesis .
qed

lemma fl64_quarter: "fl64 (1 / 2) = 1 / 2" "fl64 (1 / 4) = 1 / 4" "fl64 8 = 8"
  using fl64_fixed [of 1 "- 1"] fl64_fixed [of 1 "- 2"] fl64_fixed [of 8 0] by simp_all

lemma einsum_fl_quarter: "einsum_ij_ij_fl [[1 / 2, 0], [0, 0]] [[1 / 2, 0], [0, 0]] = 1 / 4"
  by (simp add: einsum_ij_ij_fl_def ncols_def fl64_simps fl64_quarter upt_rec [of 0]
      upt_rec [of 1])

text \<open>
  The residual \<open>R\<close> with the single entry \<open>7\<close> has the overlap \<open>49\<close>, computed exactly. The
  reciprocal of \<open>49\<close> is not a float64 number, and the three rounded divisions of the solve
  give the multiplier \<open>49 + 2\<^sup>-\<^sup>4\<^sup>7\<close> and the coefficient \<open>1 + 2\<^sup>-\<^sup>5\<^sup>2\<close>.
\<close>

lemma fl64_recip_49: "fl64 (1 / 49) = 5882252574524729 / 2 ^ 58"
  by (rule trans [OF fl64_eval [of "- 6" _ 5882252574524729]]) (simp_all add: round_even_def Let_def)

lemma fl64_lambda_49: "fl64 (1 / (5882252574524729 / 2 ^ 58)) = 49 + 1 / 2 ^ 47"
  by (rule trans [OF fl64_eval [of 5 _ 6896136929411073]]) (simp_all add: round_even_def Let_def)

lemma fl64_coeff_49: "fl64 ((49 + 1 / 2 ^ 47) / 49) = 1 + 1 / 2 ^ 52"
  by (rule trans [OF fl64_eval [of 0 _ 4503599627370497]]) (simp_all add: round_even_def Let_def)

lemma fl64_fixed_49:
  "fl64 49 = 49"
  "fl64 ((1 + 1 / 2 ^ 52) * 8) = 8 + 1 / 2 ^ 49"
  "fl64 ((1 + 1 / 2 ^ 52) * (1 / 2)) = 1 / 2 + 1 / 2 ^ 53"
  "fl64 (8 + 1 / 2 ^ 49) = 8 + 1 / 2 ^ 49"
  "fl64 (1 / 2 + 1 / 2 ^ 53) = 1 / 2 + 1 / 2 ^ 53"
  using fl64_fixed [of 49 0] fl64_fixed [of 4503599627370497 "- 49"]
    fl64_fixed [of 4503599627370497 "- 53"]
  by simp_all

lemma einsum_fl_49: "einsum_ij_ij_fl [[7, 0], [0, 0]] [[7, 0], [0, 0]] = 49"
  using fl64_fixed_49(1)
  by (simp add: einsum_ij_ij_fl_def ncols_def fl64_simps upt_rec [of 0] upt_rec [of 1])

lemma gauss_fl_49:
  "gauss_fl (Suc (Suc 0)) [[49, - 1, 0], [- 1, 0, - 1]] = Some [1 + 1 / 2 ^ 52, 49 + 1 / 2 ^ 47]"
proof -
  have "(1::real) \<le> \<bar>49\<bar>" by simp
  from gauss_fl_single_ge [OF this] show ?thesis
    by (simp only: fl64_recip_49 fl64_lambda_49 fl64_coeff_49)
qed

lemma linalg_solve_fl_49:
  "linalg_solve_fl [[49, - 1], [- 1, 0]] [0, - 1] = Inr [1 + 1 / 2 ^ 52, 49 + 1 / 2 ^ 47]"
  using gauss_fl_49 by (simp add: linalg_solve_fl_def)

lemma diis_xtrap_fl_49:
  "diis_xtrap_fl einsum_ij_ij_fl [[[8, 0], [0, 1 / 2]]] [[[7, 0], [0, 0]]]
     = Inr [[8 + 1 / 2 ^ 49, 0], [0, 1 / 2 + 1 / 2 ^ 53]]"
proof -
  have "diis_xtrap_fl einsum_ij_ij_fl [[[8, 0], [0, 1 / 2]]] [[[7, 0], [0, 0]]]
    = Inr (map2 (map2 (\<lambda>a f. fl64 (a + fl64 ((1 + 1 / 2 ^ 52) * f))))
              [[0, 0], [0, 0]] [[8, 0], [0, 1 / 2]])"
    unfolding diis_xtrap_fl_def Let_def
    by (simp add: build_B_fl_single einsum_fl_49 pulay_rhs_def linalg_solve_fl_49 zeros_like_def
        del: distrib_right_numeral distrib_left_numeral)
  also have "\<dots> = Inr [[8 + 1 / 2 ^ 49, 0], [0, 1 / 2 + 1 / 2 ^ 53]]"
    by (simp only: list.map zip_Cons_Cons zip_Nil prod.case fl64_fixed_49 mult_zero_right
        fl64_simps add_0_left add_0_right)
  finally show ?thesis .
qed

text \<open>
  Claim C2, as amended. With one trial vector \<open>F\<close> of float64 numbers and one residual, the
  float64 \<^verbatim>\<open>diis_xtrap\<close> depends on the computed overlap \<open>r\<close> of the residual with itself,
  for every way \<open>ov\<close> of computing it. For \<open>|r| < 1\<close> the solve returns the coefficient \<open>1\<close>
  exactly (and \<open>r\<close> as multiplier), and \<^verbatim>\<open>diis_xtrap\<close> returns the trial vector itself, entry
  for entry. For \<open>1 \<le> |r|\<close> (and magnitudes that keep float64 within its range) the solve
  returns a coefficient \<open>c\<close> within \<open>2\<^sup>-\<^sup>5\<^sup>1\<close> of \<open>1\<close>, and \<^verbatim>\<open>diis_xtrap\<close> returns the entries of \<open>F\<close>
  times \<open>c\<close>, rounded: each within a relative \<open>2\<^sup>-\<^sup>5\<^sup>0\<close> of the entry of \<open>F\<close>, but not
  necessarily equal to it.
\<close>

theorem diis_xtrap_single:
  assumes "list_all (list_all (\<lambda>x. fl64 x = x)) F"
  shows "(\<bar>ov R R\<bar> < 1 \<longrightarrow>
            diis_xtrap_fl ov [F] [R] = Inr F
            \<and> linalg_solve_fl (build_B_fl ov (length [F]) [R]) (pulay_rhs (length [F]))
                = Inr [1, fl64 (ov R R)])
       \<and> (1 \<le> \<bar>ov R R\<bar> \<and> \<bar>ov R R\<bar> \<le> 2 ^ 1000 \<and> list_all (list_all in_range) F \<longrightarrow>
            (\<exists>c l. linalg_solve_fl (build_B_fl ov (length [F]) [R]) (pulay_rhs (length [F]))
                      = Inr [c, l]
                  \<and> \<bar>c - 1\<bar> \<le> 1 / 2 ^ 51
                  \<and> diis_xtrap_fl ov [F] [R] = Inr (map (map (\<lambda>f. fl64 (c * f))) F)
                  \<and> list_all (list_all (\<lambda>f. \<bar>fl64 (c * f) - f\<bar> \<le> \<bar>f\<bar> / 2 ^ 50)) F))"
proof (intro conjI impI)
  assume r: "\<bar>ov R R\<bar> < 1"
  note s = diis_xtrap_fl_single [where ov = ov and R = R and F = F, OF gauss_fl_single [OF r]]
  from s(2) fixed_entries [OF assms] show "diis_xtrap_fl ov [F] [R] = Inr F" by simp
  from s(1) show "linalg_solve_fl (build_B_fl ov (length [F]) [R]) (pulay_rhs (length [F]))
                = Inr [1, fl64 (ov R R)]" .
next
  assume "1 \<le> \<bar>ov R R\<bar> \<and> \<bar>ov R R\<bar> \<le> 2 ^ 1000 \<and> list_all (list_all in_range) F"
  then have r: "1 \<le> \<bar>ov R R\<bar>" by simp
  then have r0: "ov R R \<noteq> 0" by auto
  let ?l = "fl64 (1 / fl64 (1 / ov R R))"
  let ?c = "fl64 (?l / ov R R)"
  note s = diis_xtrap_fl_single [where ov = ov and R = R and F = F, OF gauss_fl_single_ge [OF r]]
  note c = coefficient_near_1 [OF r0]
  have "list_all (list_all (\<lambda>f. \<bar>fl64 (?c * f) - f\<bar> \<le> \<bar>f\<bar> / 2 ^ 50)) F"
    unfolding list_all_iff by (intro ballI entry_near [OF c])
  with s c show "\<exists>c l. linalg_solve_fl (build_B_fl ov (length [F]) [R]) (pulay_rhs (length [F]))
                      = Inr [c, l]
                  \<and> \<bar>c - 1\<bar> \<le> 1 / 2 ^ 51
                  \<and> diis_xtrap_fl ov [F] [R] = Inr (map (map (\<lambda>f. fl64 (c * f))) F)
                  \<and> list_all (list_all (\<lambda>f. \<bar>fl64 (c * f) - f\<bar> \<le> \<bar>f\<bar> / 2 ^ 50)) F"
    by blast
qed

theorem diis_xtrap_single_witness:
  "list_all (list_all (\<lambda>x. fl64 x = x)) [[8, 0], [0, 1 / 2]]
   \<and> \<bar>einsum_ij_ij_fl [[1 / 2, 0], [0, 0]] [[1 / 2, 0], [0, 0]]\<bar> < 1
   \<and> diis_xtrap_fl einsum_ij_ij_fl [[[8, 0], [0, 1 / 2]]] [[[1 / 2, 0], [0, 0]]]
       = Inr [[8, 0], [0, 1 / 2]]
   \<and> 1 \<le> \<bar>einsum_ij_ij_fl [[7, 0], [0, 0]] [[7, 0], [0, 0]]\<bar>
   \<and> \<bar>einsum_ij_ij_fl [[7, 0], [0, 0]] [[7, 0], [0, 0]]\<bar> \<le> 2 ^ 1000
   \<and> list_all (list_all in_range) [[8, 0], [0, 1 / 2]]
   \<and> (\<exists>c l. linalg_solve_fl (build_B_fl einsum_ij_ij_fl (length [[[8, 0], [0, 1 / 2 :: real]]])
                  [[[7, 0], [0, 0]]]) (pulay_rhs (length [[[8, 0], [0, 1 / 2 :: real]]]))
                = Inr [c, l]
            \<and> \<bar>c - 1\<bar> \<le> 1 / 2 ^ 51
            \<and> diis_xtrap_fl einsum_ij_ij_fl [[[8, 0], [0, 1 / 2]]] [[[7, 0], [0, 0]]]
                = Inr (map (map (\<lambda>f. fl64 (c * f))) [[8, 0], [0, 1 / 2]])
            \<and> list_all (list_all (\<lambda>f. \<bar>fl64 (c * f) - f\<bar> \<le> \<bar>f\<bar> / 2 ^ 50)) [[8, 0], [0, 1 / 2]])"
proof -
  have F: "list_all (list_all (\<lambda>x. fl64 x = x)) [[8, 0], [0, 1 / 2]]"
    by (simp add: fl64_simps fl64_quarter)
  have r: "\<bar>einsum_ij_ij_fl [[1 / 2, 0], [0, 0]] [[1 / 2, 0], [0, 0]]\<bar> < 1"
    by (simp add: einsum_fl_quarter)
  have r': "1 \<le> \<bar>einsum_ij_ij_fl [[7, 0], [0, 0]] [[7, 0], [0, 0]]\<bar>"
    "\<bar>einsum_ij_ij_fl [[7, 0], [0, 0]] [[7, 0], [0, 0]]\<bar> \<le> 2 ^ 1000"
    by (simp_all add: einsum_fl_49)
  have F': "list_all (list_all in_range) [[8, 0], [0, 1 / 2]]"
    by (simp add: in_range_def)
  from diis_xtrap_single [where F = "[[8, 0], [0, 1 / 2]]" and ov = einsum_ij_ij_fl
      and R = "[[1 / 2, 0], [0, 0]]", OF F]
    diis_xtrap_single [where F = "[[8, 0], [0, 1 / 2]]" and ov = einsum_ij_ij_fl
      and R = "[[7, 0], [0, 0]]", OF F]
    F r r' F'
  show ?thesis by blast
qed

text \<open>
  Claim C2 as stated fails in float64: for the trial vector \<open>F\<close> with the diagonal \<open>8, 1/2\<close>
  (float64 numbers) and the residual with the single entry \<open>7\<close>, the solve returns the
  coefficient \<open>1 + 2\<^sup>-\<^sup>5\<^sup>2\<close> and \<^verbatim>\<open>diis_xtrap\<close> returns the diagonal \<open>8 + 2\<^sup>-\<^sup>4\<^sup>9, 1/2 + 2\<^sup>-\<^sup>5\<^sup>3\<close>,
  which is not \<open>F\<close>.
\<close>

theorem diis_xtrap_single_counterexample:
  "list_all (list_all (\<lambda>x. fl64 x = x)) [[8, 0], [0, 1 / 2]]
   \<and> einsum_ij_ij_fl [[7, 0], [0, 0]] [[7, 0], [0, 0]] = 49
   \<and> linalg_solve_fl (build_B_fl einsum_ij_ij_fl (length [[[8, 0], [0, 1 / 2 :: real]]])
         [[[7, 0], [0, 0]]]) (pulay_rhs (length [[[8, 0], [0, 1 / 2 :: real]]]))
       = Inr [1 + 1 / 2 ^ 52, 49 + 1 / 2 ^ 47]
   \<and> diis_xtrap_fl einsum_ij_ij_fl [[[8, 0], [0, 1 / 2]]] [[[7, 0], [0, 0]]]
       = Inr [[8 + 1 / 2 ^ 49, 0], [0, 1 / 2 + 1 / 2 ^ 53]]
   \<and> [[8 + 1 / 2 ^ 49, 0], [0, 1 / 2 + 1 / 2 ^ 53]] \<noteq> [[8, 0], [0, 1 / 2 :: real]]"
proof -
  have "list_all (list_all (\<lambda>x. fl64 x = x)) [[8, 0], [0, 1 / 2]]"
    by (simp add: fl64_simps fl64_quarter)
  moreover have "linalg_solve_fl (build_B_fl einsum_ij_ij_fl (length [[[8, 0], [0, 1 / 2 :: real]]])
         [[[7, 0], [0, 0]]]) (pulay_rhs (length [[[8, 0], [0, 1 / 2 :: real]]]))
       = Inr [1 + 1 / 2 ^ 52, 49 + 1 / 2 ^ 47]"
    by (simp add: build_B_fl_single einsum_fl_49 pulay_rhs_def linalg_solve_fl_49)
  moreover have "[[8 + 1 / 2 ^ 49, 0], [0, 1 / 2 + 1 / 2 ^ 53]] \<noteq> [[8, 0], [0, 1 / 2 :: real]]"
    by simp
  ultimately show ?thesis
    using einsum_fl_49 diis_xtrap_fl_49 by blast
qed

subsection \<open>The outcomes of one pass\<close>

lemma scf_iteration_Break:
  "converged opts (iter_dE g st) (iter_dRMS g st) \<Longrightarrow>
   scf_iteration eigh opts g k st = Break (at_check g k st)"
  by (simp add: scf_iteration_def split_def)


lemma scf_iteration_not_Next_last:
  "\<not> is_Next (scf_iteration eigh opts g (MAXITER opts) st)"
  by (simp add: scf_iteration_def Let_def split_def split: sum.splits)

lemma scf_iteration_Raise_cases:
  "scf_iteration eigh opts g k st = Raise e st' \<Longrightarrow>
   \<not> converged opts (iter_dE g st) (iter_dRMS g st) \<and>
   (extrapolate k (after_check g k st) (fst (iter_fock g st)) (snd (iter_fock g st)) = Inl e
    \<or> (e = MaxIterExceeded \<and> k = MAXITER opts))"
  by (auto simp add: scf_iteration_def Let_def split_def split: sum.splits if_splits)

lemma printed_at_check:
  "printed (at_check g k st) = printed st @ [(k, iter_energy g st, iter_dE g st, iter_dRMS g st)]"
  by (simp add: at_check_def append_history_def Let_def split_def)

lemma printed_after_check:
  "printed (after_check g k st) = printed st @ [(k, iter_energy g st, iter_dE g st, iter_dRMS g st)]"
  by (simp add: after_check_def Let_def printed_at_check)

lemma printed_orbital_update: "printed (orbital_update eigh g st Fa Fb) = printed st"
  by (simp add: orbital_update_def split_def Let_def)

lemma scf_iteration_printed:
  "scf_iteration eigh opts g k st = r \<Longrightarrow>
   (case r of Next st' \<Rightarrow> printed st' = printed st @ [(k, iter_energy g st, iter_dE g st, iter_dRMS g st)] \<and> \<not> converged opts (iter_dE g st) (iter_dRMS g st)
    | Break st' \<Rightarrow> printed st' = printed st @ [(k, iter_energy g st, iter_dE g st, iter_dRMS g st)] \<and> converged opts (iter_dE g st) (iter_dRMS g st)
    | Raise e st' \<Rightarrow> printed st' = printed st @ [(k, iter_energy g st, iter_dE g st, iter_dRMS g st)] \<and> \<not> converged opts (iter_dE g st) (iter_dRMS g st))"
  by (auto simp add: scf_iteration_def Let_def split_def printed_at_check printed_after_check
      printed_orbital_update split: sum.splits if_splits)

subsection \<open>The concrete run, evaluated\<close>

lemmas array_defs = dot_def mat_add_def mat_sub_def scal_def zeros_like_def einsum_ij_ij_def
  einsum_pi_qi_def einsum_pqrs_rs_def einsum_prqs_rs_def np_mean_def squares_def slice_to_def
  ncols_def upt_2

lemma two_level_static_quantities:
  "2 \<le> numpy_memory opts \<Longrightarrow>
   static_quantities opts two_level = (two_level_calls, Inr two_level_statics)"
  by (simp add: static_quantities_def two_level_def two_level_statics_def two_level_calls_def
      I_size_2 mat_add_def)

lemma eigh_diagonal_2: "eigh_diagonal [[a, b], [c, d]] =
   (if a \<le> d then ([a, d], [[1, 0], [0, 1]]) else ([d, a], [[0, 1], [1, 0]]))"
  by (simp add: eigh_diagonal_def upt_2 Let_def)

lemma diag_F_two_level:
  "diag_F eigh_diagonal [[1, 0], [0, 1]] [[a, 0], [0, d]] 1 =
     (if a \<le> d then ([[1, 0], [0, 1]], [[1, 0], [0, 0]]) else ([[0, 1], [1, 0]], [[0, 0], [0, 1]]))"
  by (simp add: diag_F_def array_defs eigh_diagonal_2 Let_def)

lemma two_level_core_guess:
  "core_guess eigh_diagonal two_level two_level_calls two_level_statics = two_level_start"
  by (simp add: core_guess_def two_level_statics_def diag_F_two_level two_level_start_def two_level_def)

lemma fock_two_level_1:
  "fock_build two_level_eri [[- 2, 0], [0, - 1]] [[1, 0], [0, 0]] [[1, 0], [0, 0]] =
     ([[8, 0], [0, 1 / 2]], [[8, 0], [0, 1 / 2]])"
  by (simp add: fock_build_def two_level_eri_def array_defs Let_def)

lemma fock_two_level_2:
  "fock_build two_level_eri [[- 2, 0], [0, - 1]] [[0, 0], [0, 1]] [[0, 0], [0, 1]] =
     ([[- (1 / 2), 0], [0, 0]], [[- (1 / 2), 0], [0, 0]])"
  by (simp add: fock_build_def two_level_eri_def array_defs Let_def)

lemma diis_resid_diagonal:
  "diis_resid [[1, 0], [0, 1]] [[1, 0], [0, 1]] [[a, 0], [0, d]] [[x, 0], [0, y]] = [[0, 0], [0, 0]]"
  by (simp add: diis_resid_def array_defs)

lemma rms_zero: "rms_pair [[0, 0], [0, 0]] [[0, 0], [0, 0]] = 0"
  by (simp add: rms_pair_def array_defs)

lemma start_fock: "iter_fock two_level_statics two_level_start = ([[8, 0], [0, 1 / 2]], [[8, 0], [0, 1 / 2]])"
  by (simp add: iter_fock_def two_level_statics_def two_level_start_def fock_two_level_1)

lemma start_resid: "iter_resid two_level_statics two_level_start = ([[0, 0], [0, 0]], [[0, 0], [0, 0]])"
  by (simp add: iter_resid_def start_fock) (simp add: two_level_statics_def two_level_start_def diis_resid_diagonal)

lemma start_energy: "iter_energy two_level_statics two_level_start = 6"
  by (simp add: iter_energy_def start_fock) (simp add: two_level_statics_def two_level_start_def uhf_energy_def array_defs)

lemma start_dE: "iter_dE two_level_statics two_level_start = 6"
  by (simp add: iter_dE_def start_energy) (simp add: two_level_start_def)

lemma start_dRMS: "iter_dRMS two_level_statics two_level_start = 0"
  by (simp add: iter_dRMS_def start_resid rms_zero)

lemma start_after_check:
  "after_check two_level_statics 1 two_level_start =
     two_level_pass1\<lparr>Ca := [[1, 0], [0, 1]], Da := [[1, 0], [0, 0]], Cb := [[1, 0], [0, 1]], Db := [[1, 0], [0, 0]]\<rparr>"
  by (simp add: after_check_def at_check_def append_history_def start_fock start_resid start_energy start_dE start_dRMS)
     (simp add: two_level_start_def two_level_pass1_def)

lemma pass1_Next:
  "\<not> converged opts 6 0 \<Longrightarrow> MAXITER opts \<noteq> 1 \<Longrightarrow>
   scf_iteration eigh_diagonal opts two_level_statics 1 two_level_start = Next two_level_pass1"
  by (simp add: scf_iteration_def start_fock start_dE start_dRMS start_after_check extrapolate_def
      orbital_update_def)
    (simp add: two_level_statics_def diag_F_two_level two_level_pass1_def)

lemma pass1_Raise:
  "\<not> converged opts 6 0 \<Longrightarrow> MAXITER opts = 1 \<Longrightarrow>
   scf_iteration eigh_diagonal opts two_level_statics 1 two_level_start =
     Raise MaxIterExceeded (two_level_pass1\<lparr>calls := calls two_level_pass1 @ [Core_clean]\<rparr>)"
  by (simp add: scf_iteration_def start_fock start_dE start_dRMS start_after_check extrapolate_def
      orbital_update_def)
    (simp add: two_level_statics_def diag_F_two_level two_level_pass1_def)

lemma pass1_fock: "iter_fock two_level_statics two_level_pass1 = ([[- (1 / 2), 0], [0, 0]], [[- (1 / 2), 0], [0, 0]])"
  by (simp add: iter_fock_def two_level_statics_def two_level_pass1_def fock_two_level_2)

lemma pass1_resid: "iter_resid two_level_statics two_level_pass1 = ([[0, 0], [0, 0]], [[0, 0], [0, 0]])"
  by (simp add: iter_resid_def pass1_fock) (simp add: two_level_statics_def two_level_pass1_def diis_resid_diagonal)

lemma pass1_energy: "iter_energy two_level_statics two_level_pass1 = - 1"
  by (simp add: iter_energy_def pass1_fock) (simp add: two_level_statics_def two_level_pass1_def uhf_energy_def array_defs)

lemma pass1_dE: "iter_dE two_level_statics two_level_pass1 = - 7"
  by (simp add: iter_dE_def pass1_energy) (simp add: two_level_pass1_def)

lemma pass1_dRMS: "iter_dRMS two_level_statics two_level_pass1 = 0"
  by (simp add: iter_dRMS_def pass1_resid rms_zero)

lemma pass1_after_check: "after_check two_level_statics 2 two_level_pass1 = two_level_pass2"
  by (simp add: after_check_def at_check_def append_history_def pass1_fock pass1_resid pass1_energy pass1_dE pass1_dRMS Let_def)
     (simp add: two_level_pass1_def two_level_pass2_def)

lemma upt_3: "[0..<3] = [0, Suc 0, 2]"
  by (simp add: upt_rec)

lemma two_level_B:
  "build_B (Suc (Suc 0)) [[[0, 0], [0, 0]], [[0, 0], [0, 0]]] = [[0, 0, - 1], [0, 0, - 1], [- 1, - 1, 0]]"
  by (simp add: build_B_def array_defs)

lemma two_level_singular:
  "linalg_solve [[0, 0, - 1], [0, 0, - 1], [- 1, - 1, 0]] (pulay_rhs (Suc (Suc 0))) = Inl LinAlgError"
  by (simp add: linalg_solve_def pulay_rhs_def eliminate_def)

lemma two_level_diis:
  "diis_xtrap (F_list_a two_level_pass2) (R_list_a two_level_pass2) = Inl LinAlgError"
  by (simp add: diis_xtrap_def two_level_pass2_def two_level_B two_level_singular)

lemma pass2_Raise:
  "\<not> converged opts (- 7) 0 \<Longrightarrow>
   scf_iteration eigh_diagonal opts two_level_statics 2 two_level_pass1 = Raise LinAlgError two_level_pass2"
  by (simp add: scf_iteration_def pass1_fock pass1_dE pass1_dRMS pass1_after_check extrapolate_def two_level_diis)

subsection \<open>The history\<close>

lemma lists_orbital_update:
  "F_list_a (orbital_update eigh g st Fa Fb) = F_list_a st"
  "F_list_b (orbital_update eigh g st Fa Fb) = F_list_b st"
  "R_list_a (orbital_update eigh g st Fa Fb) = R_list_a st"
  "R_list_b (orbital_update eigh g st Fa Fb) = R_list_b st"
  by (simp_all add: orbital_update_def split_def Let_def)

lemma lists_after_check:
  "F_list_a (after_check g k st) = F_list_a st @ [fst (iter_fock g st)]"
  "F_list_b (after_check g k st) = F_list_b st @ [snd (iter_fock g st)]"
  "R_list_a (after_check g k st) = R_list_a st @ [fst (iter_resid g st)]"
  "R_list_b (after_check g k st) = R_list_b st @ [snd (iter_resid g st)]"
  by (simp_all add: after_check_def at_check_def append_history_def split_def Let_def)

lemma scf_iteration_Next:
  "scf_iteration eigh opts g k st = Next st' \<Longrightarrow>
   \<not> converged opts (iter_dE g st) (iter_dRMS g st) \<and> k \<noteq> MAXITER opts \<and>
   (\<exists>Fa' Fb'. extrapolate k (after_check g k st) (fst (iter_fock g st)) (snd (iter_fock g st))
        = Inr (Fa', Fb') \<and> st' = orbital_update eigh g (after_check g k st) Fa' Fb')"
  by (auto simp add: scf_iteration_def Let_def split_def split: sum.splits if_splits)

lemma scf_iteration_Next_lists:
  assumes "scf_iteration eigh opts g k st = Next st'"
  shows "length (F_list_a st') = Suc (length (F_list_a st))"
    and "length (F_list_b st') = Suc (length (F_list_b st))"
    and "length (R_list_a st') = Suc (length (R_list_a st))"
    and "length (R_list_b st') = Suc (length (R_list_b st))"
  using scf_iteration_Next [OF assms]
  by (auto simp add: lists_orbital_update lists_after_check)

lemma lists_core_guess:
  "F_list_a (core_guess eigh env cs g) = []" "F_list_b (core_guess eigh env cs g) = []"
  "R_list_a (core_guess eigh env cs g) = []" "R_list_b (core_guess eigh env cs g) = []"
  by (simp_all add: core_guess_def split_def Let_def)

lemma after_passes_lists:
  assumes "after_passes eigh opts g st0 n = Some st"
    and "F_list_a st0 = []" "F_list_b st0 = []" "R_list_a st0 = []" "R_list_b st0 = []"
  shows "length (F_list_a st) = n \<and> length (F_list_b st) = n
       \<and> length (R_list_a st) = n \<and> length (R_list_b st) = n"
  using assms(1)
proof (induction n arbitrary: st)
  case 0
  then show ?case using assms(2-) by simp
next
  case (Suc n)
  then obtain st1 where 1: "after_passes eigh opts g st0 n = Some st1"
    and 2: "scf_iteration eigh opts g (int (Suc n)) st1 = Next st"
    by (auto split: option.splits ctl.splits)
  from Suc.IH [OF 1] scf_iteration_Next_lists [OF 2] show ?case by simp
qed

subsection \<open>The loop\<close>


lemma scf_loop_printed_mono:
  "scf_loop eigh opts g ks st = Inr st' \<Longrightarrow> length (printed st) + (if ks = [] then 0 else 1) \<le> length (printed st')"
proof (induction ks arbitrary: st)
  case Nil
  then show ?case by simp
next
  case (Cons k ks)
  note P = scf_iteration_printed [of eigh opts g k st, OF refl]
  show ?case
  proof (cases "scf_iteration eigh opts g k st")
    case (Next st1)
    with Cons.prems have "scf_loop eigh opts g ks st1 = Inr st'" by simp
    from Cons.IH [OF this] have "length (printed st1) \<le> length (printed st')" by (simp split: if_splits)
    with P Next show ?thesis by simp
  next
    case (Break st1)
    with P Cons.prems show ?thesis by auto
  next
    case (Raise e st1)
    with Cons.prems show ?thesis by simp
  qed
qed

lemma two_level_program:
  "2 \<le> numpy_memory opts \<Longrightarrow>
   uhf_program eigh_diagonal opts two_level =
     (case scf_loop eigh_diagonal opts two_level_statics [1..MAXITER opts] two_level_start of
        Inl (e, st) \<Rightarrow> Scf_raised e st
      | Inr st \<Rightarrow> Scf_converged st)"
  by (simp add: uhf_program_def two_level_static_quantities two_level_core_guess)

lemma E_old_at_check: "E_old (at_check g k st) = E_old st"
  by (simp add: at_check_def append_history_def split_def Let_def)

lemma SCF_E_at_check: "SCF_E (at_check g k st) = iter_energy g st"
  by (simp add: at_check_def append_history_def split_def Let_def)

lemma E_old_after_check: "E_old (after_check g k st) = iter_energy g st"
  by (simp add: after_check_def Let_def SCF_E_at_check)

lemma E_old_core_guess: "E_old (core_guess eigh env cs g) = 0"
  by (simp add: core_guess_def split_def Let_def)

lemma printed_core_guess: "printed (core_guess eigh env cs g) = []"
  by (simp add: core_guess_def split_def Let_def)

subsection \<open>The convergence test\<close>

text \<open>
  Claim C4. A pass leaves the loop by \<^verbatim>\<open>break\<close> exactly when both \<open>|dE| < E_conv\<close> and
  \<open>dRMS < D_conv\<close> hold, where \<open>dE\<close> is the energy of the pass minus the previous energy and
  \<open>dRMS\<close> is half the sum of the root mean squares of the two residuals; one criterion alone
  does not stop the loop.
\<close>

theorem convergence_test:
  "(is_Break (scf_iteration eigh opts g k st)
      \<longleftrightarrow> \<bar>iter_dE g st\<bar> < E_conv opts \<and> iter_dRMS g st < D_conv opts)
   \<and> iter_dE g st = iter_energy g st - E_old st
   \<and> iter_dRMS g st =
       1 / 2 * (sqrt (np_mean (squares (fst (iter_resid g st))))
                + sqrt (np_mean (squares (snd (iter_resid g st)))))"
  by (simp add: scf_iteration_def Let_def split_def converged_def iter_dE_def iter_dRMS_def
      rms_pair_def split: sum.splits)

theorem convergence_test_witness:
  "iter_dRMS two_level_statics two_level_start < D_conv default_options
   \<and> \<not> \<bar>iter_dE two_level_statics two_level_start\<bar> < E_conv default_options
   \<and> \<not> is_Break (scf_iteration eigh_diagonal default_options two_level_statics 1 two_level_start)"
  using convergence_test [of eigh_diagonal default_options two_level_statics 1 two_level_start]
  by (simp add: start_dE start_dRMS default_options_def)

subsection \<open>The first pass\<close>

text \<open>
  Claim C10. The previous energy starts at \<open>0\<close> and is overwritten only after the convergence
  test, so in the first pass \<open>dE\<close> is the total energy itself: the first pass can only
  declare convergence when the magnitude of the total energy is below \<open>E_conv\<close>, and a run
  that converged after printing a single line has such an energy.
\<close>

theorem first_pass_dE:
  "E_old (core_guess eigh env cs g) = 0
   \<and> iter_dE g (core_guess eigh env cs g) = iter_energy g (core_guess eigh env cs g)
   \<and> E_old (at_check g k st) = E_old st
   \<and> E_old (after_check g k st) = iter_energy g st
   \<and> (is_Break (scf_iteration eigh opts g 1 (core_guess eigh env cs g))
        \<longleftrightarrow> \<bar>iter_energy g (core_guess eigh env cs g)\<bar> < E_conv opts
            \<and> iter_dRMS g (core_guess eigh env cs g) < D_conv opts)
   \<and> (\<forall>st'. uhf_program eigh opts env = Scf_converged st' \<and> length (printed st') = 1
          \<longrightarrow> \<bar>SCF_E st'\<bar> < E_conv opts)"
proof -
  let ?st0 = "core_guess eigh env cs g"
  have dE: "iter_dE g ?st0 = iter_energy g ?st0"
    by (simp add: iter_dE_def E_old_core_guess)
  have brk: "is_Break (scf_iteration eigh opts g 1 ?st0)
        \<longleftrightarrow> \<bar>iter_energy g ?st0\<bar> < E_conv opts \<and> iter_dRMS g ?st0 < D_conv opts"
    using dE by (simp add: scf_iteration_def Let_def split_def converged_def split: sum.splits)
  have prog: "\<bar>SCF_E st'\<bar> < E_conv opts"
    if run: "uhf_program eigh opts env = Scf_converged st'" and one: "length (printed st') = 1" for st'
  proof -
    from run obtain cs' g' where sq: "static_quantities opts env = (cs', Inr g')"
      and loop: "scf_loop eigh opts g' [1..MAXITER opts] (core_guess eigh env cs' g') = Inr st'"
      by (auto simp add: uhf_program_def split: prod.splits sum.splits)
    let ?s = "core_guess eigh env cs' g'"
    have m: "1 \<le> MAXITER opts"
    proof (rule ccontr)
      assume "\<not> 1 \<le> MAXITER opts"
      with loop have "st' = ?s" by simp
      with one show False by (simp add: printed_core_guess)
    qed
    then have ks: "[1..MAXITER opts] = 1 # [1 + 1..MAXITER opts]" by (rule upto_rec1)
    note P = scf_iteration_printed [of eigh opts g' 1 ?s, OF refl]
    show ?thesis
    proof (cases "scf_iteration eigh opts g' 1 ?s")
      case (Next st1)
      with loop ks have l2: "scf_loop eigh opts g' [2..MAXITER opts] st1 = Inr st'" by simp
      from Next scf_iteration_Next [of eigh opts g' 1 ?s st1] m have "2 \<le> MAXITER opts" by simp
      then have "[2..MAXITER opts] \<noteq> []" by (simp add: upto_rec1)
      with scf_loop_printed_mono [OF l2] have "length (printed st1) + 1 \<le> length (printed st')" by simp
      with P Next one show ?thesis by (simp add: printed_core_guess)
    next
      case (Break st1)
      with loop ks have "st' = st1" by simp
      with Break have "st' = at_check g' 1 ?s" and c: "converged opts (iter_dE g' ?s) (iter_dRMS g' ?s)"
        by (auto simp add: scf_iteration_def Let_def split_def split: if_splits sum.splits)
      then show ?thesis
        by (simp add: SCF_E_at_check converged_def iter_dE_def E_old_core_guess)
    next
      case (Raise e st1)
      with loop ks show ?thesis by simp
    qed
  qed
  show ?thesis
    using dE brk prog by (simp add: E_old_core_guess E_old_at_check E_old_after_check)
qed

lemma start_at_check: "at_check two_level_statics 1 two_level_start = two_level_conv1"
  by (simp add: at_check_def append_history_def start_fock start_resid start_energy start_dE start_dRMS)
     (simp add: two_level_start_def two_level_pass1_def two_level_conv1_def)

lemma pass1_Break:
  "converged opts 6 0 \<Longrightarrow>
   scf_iteration eigh_diagonal opts two_level_statics 1 two_level_start = Break two_level_conv1"
  by (simp add: scf_iteration_def start_fock start_dE start_dRMS start_at_check)

theorem first_pass_dE_witness:
  "uhf_program eigh_diagonal (default_options\<lparr>E_conv := 10\<rparr>) two_level = Scf_converged two_level_conv1
   \<and> length (printed two_level_conv1) = 1
   \<and> \<bar>SCF_E two_level_conv1\<bar> < E_conv (default_options\<lparr>E_conv := 10\<rparr>)
   \<and> SCF_E two_level_conv1 = 6"
proof -
  let ?opts = "default_options\<lparr>E_conv := 10\<rparr>"
  have c: "converged ?opts 6 0" by (simp add: converged_def default_options_def)
  have mem: "2 \<le> numpy_memory ?opts" by (simp add: default_options_def)
  have ks: "[1..MAXITER ?opts] = 1 # [1 + 1..MAXITER ?opts]"
    by (rule upto_rec1) (simp add: default_options_def)
  have "scf_loop eigh_diagonal ?opts two_level_statics [1..MAXITER ?opts] two_level_start
          = Inr two_level_conv1"
    by (subst ks) (simp only: scf_loop.simps pass1_Break [OF c] ctl.case)
  then have run: "uhf_program eigh_diagonal ?opts two_level = Scf_converged two_level_conv1"
    by (simp only: two_level_program [OF mem] sum.case)
  have one: "length (printed two_level_conv1) = 1"
    by (simp add: two_level_conv1_def two_level_pass1_def)
  from first_pass_dE [of eigh_diagonal two_level two_level_calls two_level_statics 1 two_level_start ?opts] run one
  have "\<bar>SCF_E two_level_conv1\<bar> < E_conv ?opts" by blast
  with run one show ?thesis by (simp add: two_level_conv1_def two_level_pass1_def)
qed

subsection \<open>Errors of the extrapolation and the history invariant\<close>

lemma linalg_solve_error: "linalg_solve B rhs = Inl e \<Longrightarrow> e = LinAlgError"
  by (auto simp add: linalg_solve_def split: option.splits)

lemma diis_xtrap_error:
  "diis_xtrap F_list DIIS_RESID = Inl e \<Longrightarrow> length DIIS_RESID = length F_list \<Longrightarrow> e = LinAlgError"
  by (auto simp add: diis_xtrap_def Let_def split: if_splits sum.splits dest: linalg_solve_error)


lemma extrapolate_error:
  "extrapolate k st Fa Fb = Inl e \<Longrightarrow> hist_inv st \<Longrightarrow> e = LinAlgError \<and> 2 \<le> k"
  by (auto simp add: extrapolate_def hist_inv_def split: if_splits sum.splits dest: diis_xtrap_error)


lemma hist_inv_after_check: "hist_inv st \<Longrightarrow> hist_inv (after_check g k st)"
  by (simp add: hist_inv_def lists_after_check)

lemma hist_inv_Next: "scf_iteration eigh opts g k st = Next st' \<Longrightarrow> hist_inv st \<Longrightarrow> hist_inv st'"
  using scf_iteration_Next_lists [of eigh opts g k st st'] by (simp add: hist_inv_def)

lemma hist_inv_core_guess: "hist_inv (core_guess eigh env cs g)"
  by (simp add: hist_inv_def lists_core_guess)


lemma scf_iteration_Raise_error:
  assumes "scf_iteration eigh opts g k st = Raise e st'" "hist_inv st"
  shows "e = MaxIterExceeded \<and> k = MAXITER opts \<or> e = LinAlgError \<and> 2 \<le> k"
  using scf_iteration_Raise_cases [OF assms(1)] extrapolate_error hist_inv_after_check [OF assms(2)]
  by blast

lemma scf_loop_outcome:
  assumes "hist_inv st" "ks \<noteq> []" "last ks = MAXITER opts"
  shows "case scf_loop eigh opts g ks st of
           Inr st' \<Rightarrow> printed st' \<noteq> [] \<and> line_converged opts (last (printed st'))
         | Inl (e, st') \<Rightarrow>
             printed st' \<noteq> [] \<and> \<not> line_converged opts (last (printed st'))
             \<and> (e = MaxIterExceeded \<and> fst (last (printed st')) = MAXITER opts
                \<or> e = LinAlgError \<and> 2 \<le> fst (last (printed st')))"
  using assms
proof (induction ks arbitrary: st)
  case Nil
  then show ?case by simp
next
  case (Cons k ks)
  note P = scf_iteration_printed [of eigh opts g k st, OF refl]
  show ?case
  proof (cases "scf_iteration eigh opts g k st")
    case (Next st')
    have "ks \<noteq> []"
    proof
      assume "ks = []"
      with Cons.prems have "k = MAXITER opts" by simp
      with Next scf_iteration_not_Next_last [of eigh opts g st] show False by simp
    qed
    with Cons.IH [of st'] Cons.prems Next hist_inv_Next [OF Next] show ?thesis by simp
  next
    case (Break st')
    with P show ?thesis by (simp add: line_converged_def)
  next
    case (Raise e st')
    with P scf_iteration_Raise_error [OF Raise Cons.prems(1)] show ?thesis
      by (auto simp add: line_converged_def)
  qed
qed

lemma program_loop:
  "static_quantities opts env = (cs, Inr g) \<Longrightarrow>
   uhf_program eigh opts env =
     (case scf_loop eigh opts g [1..MAXITER opts] (core_guess eigh env cs g) of
        Inl (e, st) \<Rightarrow> Scf_raised e st
      | Inr st \<Rightarrow> Scf_converged st)"
  by (simp add: uhf_program_def)

lemma static_quantities_cases:
  "(I_size (nso env) > numpy_memory opts \<and>
      static_quantities opts env =
        ([Wavefunction_build, MintsHelper, Mints_ao_overlap, Wfn_nso, Wfn_nalpha, Wfn_nbeta,
          Core_clean], Inl MemoryLimitExceeded))
   \<or> (\<not> I_size (nso env) > numpy_memory opts \<and>
       (\<exists>cs g. static_quantities opts env = (cs, Inr g)))"
  by (simp add: static_quantities_def Let_def)

lemma upto_last: "i \<le> j \<Longrightarrow> [i..j] \<noteq> [] \<and> last [i..j] = j"
  by (simp add: upto_rec2)

subsection \<open>The iteration limit\<close>

text \<open>
  Claim C5, as amended. With a limit of at least one pass, the pass whose number is the limit
  raises whenever its convergence test fails, and the program never ends as converged unless
  the last line it printed passes the test: otherwise it ends with an exception, which is the
  iteration-limit exception of the last pass or the \<^verbatim>\<open>LinAlgError\<close> of a Pulay solve in a pass
  from the second on. With a limit of one pass the exception is the iteration-limit exception.
\<close>

theorem maxiter_raises:
  assumes "1 \<le> MAXITER opts"
  shows "(\<forall>st. \<not> converged opts (iter_dE g st) (iter_dRMS g st)
            \<longrightarrow> is_Raise (scf_iteration eigh opts g (MAXITER opts) st))
       \<and> (case uhf_program eigh opts env of
            Setup_raised e cs \<Rightarrow> e = MemoryLimitExceeded
          | Scf_converged st \<Rightarrow> printed st \<noteq> [] \<and> line_converged opts (last (printed st))
          | Scf_raised e st \<Rightarrow>
              printed st \<noteq> [] \<and> \<not> line_converged opts (last (printed st))
              \<and> (e = MaxIterExceeded \<and> fst (last (printed st)) = MAXITER opts
                 \<or> e = LinAlgError \<and> 2 \<le> fst (last (printed st))))
       \<and> (MAXITER opts = 1
            \<longrightarrow> (\<forall>e st. uhf_program eigh opts env = Scf_raised e st \<longrightarrow> e = MaxIterExceeded))"
proof (intro conjI allI impI)
  fix st
  assume "\<not> converged opts (iter_dE g st) (iter_dRMS g st)"
  then show "is_Raise (scf_iteration eigh opts g (MAXITER opts) st)"
    by (simp add: scf_iteration_def Let_def split_def split: sum.splits)
next
  from upto_last [OF assms] have ks: "[1..MAXITER opts] \<noteq> []" "last [1..MAXITER opts] = MAXITER opts"
    by simp_all
  from static_quantities_cases [of opts env]
  show "case uhf_program eigh opts env of
            Setup_raised e cs \<Rightarrow> e = MemoryLimitExceeded
          | Scf_converged st \<Rightarrow> printed st \<noteq> [] \<and> line_converged opts (last (printed st))
          | Scf_raised e st \<Rightarrow>
              printed st \<noteq> [] \<and> \<not> line_converged opts (last (printed st))
              \<and> (e = MaxIterExceeded \<and> fst (last (printed st)) = MAXITER opts
                 \<or> e = LinAlgError \<and> 2 \<le> fst (last (printed st)))"
  proof (elim disjE conjE exE)
    assume "static_quantities opts env =
        ([Wavefunction_build, MintsHelper, Mints_ao_overlap, Wfn_nso, Wfn_nalpha, Wfn_nbeta,
          Core_clean], Inl MemoryLimitExceeded)"
    then show ?thesis by (simp add: uhf_program_def)
  next
    fix cs g' assume sq: "static_quantities opts env = (cs, Inr g')"
    from scf_loop_outcome [OF hist_inv_core_guess ks, of eigh g' eigh env cs g']
    show ?thesis
      by (simp add: program_loop [OF sq] split: sum.splits prod.splits)
  qed
next
  fix e st
  assume one: "MAXITER opts = 1" and run: "uhf_program eigh opts env = Scf_raised e st"
  from run obtain cs g' where sq: "static_quantities opts env = (cs, Inr g')"
    and loop: "scf_loop eigh opts g' [1..MAXITER opts] (core_guess eigh env cs g') = Inl (e, st)"
    by (auto simp add: uhf_program_def split: prod.splits sum.splits)
  from loop one have "scf_iteration eigh opts g' 1 (core_guess eigh env cs g') = Raise e st"
    by (simp split: ctl.splits)
  from scf_iteration_Raise_error [OF this hist_inv_core_guess] show "e = MaxIterExceeded"
    by simp
qed

lemma two_level_run1:
  assumes "2 \<le> numpy_memory opts" "MAXITER opts = 1" "\<not> converged opts 6 0"
  shows "uhf_program eigh_diagonal opts two_level =
           Scf_raised MaxIterExceeded (two_level_pass1\<lparr>calls := calls two_level_pass1 @ [Core_clean]\<rparr>)"
proof -
  have "[1..MAXITER opts] = [1]" using assms(2) by simp
  then show ?thesis
    by (simp only: two_level_program [OF assms(1)] scf_loop.simps pass1_Raise [OF assms(3,2)]
        ctl.case sum.case prod.case)
qed

lemma two_level_run2:
  assumes "2 \<le> numpy_memory opts" "2 \<le> MAXITER opts" "\<not> converged opts 6 0"
    "\<not> converged opts (- 7) 0"
  shows "uhf_program eigh_diagonal opts two_level = Scf_raised LinAlgError two_level_pass2"
proof -
  from assms(2) have ne: "MAXITER opts \<noteq> 1" by simp
  from assms(2) have "[1..MAXITER opts] = 1 # [1 + 1..MAXITER opts]"
    by (intro upto_rec1) simp
  also from assms(2) have "[1 + 1..MAXITER opts] = 2 # [2 + 1..MAXITER opts]"
    by (simp add: upto_rec1)
  finally have ks: "[1..MAXITER opts] = 1 # 2 # [2 + 1..MAXITER opts]" .
  show ?thesis
    by (simp only: two_level_program [OF assms(1)] ks scf_loop.simps pass1_Next [OF assms(3) ne]
        pass2_Raise [OF assms(4)] ctl.case sum.case prod.case)
qed

theorem maxiter_raises_witness:
  "1 \<le> MAXITER (default_options\<lparr>MAXITER := 1\<rparr>)
   \<and> is_Raise (scf_iteration eigh_diagonal (default_options\<lparr>MAXITER := 1\<rparr>) two_level_statics
        (MAXITER (default_options\<lparr>MAXITER := 1\<rparr>)) two_level_start)
   \<and> uhf_program eigh_diagonal (default_options\<lparr>MAXITER := 1\<rparr>) two_level =
        Scf_raised MaxIterExceeded (two_level_pass1\<lparr>calls := calls two_level_pass1 @ [Core_clean]\<rparr>)"
proof -
  let ?opts = "default_options\<lparr>MAXITER := 1\<rparr>"
  have m: "1 \<le> MAXITER ?opts" by simp
  have nc: "\<not> converged ?opts 6 0" by (simp add: converged_def default_options_def)
  have run: "uhf_program eigh_diagonal ?opts two_level =
        Scf_raised MaxIterExceeded (two_level_pass1\<lparr>calls := calls two_level_pass1 @ [Core_clean]\<rparr>)"
    by (rule two_level_run1) (simp_all add: nc, simp add: default_options_def)
  from maxiter_raises [OF m, of two_level_statics eigh_diagonal two_level] nc
  have "is_Raise (scf_iteration eigh_diagonal ?opts two_level_statics (MAXITER ?opts) two_level_start)"
    by (simp add: start_dE start_dRMS)
  with m run show ?thesis by simp
qed

text \<open>
  Claim C5 as stated fails when the Pulay solve of the last pass raises first: with a limit
  of two passes the concrete run reaches the second pass, does not converge there, and ends
  with \<^verbatim>\<open>LinAlgError\<close>, not with the iteration-limit exception.
\<close>

theorem maxiter_counterexample:
  "uhf_program eigh_diagonal (default_options\<lparr>MAXITER := 2\<rparr>) two_level =
     Scf_raised LinAlgError two_level_pass2
   \<and> fst (last (printed two_level_pass2)) = MAXITER (default_options\<lparr>MAXITER := 2\<rparr>)
   \<and> \<not> line_converged (default_options\<lparr>MAXITER := 2\<rparr>) (last (printed two_level_pass2))
   \<and> LinAlgError \<noteq> MaxIterExceeded"
proof -
  let ?opts = "default_options\<lparr>MAXITER := 2\<rparr>"
  have "uhf_program eigh_diagonal ?opts two_level = Scf_raised LinAlgError two_level_pass2"
    by (rule two_level_run2) (simp_all add: converged_def default_options_def)
  then show ?thesis
    by (simp add: two_level_pass2_def line_converged_def converged_def default_options_def)
qed

subsection \<open>A singular Pulay system\<close>


lemma two_level_after_1:
  "\<not> converged opts 6 0 \<Longrightarrow> MAXITER opts \<noteq> 1 \<Longrightarrow>
   after_passes eigh_diagonal opts two_level_statics two_level_start (Suc 0) = Some two_level_pass1"
  by (simp add: pass1_Next)




subsection \<open>When the extrapolation is invoked\<close>

lemma scf_iteration_unfold:
  "\<not> converged opts (iter_dE g st) (iter_dRMS g st) \<Longrightarrow>
   scf_iteration eigh opts g k st =
     (case extrapolate k (after_check g k st) (fst (iter_fock g st)) (snd (iter_fock g st)) of
        Inl e \<Rightarrow> Raise e (after_check g k st)
      | Inr (Fa', Fb') \<Rightarrow>
          if k = MAXITER opts
          then Raise MaxIterExceeded
                 ((orbital_update eigh g (after_check g k st) Fa' Fb')
                    \<lparr>calls := calls (orbital_update eigh g (after_check g k st) Fa' Fb') @ [Core_clean]\<rparr>)
          else Next (orbital_update eigh g (after_check g k st) Fa' Fb'))"
  by (simp add: scf_iteration_def Let_def split_def split: sum.splits)

text \<open>
  Claim C7. At the start of pass \<open>n + 1\<close> of a run each history list has \<open>n\<close> entries, so when
  the extrapolation block is reached each has \<open>n + 1\<close>, the number of the pass. The Fock
  matrices handed to the orbital update are the un-extrapolated ones when the history holds
  fewer than two trial vectors, which is the case in the first pass only, and the results of
  \<^verbatim>\<open>diis_xtrap\<close> on the two histories otherwise.
\<close>

theorem diis_from_second_pass:
  assumes "after_passes eigh opts g (core_guess eigh env cs g) n = Some st"
  shows "length (F_list_a (after_check g (int n + 1) st)) = n + 1
       \<and> length (F_list_b (after_check g (int n + 1) st)) = n + 1
       \<and> length (R_list_a (after_check g (int n + 1) st)) = n + 1
       \<and> length (R_list_b (after_check g (int n + 1) st)) = n + 1
       \<and> extrapolate (int n + 1) (after_check g (int n + 1) st) Fa Fb =
           (if 2 \<le> length (F_list_a (after_check g (int n + 1) st))
            then (case diis_xtrap (F_list_a (after_check g (int n + 1) st))
                         (R_list_a (after_check g (int n + 1) st)) of
                    Inl e \<Rightarrow> Inl e
                  | Inr Fa' \<Rightarrow>
                      (case diis_xtrap (F_list_b (after_check g (int n + 1) st))
                              (R_list_b (after_check g (int n + 1) st)) of
                         Inl e \<Rightarrow> Inl e
                       | Inr Fb' \<Rightarrow> Inr (Fa', Fb')))
            else Inr (Fa, Fb))
       \<and> (2 \<le> length (F_list_a (after_check g (int n + 1) st)) \<longleftrightarrow> 1 \<le> n)
       \<and> (\<not> converged opts (iter_dE g st) (iter_dRMS g st) \<longrightarrow>
            scf_iteration eigh opts g (int n + 1) st =
              (case extrapolate (int n + 1) (after_check g (int n + 1) st)
                      (fst (iter_fock g st)) (snd (iter_fock g st)) of
                 Inl e \<Rightarrow> Raise e (after_check g (int n + 1) st)
               | Inr (Fa', Fb') \<Rightarrow>
                   if int n + 1 = MAXITER opts
                   then Raise MaxIterExceeded
                          ((orbital_update eigh g (after_check g (int n + 1) st) Fa' Fb')
                             \<lparr>calls := calls (orbital_update eigh g (after_check g (int n + 1) st)
                                                 Fa' Fb') @ [Core_clean]\<rparr>)
                   else Next (orbital_update eigh g (after_check g (int n + 1) st) Fa' Fb')))"
proof -
  from after_passes_lists [OF assms lists_core_guess]
  have len: "length (F_list_a st) = n" "length (F_list_b st) = n"
    "length (R_list_a st) = n" "length (R_list_b st) = n"
    by simp_all
  then have len': "length (F_list_a (after_check g (int n + 1) st)) = n + 1"
    "length (F_list_b (after_check g (int n + 1) st)) = n + 1"
    "length (R_list_a (after_check g (int n + 1) st)) = n + 1"
    "length (R_list_b (after_check g (int n + 1) st)) = n + 1"
    by (simp_all add: lists_after_check)
  have iff: "2 \<le> int n + 1 \<longleftrightarrow> 2 \<le> n + 1" by auto
  have ex: "extrapolate (int n + 1) (after_check g (int n + 1) st) Fa Fb =
           (if 2 \<le> length (F_list_a (after_check g (int n + 1) st))
            then (case diis_xtrap (F_list_a (after_check g (int n + 1) st))
                         (R_list_a (after_check g (int n + 1) st)) of
                    Inl e \<Rightarrow> Inl e
                  | Inr Fa' \<Rightarrow>
                      (case diis_xtrap (F_list_b (after_check g (int n + 1) st))
                              (R_list_b (after_check g (int n + 1) st)) of
                         Inl e \<Rightarrow> Inl e
                       | Inr Fb' \<Rightarrow> Inr (Fa', Fb')))
            else Inr (Fa, Fb))"
    unfolding len'(1) extrapolate_def iff by simp
  show ?thesis
    using len' ex scf_iteration_unfold [of opts g st eigh "int n + 1"] by auto
qed

theorem diis_from_second_pass_witness:
  "after_passes eigh_diagonal default_options two_level_statics
     (core_guess eigh_diagonal two_level two_level_calls two_level_statics) 0 = Some two_level_start
   \<and> extrapolate (int 0 + 1) (after_check two_level_statics (int 0 + 1) two_level_start)
         [[8, 0], [0, 1 / 2]] [[8, 0], [0, 1 / 2]]
       = Inr ([[8, 0], [0, 1 / 2]], [[8, 0], [0, 1 / 2]])
   \<and> after_passes eigh_diagonal default_options two_level_statics
     (core_guess eigh_diagonal two_level two_level_calls two_level_statics) 1 = Some two_level_pass1
   \<and> length (F_list_a (after_check two_level_statics (int 1 + 1) two_level_pass1)) = 2
   \<and> extrapolate (int 1 + 1) (after_check two_level_statics (int 1 + 1) two_level_pass1)
         [[- (1 / 2), 0], [0, 0]] [[- (1 / 2), 0], [0, 0]]
       = Inl LinAlgError"
proof -
  let ?st0 = "core_guess eigh_diagonal two_level two_level_calls two_level_statics"
  have a0: "after_passes eigh_diagonal default_options two_level_statics ?st0 0 = Some two_level_start"
    by (simp add: two_level_core_guess)
  have a1: "after_passes eigh_diagonal default_options two_level_statics ?st0 1 = Some two_level_pass1"
    unfolding two_level_core_guess One_nat_def
    by (rule two_level_after_1) (simp_all add: converged_def default_options_def)
  have ac: "after_check two_level_statics (int 1 + 1) two_level_pass1 = two_level_pass2"
    using pass1_after_check by simp
  from diis_from_second_pass [OF a0, of "[[8, 0], [0, 1 / 2]]" "[[8, 0], [0, 1 / 2]]"]
  have e0: "extrapolate (int 0 + 1) (after_check two_level_statics (int 0 + 1) two_level_start)
         [[8, 0], [0, 1 / 2]] [[8, 0], [0, 1 / 2]]
       = Inr ([[8, 0], [0, 1 / 2]], [[8, 0], [0, 1 / 2]])"
    by simp
  from diis_from_second_pass [OF a1, of "[[- (1 / 2), 0], [0, 0]]" "[[- (1 / 2), 0], [0, 0]]"]
  have e1: "length (F_list_a (after_check two_level_statics (int 1 + 1) two_level_pass1)) = 2
    \<and> extrapolate (int 1 + 1) (after_check two_level_statics (int 1 + 1) two_level_pass1)
         [[- (1 / 2), 0], [0, 0]] [[- (1 / 2), 0], [0, 0]]
       = Inl LinAlgError"
    unfolding ac by (simp add: two_level_diis)
  from a0 e0 a1 e1 show ?thesis by blast
qed

subsection \<open>The memory check\<close>

text \<open>
  Claim C8, as amended. The projected size of the tensor is \<open>nbf\<^sup>4\<close> entries of eight bytes in
  units of \<open>10\<^sup>9\<close> bytes, as the float64 product \<^verbatim>\<open>(nbf**4) * 8.e-9\<close> (\<^verbatim>\<open>nso()\<close> returns a C
  \<^verbatim>\<open>int\<close>, so the conversion of the power to float64 does not overflow). When it exceeds the
  budget the program raises at the check. The two-electron tensor is never requested (the
  outcome does not depend on it), and no later step and no pass is run. Work has been done
  by then, however: the calls made before the check are the construction of the
  wavefunction and of the integral helper, the computation of the overlap matrix and the
  reading of the three counts; the clean-up follows them.
\<close>

theorem memory_check_first:
  assumes "I_size (nso env) > numpy_memory opts" and "\<bar>nso env\<bar> < 2 ^ 31"
  shows "uhf_program eigh opts env =
           Setup_raised MemoryLimitExceeded
             [Wavefunction_build, MintsHelper, Mints_ao_overlap, Wfn_nso, Wfn_nalpha, Wfn_nbeta,
              Core_clean]
       \<and> static_quantities opts env =
           ([Wavefunction_build, MintsHelper, Mints_ao_overlap, Wfn_nso, Wfn_nalpha, Wfn_nbeta,
             Core_clean], Inl MemoryLimitExceeded)
       \<and> uhf_program eigh opts (env\<lparr>ao_eri := T\<rparr>) = uhf_program eigh opts env
       \<and> I_size (nso env) = fl64 (fl64 (real_of_int (nso env ^ 4)) * fl64 (8 / 10 ^ 9))"
  using assms by (simp add: uhf_program_def static_quantities_def I_size_def)

text \<open>
  With 500 basis functions and a budget of 500 the rounding decides: \<open>500\<^sup>4\<cdot>8/10\<^sup>9\<close> is \<open>500\<close>,
  the float64 product is \<open>500 + 2\<^sup>-\<^sup>4\<^sup>4\<close>, and the program raises.
\<close>

theorem memory_check_first_witness:
  "I_size (nso (two_level\<lparr>nso := 500\<rparr>)) > numpy_memory (default_options\<lparr>numpy_memory := 500\<rparr>)
   \<and> \<bar>nso (two_level\<lparr>nso := 500\<rparr>)\<bar> < 2 ^ 31
   \<and> I_size 500 = 500 + 1 / 2 ^ 44
   \<and> uhf_program eigh_diagonal (default_options\<lparr>numpy_memory := 500\<rparr>) (two_level\<lparr>nso := 500\<rparr>) =
           Setup_raised MemoryLimitExceeded
             [Wavefunction_build, MintsHelper, Mints_ao_overlap, Wfn_nso, Wfn_nalpha, Wfn_nbeta,
              Core_clean]"
proof -
  have h: "I_size (nso (two_level\<lparr>nso := 500\<rparr>)) > numpy_memory (default_options\<lparr>numpy_memory := 500\<rparr>)"
    by (simp add: I_size_500)
  have n: "\<bar>nso (two_level\<lparr>nso := 500\<rparr>)\<bar> < 2 ^ 31"
    by simp
  from memory_check_first [OF h n] h n I_size_500 show ?thesis by simp
qed

text \<open>
  Claim C8 as stated fails in its last part: with a budget of zero the concrete run raises
  at the check, and by then the wavefunction and the integral helper have been built, the
  overlap matrix has been computed and the three counts have been read.
\<close>

theorem memory_check_counterexample:
  "I_size (nso two_level) > numpy_memory (default_options\<lparr>numpy_memory := 0\<rparr>)
   \<and> uhf_program eigh_diagonal (default_options\<lparr>numpy_memory := 0\<rparr>) two_level =
           Setup_raised MemoryLimitExceeded
             [Wavefunction_build, MintsHelper, Mints_ao_overlap, Wfn_nso, Wfn_nalpha, Wfn_nbeta,
              Core_clean]
   \<and> takeWhile (\<lambda>c. c \<noteq> Core_clean)
         [Wavefunction_build, MintsHelper, Mints_ao_overlap, Wfn_nso, Wfn_nalpha, Wfn_nbeta,
          Core_clean]
       = [Wavefunction_build, MintsHelper, Mints_ao_overlap, Wfn_nso, Wfn_nalpha, Wfn_nbeta]
   \<and> Mints_ao_overlap \<in> set [Wavefunction_build, MintsHelper, Mints_ao_overlap, Wfn_nso,
         Wfn_nalpha, Wfn_nbeta, Core_clean]"
  by (simp add: uhf_program_def static_quantities_def two_level_def I_size_2)

subsection \<open>No validation of the configuration\<close>

lemma np_mean_squares_nonneg: "0 \<le> np_mean (squares R)"
proof -
  have "0 \<le> sum_list (concat (squares R))"
    by (rule sum_list_nonneg) (auto simp add: squares_def)
  then show ?thesis
    by (simp add: np_mean_def)
qed

lemma rms_pair_nonneg: "0 \<le> rms_pair r_a r_b"
  by (auto simp add: rms_pair_def np_mean_squares_nonneg intro!: add_nonneg_nonneg)

lemma iter_dRMS_nonneg: "0 \<le> iter_dRMS g st"
  by (simp add: iter_dRMS_def split_def Let_def rms_pair_nonneg)

lemma nonpositive_tolerance:
  "E_conv opts \<le> 0 \<or> D_conv opts \<le> 0 \<Longrightarrow> \<not> converged opts (iter_dE g st) (iter_dRMS g st)"
  using iter_dRMS_nonneg [of g st] by (auto simp add: converged_def)

lemma scf_loop_never:
  assumes "\<And>st. \<not> converged opts (iter_dE g st) (iter_dRMS g st)"
    and "ks \<noteq> []" "last ks = MAXITER opts"
  shows "isl (scf_loop eigh opts g ks st)"
  using assms(2,3)
proof (induction ks arbitrary: st)
  case Nil
  then show ?case by simp
next
  case (Cons k ks)
  show ?case
  proof (cases "scf_iteration eigh opts g k st")
    case (Next st')
    have "ks \<noteq> []"
    proof
      assume "ks = []"
      with Cons.prems have "k = MAXITER opts" by simp
      with Next scf_iteration_not_Next_last [of eigh opts g st] show False by simp
    qed
    with Cons.IH [of st'] Cons.prems Next show ?thesis by simp
  next
    case (Break st')
    with scf_iteration_printed [of eigh opts g k st, OF refl] assms(1) show ?thesis by simp
  next
    case (Raise e st')
    then show ?thesis by simp
  qed
qed

lemma scf_iteration_first_line:
  "printed st \<noteq> [] \<Longrightarrow>
   (case scf_iteration eigh opts g k st of
      Next st' \<Rightarrow> printed st' \<noteq> [] \<and> hd (printed st') = hd (printed st)
    | Break st' \<Rightarrow> printed st' \<noteq> [] \<and> hd (printed st') = hd (printed st)
    | Raise e st' \<Rightarrow> printed st' \<noteq> [] \<and> hd (printed st') = hd (printed st))"
  using scf_iteration_printed [of eigh opts g k st, OF refl]
  by (auto split: ctl.splits)

lemma scf_loop_first_line:
  "printed st \<noteq> [] \<Longrightarrow>
   (case scf_loop eigh opts g ks st of
      Inl (e, st') \<Rightarrow> printed st' \<noteq> [] \<and> hd (printed st') = hd (printed st)
    | Inr st' \<Rightarrow> printed st' \<noteq> [] \<and> hd (printed st') = hd (printed st))"
proof (induction ks arbitrary: st)
  case Nil
  then show ?case by simp
next
  case (Cons k ks)
  note P = scf_iteration_first_line [where eigh = eigh and opts = opts and g = g and k = k,
      OF Cons.prems]
  show ?case
  proof (cases "scf_iteration eigh opts g k st")
    case (Next st1)
    with P have 1: "printed st1 \<noteq> []" and 2: "hd (printed st1) = hd (printed st)"
      by simp_all
    from Cons.IH [OF 1] 2 Next show ?thesis
      by (auto split: sum.splits)
  next
    case (Break st1)
    with P show ?thesis by simp
  next
    case (Raise e st1)
    with P show ?thesis by simp
  qed
qed

lemma scf_loop_pass_1:
  assumes "printed st = []"
  shows "case scf_loop eigh opts g (k # ks) st of
      Inl (e, st') \<Rightarrow> printed st' \<noteq> [] \<and> fst (hd (printed st')) = k
    | Inr st' \<Rightarrow> printed st' \<noteq> [] \<and> fst (hd (printed st')) = k"
proof (cases "scf_iteration eigh opts g k st")
  case (Next st1)
  with scf_iteration_printed [of eigh opts g k st, OF refl] assms
  have 1: "printed st1 \<noteq> []" "fst (hd (printed st1)) = k" by simp_all
  from scf_loop_first_line [where eigh = eigh and opts = opts and g = g and ks = ks, OF 1(1)] 1(2) Next
  show ?thesis
    by (auto split: sum.splits)
next
  case (Break st1)
  with scf_iteration_printed [of eigh opts g k st, OF refl] assms show ?thesis by simp
next
  case (Raise e st1)
  with scf_iteration_printed [of eigh opts g k st, OF refl] assms show ?thesis by simp
qed

text \<open>
  The operations of the program keep the shapes: from arrays of the shapes of \<open>m\<close> basis
  functions, and an eigensolver that returns \<open>m \<times> m\<close> eigenvectors, every operand of every
  array operation of the set-up, the core guess and the passes has the shape that the
  operation expects, whatever the entries of the arrays and whatever the occupation counts
  are (the slice \<^verbatim>\<open>C[:, :norb]\<close> accepts every \<^verbatim>\<open>norb\<close>).
\<close>

lemma is_mat_dot:
  assumes "0 < m" "is_mat m m X" "is_mat m m Y"
  shows "is_mat m m (dot X Y)"
  using assms by (simp add: dot_def is_mat_def [of m m "map _ _"] is_mat_length is_mat_ncols list_all_length)

lemma is_mat_scal: "is_mat m n X \<Longrightarrow> is_mat m n (scal c X)"
  by (simp add: scal_def is_mat_def list_all_length)

lemma is_mat_zeros_like: "is_mat m n X \<Longrightarrow> is_mat m n (zeros_like X)"
  by (simp add: zeros_like_def is_mat_def list_all_length)

lemma is_mat_einsum_pi_qi: "length X = m \<Longrightarrow> length Y = m \<Longrightarrow> is_mat m m (einsum_pi_qi X Y)"
  by (simp add: einsum_pi_qi_def is_mat_def list_all_length)

lemma is_mat_diag_F:
  assumes "0 < m" "is_mat m m A" "is_mat m m F"
    and "\<And>X. is_mat m m X \<Longrightarrow> is_mat m m (snd (eigh X))"
  shows "is_mat m m (fst (diag_F eigh A F n))" "is_mat m m (snd (diag_F eigh A F n))"
proof -
  have Fp: "is_mat m m (dot (dot A F) A)"
    using assms(1-3) by (intro is_mat_dot)
  then have "is_mat m m (snd (eigh (dot (dot A F) A)))" by (rule assms(4))
  with assms(1,2) have C: "is_mat m m (dot A (snd (eigh (dot (dot A F) A))))"
    by (intro is_mat_dot)
  then show "is_mat m m (fst (diag_F eigh A F n))"
    by (simp add: diag_F_def Let_def split_def)
  from C have "length (dot A (snd (eigh (dot (dot A F) A)))) = m" by (rule is_mat_length)
  then show "is_mat m m (snd (diag_F eigh A F n))"
    by (simp add: diag_F_def Let_def split_def is_mat_einsum_pi_qi)
qed

lemma is_mat_fock_build:
  assumes "is_tensor4 m I" "is_mat m m H" "is_mat m m D_a" "is_mat m m D_b"
  shows "is_mat m m (fst (fock_build I H D_a D_b))" "is_mat m m (snd (fock_build I H D_a D_b))"
  using assms
  by (simp_all add: fock_build_def Let_def is_mat_mat_add is_mat_mat_sub is_mat_einsum_pqrs_rs
      is_mat_einsum_prqs_rs)

lemma is_mat_diis_resid:
  assumes "0 < m" "is_mat m m A" "is_mat m m S" "is_mat m m F" "is_mat m m D"
  shows "is_mat m m (diis_resid A S F D)"
  unfolding diis_resid_def using assms by (intro is_mat_dot is_mat_mat_sub)

lemma is_mat_foldl_xtrap:
  assumes "list_all (is_mat m m) F_list" "is_mat m m acc" "\<forall>x\<in>set xs. x < length F_list"
  shows "is_mat m m (foldl (\<lambda>F_DIIS x. mat_add F_DIIS (scal (coeff ! x) (F_list ! x))) acc xs)"
  using assms(2,3)
proof (induction xs arbitrary: acc)
  case Nil
  then show ?case by simp
next
  case (Cons x xs)
  from Cons.prems(2) assms(1) have "is_mat m m (F_list ! x)"
    by (simp add: list_all_length)
  with Cons.prems(1) have "is_mat m m (mat_add acc (scal (coeff ! x) (F_list ! x)))"
    by (intro is_mat_mat_add is_mat_scal)
  from Cons.IH [OF this] Cons.prems(2) show ?case by simp
qed

lemma is_mat_diis_xtrap:
  assumes "list_all (is_mat m m) F_list" "F_list \<noteq> []" "diis_xtrap F_list DIIS_RESID = Inr F"
  shows "is_mat m m F"
proof -
  from assms(1,2) have "is_mat m m (F_list ! 0)"
    by (simp add: list_all_length)
  then have z: "is_mat m m (zeros_like (F_list ! 0))" by (rule is_mat_zeros_like)
  from assms(3) obtain coeff where
    "F = foldl (\<lambda>F_DIIS x. mat_add F_DIIS (scal (coeff ! x) (F_list ! x)))
           (zeros_like (F_list ! 0)) [0..<length F_list]"
    by (auto simp add: diis_xtrap_def Let_def split: if_splits sum.splits)
  with is_mat_foldl_xtrap [OF assms(1) z, of "[0..<length F_list]" coeff] show ?thesis by simp
qed

lemma shaped_static_quantities:
  assumes "well_shaped m env" "static_quantities opts env = (cs, Inr g)"
  shows "shaped_statics m g"
  using assms
  by (auto simp add: well_shaped_def static_quantities_def shaped_statics_def Let_def
      is_mat_mat_add split: if_splits)

lemma shaped_core_guess:
  assumes "shaped_statics m g" "\<And>X. is_mat m m X \<Longrightarrow> is_mat m m (snd (eigh X))"
  shows "shaped_state m (core_guess eigh env cs g)"
proof -
  from assms(1) have m: "0 < m" and A: "is_mat m m (var_A g)" and H: "is_mat m m (var_H g)"
    by (simp_all add: shaped_statics_def)
  note is_mat_diag_F [OF m A H assms(2)]
  then show ?thesis
    by (simp add: shaped_state_def core_guess_def Let_def split_def)
qed

lemma shaped_iter:
  assumes "shaped_statics m g" "shaped_state m st"
  shows "is_mat m m (fst (iter_fock g st))" "is_mat m m (snd (iter_fock g st))"
    "is_mat m m (fst (iter_resid g st))" "is_mat m m (snd (iter_resid g st))"
proof -
  from assms have I: "is_tensor4 m (var_I g)" and H: "is_mat m m (var_H g)"
    and A: "is_mat m m (var_A g)" and S: "is_mat m m (var_S g)" and m: "0 < m"
    and Da: "is_mat m m (Da st)" and Db: "is_mat m m (Db st)"
    by (simp_all add: shaped_statics_def shaped_state_def)
  show Fa: "is_mat m m (fst (iter_fock g st))" and Fb: "is_mat m m (snd (iter_fock g st))"
    unfolding iter_fock_def by (rule is_mat_fock_build [OF I H Da Db])+
  show "is_mat m m (fst (iter_resid g st))" "is_mat m m (snd (iter_resid g st))"
    using is_mat_diis_resid [OF m A S Fa Da] is_mat_diis_resid [OF m A S Fb Db]
    by (simp_all add: iter_resid_def split_def Let_def)
qed

lemma shaped_at_check:
  assumes "shaped_statics m g" "shaped_state m st"
  shows "shaped_state m (at_check g k st)"
  using shaped_iter [OF assms] assms(2)
  by (simp add: shaped_state_def at_check_def append_history_def Let_def split_def)

lemma shaped_after_check:
  assumes "shaped_statics m g" "shaped_state m st"
  shows "shaped_state m (after_check g k st)"
  using shaped_at_check [OF assms, of k]
  by (simp add: shaped_state_def after_check_def Let_def)

lemma shaped_orbital_update:
  assumes "shaped_statics m g" "shaped_state m st" "is_mat m m Fa" "is_mat m m Fb"
    and "\<And>X. is_mat m m X \<Longrightarrow> is_mat m m (snd (eigh X))"
  shows "shaped_state m (orbital_update eigh g st Fa Fb)"
proof -
  from assms(1) have m: "0 < m" and A: "is_mat m m (var_A g)"
    by (simp_all add: shaped_statics_def)
  from is_mat_diag_F [OF m A assms(3) assms(5)] is_mat_diag_F [OF m A assms(4) assms(5)] assms(2)
  show ?thesis
    by (simp add: shaped_state_def orbital_update_def Let_def split_def)
qed

lemma shaped_extrapolate:
  assumes "shaped_state m st" "F_list_a st \<noteq> []" "F_list_b st \<noteq> []"
    and "is_mat m m Fa" "is_mat m m Fb" "extrapolate k st Fa Fb = Inr (Fa', Fb')"
  shows "is_mat m m Fa' \<and> is_mat m m Fb'"
proof (cases "2 \<le> k")
  case True
  with assms(6) have "diis_xtrap (F_list_a st) (R_list_a st) = Inr Fa'"
    "diis_xtrap (F_list_b st) (R_list_b st) = Inr Fb'"
    by (auto simp add: extrapolate_def split: sum.splits)
  with assms(1-3) show ?thesis
    by (auto simp add: shaped_state_def intro: is_mat_diis_xtrap)
next
  case False
  with assms(4-6) show ?thesis by (simp add: extrapolate_def)
qed

lemma shaped_scf_iteration:
  assumes g: "shaped_statics m g" and st: "shaped_state m st"
    and eigh: "\<And>X. is_mat m m X \<Longrightarrow> is_mat m m (snd (eigh X))"
  shows "case scf_iteration eigh opts g k st of
           Next st' \<Rightarrow> shaped_state m st'
         | Break st' \<Rightarrow> shaped_state m st'
         | Raise e st' \<Rightarrow> shaped_state m st'"
proof -
  note it = shaped_iter [OF g st]
  note ac = shaped_after_check [OF g st, of k]
  have ne: "F_list_a (after_check g k st) \<noteq> []" "F_list_b (after_check g k st) \<noteq> []"
    by (simp_all add: lists_after_check)
  have upd: "shaped_state m (orbital_update eigh g (after_check g k st) Fa' Fb')"
    if "extrapolate k (after_check g k st) (fst (iter_fock g st)) (snd (iter_fock g st))
          = Inr (Fa', Fb')" for Fa' Fb'
    using shaped_extrapolate [OF ac ne it(1,2) that] shaped_orbital_update [OF g ac _ _ eigh]
    by simp
  have upd': "shaped_state m (orbital_update eigh g (after_check g k st) Fa' Fb'\<lparr>calls := cs\<rparr>)"
    if "extrapolate k (after_check g k st) (fst (iter_fock g st)) (snd (iter_fock g st))
          = Inr (Fa', Fb')" for Fa' Fb' cs
    using upd [OF that] by (simp add: shaped_state_def)
  show ?thesis
    using shaped_at_check [OF g st, of k] ac upd upd'
    by (auto simp add: scf_iteration_def Let_def split_def split: sum.splits)
qed

lemma shaped_scf_loop:
  assumes g: "shaped_statics m g" and eigh: "\<And>X. is_mat m m X \<Longrightarrow> is_mat m m (snd (eigh X))"
  shows "shaped_state m st \<Longrightarrow>
         (case scf_loop eigh opts g ks st of
            Inl (e, st') \<Rightarrow> shaped_state m st'
          | Inr st' \<Rightarrow> shaped_state m st')"
proof (induction ks arbitrary: st)
  case Nil
  then show ?case by simp
next
  case (Cons k ks)
  have "case scf_iteration eigh opts g k st of
           Next st' \<Rightarrow> shaped_state m st'
         | Break st' \<Rightarrow> shaped_state m st'
         | Raise e st' \<Rightarrow> shaped_state m st'"
    using g Cons.prems by (rule shaped_scf_iteration) (rule eigh)
  with Cons.IH show ?case
    by (cases "scf_iteration eigh opts g k st") simp_all
qed

lemma eigh_diagonal_shape: "is_mat m m X \<Longrightarrow> is_mat m m (snd (eigh_diagonal X))"
  by (simp add: eigh_diagonal_def Let_def is_mat_def list_all_length)

text \<open>A run with a limit of one pass whose first pass does not converge.\<close>

lemma program_single_pass:
  assumes sq: "static_quantities opts env = (cs, Inr g)" and m: "MAXITER opts = 1"
    and nc: "\<not> converged opts (iter_dE g (core_guess eigh env cs g))
                (iter_dRMS g (core_guess eigh env cs g))"
  shows "case uhf_program eigh opts env of
           Scf_raised e st \<Rightarrow>
             e = MaxIterExceeded
             \<and> printed st = [(1, iter_energy g (core_guess eigh env cs g),
                               iter_dE g (core_guess eigh env cs g),
                               iter_dRMS g (core_guess eigh env cs g))]
             \<and> F_list_a st = [fst (iter_fock g (core_guess eigh env cs g))]
             \<and> F_list_b st = [snd (iter_fock g (core_guess eigh env cs g))]
         | _ \<Rightarrow> False"
proof -
  have ks: "[1..MAXITER opts] = [1]" using m by simp
  show ?thesis
    unfolding program_loop [OF sq] ks
    using m nc
    by (simp add: scf_iteration_def Let_def split_def extrapolate_def printed_orbital_update
        printed_after_check printed_core_guess lists_orbital_update lists_after_check
        lists_core_guess)
qed

lemma diag_F_two_level_5:
  "diag_F eigh_diagonal [[1, 0], [0, 1]] [[a, 0], [0, d]] 5 =
     (if a \<le> d then ([[1, 0], [0, 1]], [[1, 0], [0, 1]]) else ([[0, 1], [1, 0]], [[1, 0], [0, 1]]))"
  by (simp add: diag_F_def array_defs eigh_diagonal_2 Let_def)

lemma overfull_static_quantities:
  "2 \<le> numpy_memory opts \<Longrightarrow>
   static_quantities opts (two_level\<lparr>wfn_nalpha := 5\<rparr>)
     = (two_level_calls, Inr (two_level_statics\<lparr>nalpha := 5\<rparr>))"
  by (simp add: static_quantities_def two_level_def two_level_statics_def two_level_calls_def
      I_size_2 mat_add_def)

lemma overfull_core_guess:
  "core_guess eigh_diagonal (two_level\<lparr>wfn_nalpha := 5\<rparr>) two_level_calls
     (two_level_statics\<lparr>nalpha := 5\<rparr>) = two_level_start\<lparr>Da := [[1, 0], [0, 1]]\<rparr>"
  by (simp add: core_guess_def two_level_statics_def diag_F_two_level diag_F_two_level_5
      two_level_start_def two_level_def)

lemma overfull_fock:
  "iter_fock (two_level_statics\<lparr>nalpha := 5\<rparr>) (two_level_start\<lparr>Da := [[1, 0], [0, 1]]\<rparr>)
     = ([[17 / 2, 0], [0, 1 / 2]], [[9, 0], [0, 3 / 2]])"
  by (simp add: iter_fock_def two_level_statics_def two_level_start_def fock_build_def
      two_level_eri_def array_defs Let_def)

lemma overfull_resid:
  "iter_resid (two_level_statics\<lparr>nalpha := 5\<rparr>) (two_level_start\<lparr>Da := [[1, 0], [0, 1]]\<rparr>)
     = ([[0, 0], [0, 0]], [[0, 0], [0, 0]])"
  by (simp add: iter_resid_def overfull_fock)
    (simp add: two_level_statics_def two_level_start_def diis_resid_diagonal)

lemma overfull_energy:
  "iter_energy (two_level_statics\<lparr>nalpha := 5\<rparr>) (two_level_start\<lparr>Da := [[1, 0], [0, 1]]\<rparr>)
     = 13 / 2"
  by (simp add: iter_energy_def overfull_fock)
    (simp add: two_level_statics_def two_level_start_def uhf_energy_def array_defs)

lemma overfull_dE:
  "iter_dE (two_level_statics\<lparr>nalpha := 5\<rparr>) (two_level_start\<lparr>Da := [[1, 0], [0, 1]]\<rparr>)
     = 13 / 2"
  by (simp add: iter_dE_def overfull_energy) (simp add: two_level_start_def)

lemma overfull_dRMS:
  "iter_dRMS (two_level_statics\<lparr>nalpha := 5\<rparr>) (two_level_start\<lparr>Da := [[1, 0], [0, 1]]\<rparr>) = 0"
  by (simp add: iter_dRMS_def overfull_resid rms_zero)

lemma overfull_run:
  "case uhf_program eigh_diagonal (default_options\<lparr>MAXITER := 1\<rparr>) (two_level\<lparr>wfn_nalpha := 5\<rparr>) of
     Scf_raised e st \<Rightarrow>
       e = MaxIterExceeded \<and> printed st = [(1, 13 / 2, 13 / 2, 0)]
       \<and> F_list_a st = [[[17 / 2, 0], [0, 1 / 2]]] \<and> F_list_b st = [[[9, 0], [0, 3 / 2]]]
   | _ \<Rightarrow> False"
proof -
  let ?opts = "default_options\<lparr>MAXITER := 1\<rparr>"
  have sq: "static_quantities ?opts (two_level\<lparr>wfn_nalpha := 5\<rparr>)
     = (two_level_calls, Inr (two_level_statics\<lparr>nalpha := 5\<rparr>))"
    by (rule overfull_static_quantities) (simp add: default_options_def)
  have m: "MAXITER ?opts = 1" by simp
  have nc: "\<not> converged ?opts
      (iter_dE (two_level_statics\<lparr>nalpha := 5\<rparr>)
         (core_guess eigh_diagonal (two_level\<lparr>wfn_nalpha := 5\<rparr>) two_level_calls
            (two_level_statics\<lparr>nalpha := 5\<rparr>)))
      (iter_dRMS (two_level_statics\<lparr>nalpha := 5\<rparr>)
         (core_guess eigh_diagonal (two_level\<lparr>wfn_nalpha := 5\<rparr>) two_level_calls
            (two_level_statics\<lparr>nalpha := 5\<rparr>)))"
    unfolding overfull_core_guess overfull_dE overfull_dRMS
    by (simp add: converged_def default_options_def)
  from program_single_pass [OF sq m nc] show ?thesis
    unfolding overfull_core_guess overfull_dE overfull_dRMS overfull_energy overfull_fock
      fst_conv snd_conv .
qed

lemma skew_static_quantities:
  "2 \<le> numpy_memory opts \<Longrightarrow>
   static_quantities opts (two_level\<lparr>ao_eri := nonsymmetric_eri\<rparr>)
     = (two_level_calls, Inr (two_level_statics\<lparr>var_I := nonsymmetric_eri\<rparr>))"
  by (simp add: static_quantities_def two_level_def two_level_statics_def two_level_calls_def
      I_size_2 mat_add_def)

lemma skew_core_guess:
  "core_guess eigh_diagonal (two_level\<lparr>ao_eri := nonsymmetric_eri\<rparr>) two_level_calls
     (two_level_statics\<lparr>var_I := nonsymmetric_eri\<rparr>) = two_level_start"
  by (simp add: core_guess_def two_level_statics_def diag_F_two_level
      two_level_start_def two_level_def)

lemma skew_fock:
  "iter_fock (two_level_statics\<lparr>var_I := nonsymmetric_eri\<rparr>) two_level_start
     = ([[8, 0], [0, 9 / 2]], [[8, 0], [0, 9 / 2]])"
  by (simp add: iter_fock_def two_level_statics_def two_level_start_def fock_build_def
      nonsymmetric_eri_def array_defs Let_def)

lemma skew_resid:
  "iter_resid (two_level_statics\<lparr>var_I := nonsymmetric_eri\<rparr>) two_level_start
     = ([[0, 0], [0, 0]], [[0, 0], [0, 0]])"
  by (simp add: iter_resid_def skew_fock)
    (simp add: two_level_statics_def two_level_start_def diis_resid_diagonal)

lemma skew_energy:
  "iter_energy (two_level_statics\<lparr>var_I := nonsymmetric_eri\<rparr>) two_level_start = 6"
  by (simp add: iter_energy_def skew_fock)
    (simp add: two_level_statics_def two_level_start_def uhf_energy_def array_defs)

lemma skew_dE:
  "iter_dE (two_level_statics\<lparr>var_I := nonsymmetric_eri\<rparr>) two_level_start = 6"
  by (simp add: iter_dE_def skew_energy) (simp add: two_level_start_def)

lemma skew_dRMS:
  "iter_dRMS (two_level_statics\<lparr>var_I := nonsymmetric_eri\<rparr>) two_level_start = 0"
  by (simp add: iter_dRMS_def skew_resid rms_zero)

lemma skew_run:
  "case uhf_program eigh_diagonal (default_options\<lparr>MAXITER := 1\<rparr>)
          (two_level\<lparr>ao_eri := nonsymmetric_eri\<rparr>) of
     Scf_raised e st \<Rightarrow>
       e = MaxIterExceeded \<and> printed st = [(1, 6, 6, 0)]
       \<and> F_list_a st = [[[8, 0], [0, 9 / 2]]] \<and> F_list_b st = [[[8, 0], [0, 9 / 2]]]
   | _ \<Rightarrow> False"
proof -
  let ?opts = "default_options\<lparr>MAXITER := 1\<rparr>"
  have sq: "static_quantities ?opts (two_level\<lparr>ao_eri := nonsymmetric_eri\<rparr>)
     = (two_level_calls, Inr (two_level_statics\<lparr>var_I := nonsymmetric_eri\<rparr>))"
    by (rule skew_static_quantities) (simp add: default_options_def)
  have m: "MAXITER ?opts = 1" by simp
  have nc: "\<not> converged ?opts
      (iter_dE (two_level_statics\<lparr>var_I := nonsymmetric_eri\<rparr>)
         (core_guess eigh_diagonal (two_level\<lparr>ao_eri := nonsymmetric_eri\<rparr>) two_level_calls
            (two_level_statics\<lparr>var_I := nonsymmetric_eri\<rparr>)))
      (iter_dRMS (two_level_statics\<lparr>var_I := nonsymmetric_eri\<rparr>)
         (core_guess eigh_diagonal (two_level\<lparr>ao_eri := nonsymmetric_eri\<rparr>) two_level_calls
            (two_level_statics\<lparr>var_I := nonsymmetric_eri\<rparr>)))"
    unfolding skew_core_guess skew_dE skew_dRMS
    by (simp add: converged_def default_options_def)
  from program_single_pass [OF sq m nc] show ?thesis
    unfolding skew_core_guess skew_dE skew_dRMS skew_energy skew_fock fst_conv snd_conv .
qed

lemma two_level_shape: "well_shaped 2 two_level"
  by (simp add: well_shaped_def two_level_def two_level_eri_shape) (simp add: is_mat_def)

lemma nonsymmetric_eri_shape: "is_tensor4 2 nonsymmetric_eri"
  by (simp add: is_tensor4_def is_mat_def nonsymmetric_eri_def)

text \<open>
  Claim C9, as amended. For integral arrays of the shapes of \<open>m\<close> basis functions, the only
  failure at set-up is the memory check: whatever the entries of the arrays (symmetric or
  not), the occupation counts and the tolerances are, when the memory check passes and the
  limit allows a pass, the first pass is run with them and prints its line, and all arrays
  of the run keep their shapes. A tolerance that is not positive is never reported as
  such; it makes the convergence test unsatisfiable, so the run ends with an exception
  raised from the loop. (Arrays of other shapes are not checked either; NumPy raises on
  the first operation whose operands do not fit, which is outside this model.)
\<close>

theorem no_configuration_check:
  assumes ws: "well_shaped m env" and small: "int m < 2 ^ 31"
    and eigh: "\<And>X. is_mat m m X \<Longrightarrow> is_mat m m (snd (eigh X))"
  shows "(is_Setup_raised (uhf_program eigh opts env) \<longleftrightarrow> I_size (nso env) > numpy_memory opts)
   \<and> (1 \<le> MAXITER opts \<and> \<not> I_size (nso env) > numpy_memory opts \<longrightarrow>
        (case uhf_program eigh opts env of
           Setup_raised e cs \<Rightarrow> False
         | Scf_raised e st \<Rightarrow>
             printed st \<noteq> [] \<and> fst (hd (printed st)) = 1 \<and> shaped_state m st
         | Scf_converged st \<Rightarrow>
             printed st \<noteq> [] \<and> fst (hd (printed st)) = 1 \<and> shaped_state m st))
   \<and> (1 \<le> MAXITER opts \<and> \<not> I_size (nso env) > numpy_memory opts
        \<and> (E_conv opts \<le> 0 \<or> D_conv opts \<le> 0) \<longrightarrow>
        is_Scf_raised (uhf_program eigh opts env))"
proof (cases "I_size (nso env) > numpy_memory opts")
  case True
  then show ?thesis
    by (simp add: uhf_program_def static_quantities_def)
next
  case False
  with static_quantities_cases [of opts env] obtain cs g
    where sq: "static_quantities opts env = (cs, Inr g)"
    by auto
  note prog = program_loop [OF sq, of eigh]
  have g: "shaped_statics m g"
    using ws sq by (rule shaped_static_quantities)
  have st0: "shaped_state m (core_guess eigh env cs g)"
    using g by (rule shaped_core_guess) (rule eigh)
  have sh: "case scf_loop eigh opts g [1..MAXITER opts] (core_guess eigh env cs g) of
            Inl (e, st') \<Rightarrow> shaped_state m st'
          | Inr st' \<Rightarrow> shaped_state m st'"
    using g by (rule shaped_scf_loop) (simp_all add: eigh st0)
  have 1: "\<not> is_Setup_raised (uhf_program eigh opts env)"
    unfolding prog by (simp split: sum.splits)
  have 2: "case uhf_program eigh opts env of
           Setup_raised e cs \<Rightarrow> False
         | Scf_raised e st \<Rightarrow>
             printed st \<noteq> [] \<and> fst (hd (printed st)) = 1 \<and> shaped_state m st
         | Scf_converged st \<Rightarrow>
             printed st \<noteq> [] \<and> fst (hd (printed st)) = 1 \<and> shaped_state m st"
    if m: "1 \<le> MAXITER opts"
  proof -
    from m have ks: "[1..MAXITER opts] = 1 # [1 + 1..MAXITER opts]" by (rule upto_rec1)
    from scf_loop_pass_1 [where eigh = eigh and opts = opts and g = g and k = 1
        and ks = "[1 + 1..MAXITER opts]", OF printed_core_guess [of eigh env cs g]] sh
    show ?thesis
      unfolding prog ks by (auto split: sum.splits)
  qed
  have 3: "is_Scf_raised (uhf_program eigh opts env)"
    if m: "1 \<le> MAXITER opts" and tol: "E_conv opts \<le> 0 \<or> D_conv opts \<le> 0"
  proof -
    from upto_last [OF m] nonpositive_tolerance [OF tol]
    have "isl (scf_loop eigh opts g [1..MAXITER opts] (core_guess eigh env cs g))"
      by (intro scf_loop_never) simp_all
    then show ?thesis
      unfolding prog by (auto split: sum.splits)
  qed
  from False 1 2 3 show ?thesis by simp
qed

theorem no_configuration_check_witness:
  "well_shaped 2 two_level \<and> int 2 < 2 ^ 31
   \<and> 1 \<le> MAXITER (default_options\<lparr>E_conv := 0\<rparr>)
   \<and> \<not> I_size (nso two_level) > numpy_memory (default_options\<lparr>E_conv := 0\<rparr>)
   \<and> E_conv (default_options\<lparr>E_conv := 0\<rparr>) \<le> 0
   \<and> \<not> is_Setup_raised (uhf_program eigh_diagonal (default_options\<lparr>E_conv := 0\<rparr>) two_level)
   \<and> is_Scf_raised (uhf_program eigh_diagonal (default_options\<lparr>E_conv := 0\<rparr>) two_level)"
proof -
  let ?opts = "default_options\<lparr>E_conv := 0\<rparr>"
  have n: "int 2 < 2 ^ 31" by simp
  have m: "1 \<le> MAXITER ?opts" by (simp add: default_options_def)
  have mem: "\<not> I_size (nso two_level) > numpy_memory ?opts"
    by (simp add: I_size_2 two_level_def default_options_def)
  have tol: "E_conv ?opts \<le> 0" by simp
  from no_configuration_check [where eigh = eigh_diagonal and opts = ?opts, OF two_level_shape n
      eigh_diagonal_shape] m mem tol two_level_shape
  show ?thesis by simp
qed

text \<open>
  Claim C9 as stated fails for each kind of input that has the right shapes. With a limit
  of one pass, none of the three runs is stopped at set-up; each runs the first pass,
  prints its line and ends with the iteration-limit exception at the end of that pass: the
  concrete run with a density tolerance of zero; the concrete run with five \<open>\<alpha>\<close> electrons
  in two basis functions, whose Fock matrices are built from the density of both orbitals;
  and the concrete run with the non-symmetric tensor, whose Fock matrices have the entry
  \<open>9/2\<close> where the symmetric tensor gives \<open>1/2\<close>.
\<close>

theorem configuration_counterexample:
  "well_shaped 2 two_level
   \<and> D_conv (default_options\<lparr>D_conv := 0, MAXITER := 1\<rparr>) \<le> 0
   \<and> uhf_program eigh_diagonal (default_options\<lparr>D_conv := 0, MAXITER := 1\<rparr>) two_level =
       Scf_raised MaxIterExceeded (two_level_pass1\<lparr>calls := calls two_level_pass1 @ [Core_clean]\<rparr>)
   \<and> printed (two_level_pass1\<lparr>calls := calls two_level_pass1 @ [Core_clean]\<rparr>) = [(1, 6, 6, 0)]
   \<and> well_shaped 2 (two_level\<lparr>wfn_nalpha := 5\<rparr>)
   \<and> nso (two_level\<lparr>wfn_nalpha := 5\<rparr>) < wfn_nalpha (two_level\<lparr>wfn_nalpha := 5\<rparr>)
   \<and> (case uhf_program eigh_diagonal (default_options\<lparr>MAXITER := 1\<rparr>)
             (two_level\<lparr>wfn_nalpha := 5\<rparr>) of
         Scf_raised e st \<Rightarrow>
           e = MaxIterExceeded \<and> printed st = [(1, 13 / 2, 13 / 2, 0)]
           \<and> F_list_a st = [[[17 / 2, 0], [0, 1 / 2]]] \<and> F_list_b st = [[[9, 0], [0, 3 / 2]]]
       | _ \<Rightarrow> False)
   \<and> well_shaped 2 (two_level\<lparr>ao_eri := nonsymmetric_eri\<rparr>)
   \<and> nonsymmetric_eri ! 1 ! 1 ! 0 ! 0 \<noteq> nonsymmetric_eri ! 0 ! 0 ! 1 ! 1
   \<and> (case uhf_program eigh_diagonal (default_options\<lparr>MAXITER := 1\<rparr>)
             (two_level\<lparr>ao_eri := nonsymmetric_eri\<rparr>) of
         Scf_raised e st \<Rightarrow>
           e = MaxIterExceeded \<and> printed st = [(1, 6, 6, 0)]
           \<and> F_list_a st = [[[8, 0], [0, 9 / 2]]] \<and> F_list_b st = [[[8, 0], [0, 9 / 2]]]
       | _ \<Rightarrow> False)"
proof -
  let ?opts = "default_options\<lparr>D_conv := 0, MAXITER := 1\<rparr>"
  have a: "uhf_program eigh_diagonal ?opts two_level =
       Scf_raised MaxIterExceeded (two_level_pass1\<lparr>calls := calls two_level_pass1 @ [Core_clean]\<rparr>)"
    by (rule two_level_run1) (simp_all add: converged_def default_options_def)
  have a': "printed (two_level_pass1\<lparr>calls := calls two_level_pass1 @ [Core_clean]\<rparr>) = [(1, 6, 6, 0)]"
    by (simp add: two_level_pass1_def)
  have b: "well_shaped 2 (two_level\<lparr>wfn_nalpha := 5\<rparr>)"
    using two_level_shape by (simp add: well_shaped_def)
  have b': "nso (two_level\<lparr>wfn_nalpha := 5\<rparr>) < wfn_nalpha (two_level\<lparr>wfn_nalpha := 5\<rparr>)"
    by (simp add: two_level_def)
  have c: "well_shaped 2 (two_level\<lparr>ao_eri := nonsymmetric_eri\<rparr>)"
    using two_level_shape by (simp add: well_shaped_def nonsymmetric_eri_shape)
  have c': "nonsymmetric_eri ! 1 ! 1 ! 0 ! 0 \<noteq> nonsymmetric_eri ! 0 ! 0 ! 1 ! 1"
    by (simp add: nonsymmetric_eri_def)
  have d: "D_conv ?opts \<le> 0" by simp
  from two_level_shape d a a' b b' overfull_run c c' skew_run show ?thesis
    by (intro conjI)
qed

subsection \<open>The orbital update\<close>

lemma length_dot: "length (dot X Y) = length X"
  by (simp add: dot_def)

lemma length_dot_nth: "p < length X \<Longrightarrow> length (dot X Y ! p) = ncols Y"
  by (simp add: dot_def)

lemma slice_to_take: "0 \<le> n \<Longrightarrow> slice_to n xs = take (nat n) xs"
  by (simp add: slice_to_def)

lemma einsum_pi_qi_take:
  assumes C: "length C = m" "\<And>p. p < m \<Longrightarrow> length (C ! p) = m" and n: "n \<le> m"
  shows "einsum_pi_qi (map (take n) C) (map (take n) C) =
           map (\<lambda>p. map (\<lambda>q. \<Sum>i\<leftarrow>[0..<n]. C ! p ! i * C ! q ! i) [0..<m]) [0..<m]"
proof (cases "m = 0")
  case True
  with C show ?thesis by (simp add: einsum_pi_qi_def)
next
  case False
  with C obtain r C' where CC: "C = r # C'" by (cases C) auto
  with C(2) [of 0] False have "length r = m" by simp
  with CC n have nc: "ncols (map (take n) C) = n"
    by (simp add: ncols_def)
  show ?thesis
    unfolding einsum_pi_qi_def nc
    using C by (auto intro!: sum_list_upt_cong)
qed

text \<open>
  Claim C6. For matrices of dimension \<open>m\<close>, a symmetric \<open>A\<close> and a count \<open>0 \<le> n \<le> m\<close>,
  \<^verbatim>\<open>diag_F\<close> computes what its contract says: the coefficients \<open>C = A\<cdot>C'\<close> for the eigenvectors
  \<open>C'\<close> of \<open>A\<^sup>t\<cdot>F\<cdot>A\<close> as \<^verbatim>\<open>eigh\<close> returns them (in the order of ascending eigenvalues), and the
  density with the entries \<open>\<Sum>i<n. C\<^sub>p\<^sub>i C\<^sub>q\<^sub>i\<close> over the first \<open>n\<close> columns. The result is a
  function of \<open>F\<close>, \<open>A\<close>, \<open>n\<close> and the eigensolver, and the core guess and the update inside
  the loop are both calls of \<^verbatim>\<open>diag_F\<close>, with \<open>H\<close> and with the Fock matrices.
\<close>

theorem diag_F_contract:
  assumes "is_mat m m A" "mat_transpose A = A" "is_mat m m F"
    and "is_mat m m (snd (eigh (dot (dot A F) A)))"
    and "0 \<le> n" "n \<le> int m"
  shows "diag_F eigh A F n = diag_F_spec eigh m A F (nat n)
       \<and> (Ca (core_guess eigh env cs g), Da (core_guess eigh env cs g))
           = diag_F eigh (var_A g) (var_H g) (nalpha g)
       \<and> (Cb (core_guess eigh env cs g), Db (core_guess eigh env cs g))
           = diag_F eigh (var_A g) (var_H g) (nbeta g)
       \<and> (Ca (orbital_update eigh g st Fa Fb), Da (orbital_update eigh g st Fa Fb))
           = diag_F eigh (var_A g) Fa (nalpha g)
       \<and> (Cb (orbital_update eigh g st Fa Fb), Db (orbital_update eigh g st Fa Fb))
           = diag_F eigh (var_A g) Fb (nbeta g)"
proof -
  let ?Cp = "snd (eigh (dot (dot A F) A))"
  let ?C = "dot A ?Cp"
  have len: "length ?C = m"
    using assms(1) by (simp add: length_dot is_mat_length)
  have row: "length (?C ! p) = m" if "p < m" for p
  proof -
    from that have "0 < m" by simp
    with assms(4) have "ncols ?Cp = m" by (rule is_mat_ncols)
    with that assms(1) show ?thesis by (simp add: length_dot_nth is_mat_length)
  qed
  from assms(5,6) have n: "nat n \<le> m" by simp
  have occ: "map (slice_to n) ?C = map (take (nat n)) ?C"
    using assms(5) by (simp add: slice_to_take)
  have "diag_F eigh A F n = diag_F_spec eigh m A F (nat n)"
    by (simp add: diag_F_def diag_F_spec_def Let_def split_def assms(2) occ
        einsum_pi_qi_take [OF len row n])
  then show ?thesis
    by (simp add: core_guess_def orbital_update_def Let_def split_def)
qed

lemma two_level_diag_F_spec:
  "diag_F_spec eigh_diagonal 2 [[1, 0], [0, 1]] [[8, 0], [0, 1 / 2]] (nat 1) =
     ([[0, 1], [1, 0]], [[0, 0], [0, 1]])"
  by (simp add: diag_F_spec_def mat_transpose_def array_defs eigh_diagonal_2 Let_def)

theorem diag_F_contract_witness:
  "is_mat 2 2 [[1, 0], [0, 1]] \<and> mat_transpose [[1, 0], [0, 1]] = [[1, 0], [0, 1]]
   \<and> is_mat 2 2 [[8, 0], [0, 1 / 2]]
   \<and> is_mat 2 2 (snd (eigh_diagonal (dot (dot [[1, 0], [0, 1]] [[8, 0], [0, 1 / 2]]) [[1, 0], [0, 1]])))
   \<and> (0::int) \<le> 1 \<and> (1::int) \<le> int 2
   \<and> diag_F eigh_diagonal [[1, 0], [0, 1]] [[8, 0], [0, 1 / 2]] 1 =
       ([[0, 1], [1, 0]], [[0, 0], [0, 1]])"
proof -
  have A: "is_mat 2 2 [[1, 0], [0, 1]]" by (simp add: is_mat_def)
  have T: "mat_transpose [[1, 0], [0, 1]] = [[1, 0], [0, 1]]"
    by (simp add: mat_transpose_def array_defs)
  have F: "is_mat 2 2 [[8, 0], [0, 1 / 2]]" by (simp add: is_mat_def)
  have E: "is_mat 2 2 (snd (eigh_diagonal (dot (dot [[1, 0], [0, 1]] [[8, 0], [0, 1 / 2]]) [[1, 0], [0, 1]])))"
    by (simp add: array_defs eigh_diagonal_2 is_mat_def)
  have n: "(0::int) \<le> 1" "(1::int) \<le> int 2" by simp_all
  from diag_F_contract [where eigh = eigh_diagonal and m = 2 and n = 1
      and A = "[[1, 0], [0, 1]]" and F = "[[8, 0], [0, 1 / 2]]", OF A T F E n]
    two_level_diag_F_spec A T F E
  show ?thesis by simp
qed

end
